theory Spec2Isabelle
  imports Complex_Main
begin

section \<open>Tensors, errors and broadcasting\<close>

text \<open>
  This theory embeds the algorithmic parts of the reinforcement-learning notebooks: the
  generalized advantage estimation of the batch actor-critic method, the returns and the
  loss of REINFORCE, and the replay buffer, the temporal-difference loss and the training
  gate of DQN. Networks, optimizers, environments and logging are not modelled.

  The notebooks compute on one-dimensional tensors. Where a library call of the source
  raises, the model returns \<open>Inl\<close> of the exception's class.

  The temporal-difference loss of DQN is modelled over lists of real numbers, so its
  arithmetic is exact; there the mean of an empty tensor, the float value nan in the
  source, is reported as \<open>Inl NaN\<close>. The advantage, return and REINFORCE computations are
  modelled over float values with a dtype, as described in the next section.
\<close>

datatype error = IndexError | RuntimeError | ZeroDivisionError | ValueError | TypeError | NaN

text \<open>
  Elementwise binary operation of two 1-D tensors with the broadcasting rule of the tensor
  library: equal sizes are combined pointwise, a tensor of size 1 is stretched to the size
  of the other, and any other pair of sizes raises a RuntimeError.
\<close>

definition broadcast2 :: "('a \<Rightarrow> 'a \<Rightarrow> 'a) \<Rightarrow> 'a list \<Rightarrow> 'a list \<Rightarrow> error + 'a list" where
  "broadcast2 f xs ys =
     (if length xs = length ys then Inr (map2 f xs ys)
      else if length xs = 1 then Inr (map (f (hd xs)) ys)
      else if length ys = 1 then Inr (map (\<lambda>x. f x (hd ys)) xs)
      else Inl RuntimeError)"

text \<open>\<open>x.mean()\<close> over the reals: nan on the empty tensor.\<close>

definition mean :: "real list \<Rightarrow> error + real" where
  "mean xs = (if xs = [] then Inl NaN else Inr (sum_list xs / real (length xs)))"

section \<open>Float values, rounding and dtypes\<close>

text \<open>
  An element of a float tensor is a finite number, one of the two infinities, or nan
  (signed zeros are not distinguished). An arithmetic operation on two finite operands
  computes the exact result and hands it to the rounding \<open>rnd\<close> of the dtype, which
  returns the float that is stored: a finite value, or an infinity when the result
  overflows. On the other operands the operations follow the IEEE rules; in particular
  \<open>0 * inf\<close> and \<open>inf - inf\<close> are nan, and nan is absorbing.
\<close>

datatype float = Fin real | PosInf | NegInf | NotANumber

fun is_finite :: "float \<Rightarrow> bool" where
  "is_finite (Fin x) = True"
| "is_finite a = False"

fun fneg :: "float \<Rightarrow> float" where
  "fneg (Fin x) = Fin (- x)"
| "fneg PosInf = NegInf"
| "fneg NegInf = PosInf"
| "fneg NotANumber = NotANumber"

fun fadd :: "(real \<Rightarrow> float) \<Rightarrow> float \<Rightarrow> float \<Rightarrow> float" where
  "fadd rnd (Fin x) (Fin y) = rnd (x + y)"
| "fadd rnd NotANumber b = NotANumber"
| "fadd rnd a NotANumber = NotANumber"
| "fadd rnd PosInf NegInf = NotANumber"
| "fadd rnd NegInf PosInf = NotANumber"
| "fadd rnd PosInf b = PosInf"
| "fadd rnd NegInf b = NegInf"
| "fadd rnd (Fin x) b = b"

definition fsub :: "(real \<Rightarrow> float) \<Rightarrow> float \<Rightarrow> float \<Rightarrow> float" where
  "fsub rnd a b = fadd rnd a (fneg b)"

fun fmul :: "(real \<Rightarrow> float) \<Rightarrow> float \<Rightarrow> float \<Rightarrow> float" where
  "fmul rnd (Fin x) (Fin y) = rnd (x * y)"
| "fmul rnd NotANumber b = NotANumber"
| "fmul rnd a NotANumber = NotANumber"
| "fmul rnd (Fin x) PosInf = (if x = 0 then NotANumber else if 0 < x then PosInf else NegInf)"
| "fmul rnd (Fin x) NegInf = (if x = 0 then NotANumber else if 0 < x then NegInf else PosInf)"
| "fmul rnd PosInf (Fin y) = (if y = 0 then NotANumber else if 0 < y then PosInf else NegInf)"
| "fmul rnd NegInf (Fin y) = (if y = 0 then NotANumber else if 0 < y then NegInf else PosInf)"
| "fmul rnd PosInf PosInf = PosInf"
| "fmul rnd PosInf NegInf = NegInf"
| "fmul rnd NegInf PosInf = NegInf"
| "fmul rnd NegInf NegInf = PosInf"

text \<open>
  The quotient of a float by the number of elements of a tensor, as \<open>x.mean()\<close> forms it:
  \<open>0 / 0\<close> is nan, a non-zero finite value over 0 is an infinity.
\<close>

fun fdiv :: "(real \<Rightarrow> float) \<Rightarrow> float \<Rightarrow> nat \<Rightarrow> float" where
  "fdiv rnd (Fin x) n =
     (if n = 0 then (if x = 0 then NotANumber else if 0 < x then PosInf else NegInf)
      else rnd (x / real n))"
| "fdiv rnd a n = a"

text \<open>
  \<open>x.mean()\<close> of a float tensor: the sum of the elements over their number. The library
  does not fix the order of the additions inside the sum; the model adds from left to
  right, starting from 0. (For tensors of one or two elements every order gives the same
  float.) The mean of the empty tensor is \<open>0 / 0\<close>, nan.
\<close>

definition fsum :: "(real \<Rightarrow> float) \<Rightarrow> float list \<Rightarrow> float" where
  "fsum rnd xs = foldl (fadd rnd) (Fin 0) xs"

definition fmean :: "(real \<Rightarrow> float) \<Rightarrow> float list \<Rightarrow> float" where
  "fmean rnd xs = fdiv rnd (fsum rnd xs) (length xs)"

text \<open>
  Two roundings. \<open>exact\<close> rounds nothing and never overflows: it is the idealisation in
  which float arithmetic is the arithmetic of the real numbers, and the statements that
  compare a result with a closed-form sum are written in it. \<open>float32\<close> is the IEEE
  single-precision rounding to the nearest float, ties to the even significand, of the
  default dtype of the library: a finite non-zero \<open>x\<close> with
  \<open>2^e \<le> |x| < 2^(e+1)\<close> is rounded to a multiple of \<open>2^(e-23)\<close> (of \<open>2^(-149)\<close> in the
  subnormal range \<open>e < -126\<close>), and a rounded value of magnitude \<open>2^128\<close> or more is an
  infinity.
\<close>

definition exact :: "real \<Rightarrow> float" where
  "exact x = Fin x"

definition rne :: "real \<Rightarrow> int" where
  "rne x =
     (let f = \<lfloor>x\<rfloor>; r = x - of_int f
      in if r < 1 / 2 then f else if 1 / 2 < r then f + 1 else if even f then f else f + 1)"

definition pow2 :: "int \<Rightarrow> real" where
  "pow2 e = (if 0 \<le> e then 2 ^ nat e else 1 / 2 ^ nat (- e))"

definition float32 :: "real \<Rightarrow> float" where
  "float32 x =
     (if x = 0 then Fin 0
      else
        let e = max \<lfloor>log 2 \<bar>x\<bar>\<rfloor> (- 126);
            ulp = pow2 (e - 23);
            y = of_int (rne (x / ulp)) * ulp
        in if 2 ^ 128 \<le> \<bar>y\<bar> then (if 0 < x then PosInf else NegInf) else Fin y)"

text \<open>
  What the statements ask of a rounding: it keeps zero, and it keeps every value it has
  produced (rounding is idempotent). A float is representable when the rounding keeps
  it; the elements of a tensor of the dtype are representable.
\<close>

definition rounding :: "(real \<Rightarrow> float) \<Rightarrow> bool" where
  "rounding rnd \<longleftrightarrow> rnd 0 = Fin 0 \<and> (\<forall>x y. rnd x = Fin y \<longrightarrow> rnd y = Fin y)"

fun representable :: "(real \<Rightarrow> float) \<Rightarrow> float \<Rightarrow> bool" where
  "representable rnd (Fin x) = (rnd x = Fin x)"
| "representable rnd a = True"

text \<open>
  The tensors whose dtype the source inherits, \<open>reward\<close> and \<open>returns\<close>, carry it: a float
  dtype or int64. \<open>torch.empty_like(x)\<close> allocates a tensor of the size and dtype of \<open>x\<close>
  (uninitialised in the source; the model fills it with zeros, and the loops overwrite
  every entry). An assignment \<open>x[t] = v\<close> of a float \<open>v\<close> converts \<open>v\<close> to the dtype of
  \<open>x\<close>: into an int64 tensor the value is truncated toward zero. (The conversion of nan,
  of an infinity and of a value outside the int64 range is undefined in C; the model
  returns the least int64, the result of the conversion instruction of x86 processors.)
  In arithmetic with a float an int64 element is converted to the float dtype.
\<close>

datatype vec = FloatVec "float list" | IntVec "int list"

fun numel :: "vec \<Rightarrow> nat" where
  "numel (FloatVec xs) = length xs"
| "numel (IntVec xs) = length xs"

fun empty_like :: "vec \<Rightarrow> vec" where
  "empty_like (FloatVec xs) = FloatVec (replicate (length xs) (Fin 0))"
| "empty_like (IntVec xs) = IntVec (replicate (length xs) 0)"

fun to_float :: "(real \<Rightarrow> float) \<Rightarrow> vec \<Rightarrow> float list" where
  "to_float rnd (FloatVec xs) = xs"
| "to_float rnd (IntVec xs) = map (\<lambda>i. rnd (of_int i)) xs"

fun to_int64 :: "float \<Rightarrow> int" where
  "to_int64 (Fin x) =
     (let i = (if 0 \<le> x then \<lfloor>x\<rfloor> else \<lceil>x\<rceil>)
      in if - (2 ^ 63) \<le> i \<and> i < 2 ^ 63 then i else - (2 ^ 63))"
| "to_int64 a = - (2 ^ 63)"

fun vec_setitem :: "vec \<Rightarrow> nat \<Rightarrow> float \<Rightarrow> vec" where
  "vec_setitem (FloatVec xs) t v = FloatVec (xs[t := v])"
| "vec_setitem (IntVec xs) t v = IntVec (xs[t := to_int64 v])"

section \<open>Generalized advantage estimation (batch actor-critic notebook)\<close>

text \<open>
  The loop \<open>for t in reversed(range(n_step))\<close>: the counter \<open>Suc t\<close> stands for the
  iterations \<open>t, t - 1, ..., 0\<close> still to run. Reading \<open>delta[t]\<close> or
  \<open>not_terminated[t]\<close> beyond the end of the tensor raises an IndexError; \<open>gae\<close> has
  \<open>n_step\<close> entries, so the write \<open>gae[t] = ...\<close> is always in range. The running value
  \<open>discounted_gae\<close> is a float; only the copy written into \<open>gae\<close> takes the dtype of
  \<open>gae\<close>. The product is evaluated in the source's order,
  \<open>(not_terminated[t] * discount_factor) * discounted_gae\<close>.
\<close>

fun gae_loop :: "(real \<Rightarrow> float) \<Rightarrow> float list \<Rightarrow> float list \<Rightarrow> float \<Rightarrow> nat \<Rightarrow> float \<Rightarrow> vec \<Rightarrow> error + vec" where
  "gae_loop rnd delta not_terminated discount_factor 0 discounted_gae gae = Inr gae"
| "gae_loop rnd delta not_terminated discount_factor (Suc t) discounted_gae gae =
     (if t < length delta \<and> t < length not_terminated then
        (let discounted_gae' =
               fadd rnd (delta ! t)
                 (fmul rnd (fmul rnd (not_terminated ! t) discount_factor) discounted_gae)
         in gae_loop rnd delta not_terminated discount_factor t discounted_gae'
              (vec_setitem gae t discounted_gae'))
      else Inl IndexError)"

text \<open>
  \<open>compute_gae(state_value, reward, terminated, gamma, lam)\<close>, with the rounding of the
  float dtype as first argument. \<open>state_value\<close> and \<open>terminated\<close> are float tensors (the
  notebook builds \<open>terminated\<close> with \<open>dtype=torch.float32\<close>, \<open>state_value\<close> comes from the
  critic; tensors of another dtype in their place are not modelled). \<open>reward\<close> carries
  its dtype, which \<open>gae = torch.empty_like(reward)\<close> inherits.
  \<open>gamma\<close> and \<open>lam\<close> are Python floats, modelled as real numbers; they and their product
  \<open>discount_factor\<close> enter a tensor operation rounded to the dtype of the tensor. The
  literals \<open>1\<close> and \<open>0.0\<close> are floats of every dtype. \<open>state_value[1:]\<close> is \<open>drop 1\<close> and
  \<open>state_value[:-1]\<close> is \<open>butlast\<close> (both empty on the empty tensor). The expression for
  \<open>delta\<close> is evaluated in the source's order:
  \<open>(reward + ((not_terminated * gamma) * state_value[1:])) - state_value[:-1]\<close>.
\<close>

definition compute_gae :: "(real \<Rightarrow> float) \<Rightarrow> float list \<Rightarrow> vec \<Rightarrow> float list \<Rightarrow> real \<Rightarrow> real \<Rightarrow> error + vec" where
  "compute_gae rnd state_value reward terminated gamma lam =
     (let n_step = numel reward;
          gae = empty_like reward;
          discounted_gae = Fin 0;
          not_terminated = map (\<lambda>x. fsub rnd (Fin 1) x) terminated
      in case broadcast2 (fmul rnd) (map (\<lambda>x. fmul rnd x (rnd gamma)) not_terminated)
                (drop 1 state_value) of
           Inl e \<Rightarrow> Inl e
         | Inr a \<Rightarrow>
             (case broadcast2 (fadd rnd) (to_float rnd reward) a of
                Inl e \<Rightarrow> Inl e
              | Inr b \<Rightarrow>
                  (case broadcast2 (fsub rnd) b (butlast state_value) of
                     Inl e \<Rightarrow> Inl e
                   | Inr delta \<Rightarrow>
                       gae_loop rnd delta not_terminated (rnd (gamma * lam)) n_step
                         discounted_gae gae)))"

text \<open>
  The float operations of the iteration for step \<open>t\<close>, written over the inputs of
  \<open>compute_gae\<close> with a float-valued \<open>reward\<close>: the temporal-difference error \<open>delta[t]\<close>
  plus the masked and discounted advantage \<open>next\<close> of step \<open>t + 1\<close>.
\<close>

definition gae_step :: "(real \<Rightarrow> float) \<Rightarrow> float list \<Rightarrow> float list \<Rightarrow> float list \<Rightarrow> real \<Rightarrow> real \<Rightarrow> nat \<Rightarrow> float \<Rightarrow> float" where
  "gae_step rnd state_value reward terminated gamma lam t next =
     fadd rnd
       (fsub rnd
          (fadd rnd (reward ! t)
             (fmul rnd (fmul rnd (fsub rnd (Fin 1) (terminated ! t)) (rnd gamma))
                (state_value ! (t + 1))))
          (state_value ! t))
       (fmul rnd (fmul rnd (fsub rnd (Fin 1) (terminated ! t)) (rnd (gamma * lam))) next)"

text \<open>
  The quantities the statements about \<open>compute_gae\<close> are written in, over the real
  numbers: the one-step temporal-difference error with the episode-boundary mask, and the
  exponentially weighted sum of the unmasked errors from step \<open>t\<close> to the end of a horizon
  of \<open>n\<close> steps.
\<close>

definition td_delta :: "real list \<Rightarrow> real list \<Rightarrow> real list \<Rightarrow> real \<Rightarrow> nat \<Rightarrow> real" where
  "td_delta state_value reward terminated gamma t =
     reward ! t + (1 - terminated ! t) * gamma * state_value ! (t + 1) - state_value ! t"

definition gae_closed_form :: "real list \<Rightarrow> real list \<Rightarrow> real \<Rightarrow> real \<Rightarrow> nat \<Rightarrow> nat \<Rightarrow> real" where
  "gae_closed_form state_value reward gamma lam n t =
     (\<Sum>l = 0..n - 1 - t. (gamma * lam) ^ l *
        (reward ! (t + l) + gamma * state_value ! (t + l + 1) - state_value ! (t + l)))"

section \<open>REINFORCE: returns and loss (REINFORCE notebook)\<close>

text \<open>
  \<open>REINFORCE.compute_return(reward)\<close>; the rounding of the float dtype and the field
  \<open>self.gamma\<close> are the first two arguments. \<open>returns = torch.empty_like(reward)\<close> inherits
  the dtype of \<open>reward\<close>; the running value \<open>G\<close> is a float, and only the copy written
  into \<open>returns\<close> takes the dtype of \<open>returns\<close>. The loop runs \<open>t = T - 1, ..., 0\<close>; every
  read \<open>reward[t]\<close> and write \<open>returns[t]\<close> is in range, so no error can arise.
\<close>

fun return_loop :: "(real \<Rightarrow> float) \<Rightarrow> real \<Rightarrow> float list \<Rightarrow> nat \<Rightarrow> float \<Rightarrow> vec \<Rightarrow> vec" where
  "return_loop rnd gamma reward 0 G returns = returns"
| "return_loop rnd gamma reward (Suc t) G returns =
     (let G' = fadd rnd (reward ! t) (fmul rnd (rnd gamma) G)
      in return_loop rnd gamma reward t G' (vec_setitem returns t G'))"

definition compute_return :: "(real \<Rightarrow> float) \<Rightarrow> real \<Rightarrow> vec \<Rightarrow> vec" where
  "compute_return rnd gamma reward =
     (let returns = empty_like reward;
          G = Fin 0;
          T = numel reward
      in return_loop rnd gamma (to_float rnd reward) T G returns)"

definition discounted_return :: "real \<Rightarrow> real list \<Rightarrow> nat \<Rightarrow> real" where
  "discounted_return gamma reward t =
     (\<Sum>k = 0..length reward - 1 - t. gamma ^ k * reward ! (t + k))"

text \<open>
  \<open>REINFORCE.compute_reinforce_loss(returns, log_pi)\<close>. \<open>returns.mean()\<close> raises a
  RuntimeError on a tensor of an integer dtype. On a float tensor the mean is subtracted
  from every element (from none, when the tensor is empty), the product with \<open>log_pi\<close>
  broadcasts, and the loss is the negated mean of the product; the mean of an empty
  product is nan.
\<close>

definition compute_reinforce_loss :: "(real \<Rightarrow> float) \<Rightarrow> vec \<Rightarrow> float list \<Rightarrow> error + float" where
  "compute_reinforce_loss rnd returns log_pi =
     (case returns of
        IntVec xs \<Rightarrow> Inl RuntimeError
      | FloatVec xs \<Rightarrow>
          (let returns' = map (\<lambda>x. fsub rnd x (fmean rnd xs)) xs
           in case broadcast2 (fmul rnd) returns' log_pi of
                Inl e \<Rightarrow> Inl e
              | Inr p \<Rightarrow> Inr (fneg (fmean rnd p))))"

section \<open>The temporal-difference loss of DQN (DQN notebook)\<close>

text \<open>
  In \<open>DQN.compute_td_loss\<close> the tensors \<open>action\<close>, \<open>reward\<close> and \<open>terminated\<close> have the
  shape \<open>(batch, 1)\<close> and are modelled by the list of their \<open>batch\<close> entries; the tensors of
  Q values have the shape \<open>(batch, num_actions)\<close> and are modelled by the list of their
  rows. Besides its values a tensor carries the flag \<open>requires_grad\<close> of the autograd
  engine: the result of an operation is tracked for differentiation when one of its
  operands is, and nothing computed under \<open>torch.no_grad()\<close> is.
\<close>

datatype tensor = Tensor (data: "real list") (requires_grad: bool)

datatype tensor2 = Tensor2 (rows: "real list list") (requires_grad2: bool)

text \<open>
  \<open>self.network(obs)\<close>: the feed-forward network maps every row of the batch to its vector
  of Q values. The function \<open>Q\<close> stands for the network with its current parameters,
  \<open>trainable\<close> says whether the parameters require gradients, and \<open>grad_enabled\<close> is the
  gradient mode the call runs in.
\<close>

definition network :: "('o \<Rightarrow> real list) \<Rightarrow> bool \<Rightarrow> bool \<Rightarrow> 'o list \<Rightarrow> tensor2" where
  "network Q trainable grad_enabled obs = Tensor2 (map Q obs) (trainable \<and> grad_enabled)"

text \<open>
  \<open>q_values.gather(dim=1, index=action)\<close> with an index of shape \<open>(n, 1)\<close>: row \<open>i\<close> of the
  result is \<open>q_values[i][action[i]]\<close>. The index may not have more rows than the input,
  and an index outside \<open>0..num_actions-1\<close> raises a RuntimeError.
\<close>

definition gather :: "tensor2 \<Rightarrow> int list \<Rightarrow> error + tensor" where
  "gather q index =
     (if length index \<le> length (rows q) \<and>
         list_all (\<lambda>(row, a). 0 \<le> a \<and> a < int (length row)) (zip (rows q) index)
      then Inr (Tensor (map2 (\<lambda>row a. row ! nat a) (rows q) index) (requires_grad2 q))
      else Inl RuntimeError)"

text \<open>
  \<open>next_q_values.max(dim=1, keepdim=True)\<close>, the values only: the largest entry of every
  row; a row without entries raises an IndexError.
\<close>

definition max_dim1 :: "tensor2 \<Rightarrow> error + tensor" where
  "max_dim1 q =
     (if list_all (\<lambda>row. row \<noteq> []) (rows q)
      then Inr (Tensor (map (\<lambda>row. Max (set row)) (rows q)) (requires_grad2 q))
      else Inl IndexError)"

text \<open>Elementwise operations: with a scalar, and of two tensors with broadcasting.\<close>

definition rsub :: "real \<Rightarrow> tensor \<Rightarrow> tensor" where
  "rsub c x = Tensor (map (\<lambda>v. c - v) (data x)) (requires_grad x)"

definition mul_scalar :: "tensor \<Rightarrow> real \<Rightarrow> tensor" where
  "mul_scalar x c = Tensor (map (\<lambda>v. v * c) (data x)) (requires_grad x)"

definition elementwise :: "(real \<Rightarrow> real \<Rightarrow> real) \<Rightarrow> tensor \<Rightarrow> tensor \<Rightarrow> error + tensor" where
  "elementwise f x y =
     (case broadcast2 f (data x) (data y) of
        Inl e \<Rightarrow> Inl e
      | Inr d \<Rightarrow> Inr (Tensor d (requires_grad x \<or> requires_grad y)))"

text \<open>
  \<open>F.mse_loss(input, target)\<close> with the default reduction: the mean of the squared
  differences, a scalar, returned with its \<open>requires_grad\<close> flag.
\<close>

definition mse_loss :: "tensor \<Rightarrow> tensor \<Rightarrow> error + real \<times> bool" where
  "mse_loss input target =
     (case elementwise (\<lambda>a b. (a - b)\<^sup>2) input target of
        Inl e \<Rightarrow> Inl e
      | Inr sq \<Rightarrow> (case mean (data sq) of
                    Inl e \<Rightarrow> Inl e
                  | Inr m \<Rightarrow> Inr (m, requires_grad sq)))"

text \<open>
  The Q target of \<open>compute_td_loss\<close>:
  \<open>reward + not_terminated * self.config.gamma * next_max_q_value\<close>, with the Q values of
  the next observations computed under \<open>torch.no_grad()\<close>. The batch tensors come from
  numpy arrays and require no gradient.
\<close>

definition q_target :: "('o \<Rightarrow> real list) \<Rightarrow> bool \<Rightarrow> real \<Rightarrow> 'o list \<Rightarrow> real list \<Rightarrow> real list \<Rightarrow> error + tensor" where
  "q_target Q trainable gamma next_obs reward terminated =
     (let next_q_values = network Q trainable False next_obs
      in case max_dim1 next_q_values of
           Inl e \<Rightarrow> Inl e
         | Inr next_max_q_value \<Rightarrow>
             (let not_terminated = rsub 1 (Tensor terminated False)
              in case elementwise (*) (mul_scalar not_terminated gamma) next_max_q_value of
                   Inl e \<Rightarrow> Inl e
                 | Inr discounted \<Rightarrow> elementwise (+) (Tensor reward False) discounted))"

text \<open>
  \<open>DQN.compute_td_loss(obs, action, next_obs, reward, terminated)\<close>; \<open>gamma\<close> is
  \<open>self.config.gamma\<close>. The source evaluates both network calls first, then the gather,
  then the maximum and the target; an error of an earlier step wins.
\<close>

definition compute_td_loss :: "('o \<Rightarrow> real list) \<Rightarrow> bool \<Rightarrow> real \<Rightarrow> 'o list \<Rightarrow> int list \<Rightarrow> 'o list \<Rightarrow> real list \<Rightarrow> real list \<Rightarrow> error + real \<times> bool" where
  "compute_td_loss Q trainable gamma obs action next_obs reward terminated =
     (let q_values = network Q trainable True obs
      in case gather q_values action of
           Inl e \<Rightarrow> Inl e
         | Inr q_value \<Rightarrow>
             (case q_target Q trainable gamma next_obs reward terminated of
                Inl e \<Rightarrow> Inl e
              | Inr target \<Rightarrow> mse_loss target q_value))"

text \<open>
  The loss the update rule of DQN prescribes for a batch of \<open>B\<close> transitions: the mean over
  the batch of the squared difference between
  \<open>reward + (1 - terminated) * gamma * max\<^sub>a Q(next_obs, a)\<close> and \<open>Q(obs, action)\<close>.
\<close>

definition td_loss_spec :: "('o \<Rightarrow> real list) \<Rightarrow> real \<Rightarrow> 'o list \<Rightarrow> int list \<Rightarrow> 'o list \<Rightarrow> real list \<Rightarrow> real list \<Rightarrow> real" where
  "td_loss_spec Q gamma obs action next_obs reward terminated =
     (\<Sum>i < length obs.
        (reward ! i + (1 - terminated ! i) * gamma * Max (set (Q (next_obs ! i)))
           - Q (obs ! i) ! nat (action ! i))\<^sup>2) / real (length obs)"

section \<open>Experience and replay buffer (DQN notebook)\<close>

text \<open>
  Python's \<open>xs[i]\<close> and \<open>xs[i] = v\<close> on a list (and the row access \<open>a[i]\<close> on an array): a
  negative index counts from the end, and an index outside the list raises an IndexError.
  The sequencing of two fallible steps passes the first error on.
\<close>

definition py_getitem :: "'a list \<Rightarrow> int \<Rightarrow> error + 'a" where
  "py_getitem xs i =
     (let n = int (length xs); j = (if i < 0 then i + n else i)
      in if 0 \<le> j \<and> j < n then Inr (xs ! nat j) else Inl IndexError)"

definition py_setitem :: "'a list \<Rightarrow> int \<Rightarrow> 'a \<Rightarrow> error + 'a list" where
  "py_setitem xs i v =
     (let n = int (length xs); j = (if i < 0 then i + n else i)
      in if 0 \<le> j \<and> j < n then Inr (xs[nat j := v]) else Inl IndexError)"

definition bind :: "error + 'a \<Rightarrow> ('a \<Rightarrow> error + 'b) \<Rightarrow> error + 'b" where
  "bind m f = (case m of Inl e \<Rightarrow> Inl e | Inr x \<Rightarrow> f x)"

text \<open>
  \<open>class Experience(NamedTuple)\<close>: five arrays whose first axis runs over the environments.
  A row of \<open>obs\<close> and \<open>next_obs\<close> is an observation, of any type \<open>'o\<close>; a row of \<open>action\<close>,
  \<open>reward\<close> and \<open>terminated\<close> has the shape \<open>(1,)\<close> and is modelled by its entry.
\<close>

record 'o Experience =
  obs :: "'o list"
  action :: "int list"
  next_obs :: "'o list"
  reward :: "real list"
  terminated :: "real list"

text \<open>
  \<open>class DQNConfig(NamedTuple)\<close>.
\<close>

record DQNConfig =
  training_freq :: int
  batch_size :: int
  capacity :: int
  epoch :: int
  epsilon_linear_decay :: "int \<times> int \<times> real \<times> real"
  gamma :: real

text \<open>
  \<open>class ReplayBuffer\<close>. The five storage lists hold \<open>None\<close> or a stored row.
\<close>

record 'o ReplayBuffer =
  training_freq :: int
  sampled_batch_size :: int
  capacity :: int
  num_envs :: int
  n_step :: int
  count :: int
  recent_idx :: int
  obs :: "'o option list"
  action :: "int option list"
  next_obs :: "'o option list"
  reward :: "real option list"
  terminated :: "real option list"

text \<open>
  \<open>ReplayBuffer.reset\<close>. \<open>[None] * capacity\<close> is the empty list for a capacity below 1.
\<close>

definition reset :: "'o ReplayBuffer \<Rightarrow> 'o ReplayBuffer" where
  "reset self =
     self\<lparr>n_step := 0, count := 0, recent_idx := - 1,
          obs := replicate (nat (ReplayBuffer.capacity self)) None,
          action := replicate (nat (ReplayBuffer.capacity self)) None,
          next_obs := replicate (nat (ReplayBuffer.capacity self)) None,
          reward := replicate (nat (ReplayBuffer.capacity self)) None,
          terminated := replicate (nat (ReplayBuffer.capacity self)) None\<rparr>"

text \<open>
  \<open>ReplayBuffer.__init__\<close>: the four parameters are stored and \<open>reset\<close> sets every other
  field (the values they are given before are never read).
\<close>

definition ReplayBuffer_init :: "int \<Rightarrow> int \<Rightarrow> int \<Rightarrow> int \<Rightarrow> 'o ReplayBuffer" where
  "ReplayBuffer_init training_freq' sampled_batch_size' capacity' num_envs' =
     reset \<lparr>training_freq = training_freq', sampled_batch_size = sampled_batch_size',
            capacity = capacity', num_envs = num_envs',
            n_step = 0, count = 0, recent_idx = 0,
            obs = [], action = [], next_obs = [], reward = [], terminated = []\<rparr>"

text \<open>\<open>ReplayBuffer.can_sample\<close>.\<close>

definition can_sample :: "'o ReplayBuffer \<Rightarrow> bool" where
  "can_sample self \<longleftrightarrow>
     count self \<ge> sampled_batch_size self \<and> n_step self \<ge> ReplayBuffer.training_freq self"

text \<open>
  \<open>items[idx] = array[i]\<close>: the right-hand side is evaluated first.
\<close>

definition store :: "'a option list \<Rightarrow> int \<Rightarrow> 'a list \<Rightarrow> nat \<Rightarrow> error + 'a option list" where
  "store items idx array i =
     bind (py_getitem array (int i)) (\<lambda>x. py_setitem items idx (Some x))"

text \<open>
  The body of the loop of \<open>ReplayBuffer.add\<close> for the environment \<open>i\<close>. The modulo by a
  capacity of 0 raises a ZeroDivisionError. When a step raises, the exception leaves
  \<open>add\<close> and the model returns the error alone.
\<close>

definition add_row :: "'o ReplayBuffer \<Rightarrow> 'o Experience \<Rightarrow> nat \<Rightarrow> error + 'o ReplayBuffer" where
  "add_row self experience i =
     (if ReplayBuffer.capacity self = 0 then Inl ZeroDivisionError
      else
        let self = self\<lparr>recent_idx := (recent_idx self + 1) mod ReplayBuffer.capacity self\<rparr>;
            self = self\<lparr>count := min (count self + 1) (ReplayBuffer.capacity self)\<rparr>
        in bind (store (obs self) (recent_idx self) (Experience.obs experience) i) (\<lambda>obs'.
           bind (store (action self) (recent_idx self) (Experience.action experience) i) (\<lambda>action'.
           bind (store (next_obs self) (recent_idx self) (Experience.next_obs experience) i) (\<lambda>next_obs'.
           bind (store (reward self) (recent_idx self) (Experience.reward experience) i) (\<lambda>reward'.
           bind (store (terminated self) (recent_idx self) (Experience.terminated experience) i) (\<lambda>terminated'.
           Inr (self\<lparr>obs := obs', action := action', next_obs := next_obs',
                     reward := reward', terminated := terminated'\<rparr>)))))))"

fun add_loop :: "'o ReplayBuffer \<Rightarrow> 'o Experience \<Rightarrow> nat list \<Rightarrow> error + 'o ReplayBuffer" where
  "add_loop self experience [] = Inr self"
| "add_loop self experience (i # is) =
     bind (add_row self experience i) (\<lambda>self'. add_loop self' experience is)"

text \<open>
  \<open>ReplayBuffer.add(experience)\<close>: the loop runs over \<open>range(self.num_envs)\<close>; the local
  \<open>num_envs = experience.obs.shape[0]\<close> is never used.
\<close>

definition add :: "'o ReplayBuffer \<Rightarrow> 'o Experience \<Rightarrow> error + 'o ReplayBuffer" where
  "add self experience =
     add_loop (self\<lparr>n_step := n_step self + 1\<rparr>) experience [0..<nat (num_envs self)]"

text \<open>
  \<open>ReplayBuffer._sample_idxs\<close>: \<open>np.random.randint(self.count, size=self.sampled_batch_size)\<close>.
  A negative size raises a ValueError, the size 0 gives the empty array, and an upper
  bound below 1 raises a ValueError; otherwise the call returns \<open>size\<close> integers from
  \<open>0..count-1\<close>. The generator is a parameter: \<open>rng k\<close> is the raw natural number behind the
  \<open>k\<close>-th draw, reduced to the range. How these numbers are distributed is a property of
  the generator and is not modelled.
\<close>

definition sample_idxs :: "'o ReplayBuffer \<Rightarrow> (nat \<Rightarrow> nat) \<Rightarrow> error + int list" where
  "sample_idxs self rng =
     (if sampled_batch_size self < 0 then Inl ValueError
      else if sampled_batch_size self = 0 then Inr []
      else if count self \<le> 0 then Inl ValueError
      else Inr (map (\<lambda>k. int (rng k mod nat (count self))) [0..<nat (sampled_batch_size self)]))"

text \<open>
  \<open>ReplayBuffer._get_batch_tensor\<close>: \<open>np.array(operator.itemgetter(*batch_idx)(items))\<close>.
  Without an index \<open>itemgetter\<close> raises a TypeError; with one index it returns the item
  itself, and the array has the shape of the item; with several it returns the tuple of
  the items, which the array stacks along a new first axis. A slot that was never filled
  is read as \<open>None\<close>.
\<close>

datatype 'a batch = Item 'a | Stack "'a list"

fun get_items :: "'a list \<Rightarrow> int list \<Rightarrow> error + 'a list" where
  "get_items items [] = Inr []"
| "get_items items (i # is) =
     bind (py_getitem items i) (\<lambda>x. bind (get_items items is) (\<lambda>xs. Inr (x # xs)))"

definition get_batch_tensor :: "'a list \<Rightarrow> int list \<Rightarrow> error + 'a batch" where
  "get_batch_tensor items batch_idx =
     (case batch_idx of
        [] \<Rightarrow> Inl TypeError
      | [i] \<Rightarrow> bind (py_getitem items i) (\<lambda>x. Inr (Item x))
      | _ \<Rightarrow> bind (get_items items batch_idx) (\<lambda>xs. Inr (Stack xs)))"

text \<open>
  \<open>ReplayBuffer.sample\<close>: the five batches and the buffer with \<open>n_step\<close> reset.
\<close>

definition sample :: "'o ReplayBuffer \<Rightarrow> (nat \<Rightarrow> nat) \<Rightarrow>
    error + ('o option batch \<times> int option batch \<times> 'o option batch \<times> real option batch \<times> real option batch) \<times> 'o ReplayBuffer" where
  "sample self rng =
     (let self = self\<lparr>n_step := 0\<rparr>
      in bind (sample_idxs self rng) (\<lambda>sample_idx.
         bind (get_batch_tensor (obs self) sample_idx) (\<lambda>obs'.
         bind (get_batch_tensor (action self) sample_idx) (\<lambda>action'.
         bind (get_batch_tensor (next_obs self) sample_idx) (\<lambda>next_obs'.
         bind (get_batch_tensor (reward self) sample_idx) (\<lambda>reward'.
         bind (get_batch_tensor (terminated self) sample_idx) (\<lambda>terminated'.
         Inr ((obs', action', next_obs', reward', terminated'), self))))))))"

section \<open>The DQN agent: update and train (DQN notebook)\<close>

text \<open>
  \<open>class DQN\<close>, reduced to the fields that \<open>update\<close> and \<open>train\<close> read to decide what to
  do: the configuration, the replay buffer, the step counters and the \<open>epsilon\<close> of the
  policy. The network, the optimizer and the running mean of the loss are left out: the
  loss computation and the gradient step neither read nor write the fields kept here, so
  \<open>train\<close> below keeps from each epoch the call of \<open>sample\<close> and the counters. An error
  raised inside the loss computation is therefore not part of this model: every run of the
  source that completes is a run of the model with the same buffer and counters, so what
  is proved about all completed runs of the model holds for those of the source.
  The field \<open>train_calls\<close> is instrumentation without a counterpart in the source: it
  counts the calls of \<open>train\<close>.
\<close>

record 'o DQN =
  config :: DQNConfig
  num_envs :: int
  replay_buffer :: "'o ReplayBuffer"
  epsilon :: real
  global_time_step :: int
  training_step :: int
  num_losses :: int
  train_calls :: nat

text \<open>\<open>DQN.__init__\<close>; the initial \<open>epsilon\<close> is \<open>epsilon_linear_decay[2]\<close>.\<close>

definition DQN_init :: "DQNConfig \<Rightarrow> int \<Rightarrow> 'o DQN" where
  "DQN_init config' num_envs' =
     \<lparr>config = config', num_envs = num_envs',
      replay_buffer = ReplayBuffer_init (DQNConfig.training_freq config') (batch_size config')
                        (DQNConfig.capacity config') num_envs',
      epsilon = fst (snd (snd (epsilon_linear_decay config'))),
      global_time_step = 0, training_step = 0, num_losses = 0, train_calls = 0\<rparr>"

text \<open>
  \<open>DQN._epsilon_decay(t)\<close>: the division by \<open>end_t - start_t = 0\<close> raises a
  ZeroDivisionError; \<open>np.clip(x, end_value, start_value)\<close> is
  \<open>min (max x end_value) start_value\<close>.
\<close>

definition epsilon_decay :: "'o DQN \<Rightarrow> int \<Rightarrow> error + 'o DQN" where
  "epsilon_decay self t =
     (case epsilon_linear_decay (config self) of
        (start_t, end_t, start_value, end_value) \<Rightarrow>
          if end_t - start_t = 0 then Inl ZeroDivisionError
          else
            let slope = (end_value - start_value) / real_of_int (end_t - start_t);
                value = min (max (slope * real_of_int (t - start_t) + start_value) end_value)
                          start_value
            in Inr (self\<lparr>epsilon := value\<rparr>))"

text \<open>
  \<open>DQN.train\<close>: \<open>for _ in range(self.config.epoch)\<close>, each round sampling a batch (round
  \<open>k\<close> draws from the generator \<open>rng k\<close>) and counting one training step.
\<close>

fun train_loop :: "'o DQN \<Rightarrow> (nat \<Rightarrow> nat \<Rightarrow> nat) \<Rightarrow> nat list \<Rightarrow> error + 'o DQN" where
  "train_loop self rng [] = Inr self"
| "train_loop self rng (k # ks) =
     bind (sample (replay_buffer self) (rng k)) (\<lambda>(exp_batch, buffer').
       train_loop (self\<lparr>replay_buffer := buffer',
                         training_step := training_step self + 1,
                         num_losses := num_losses self + 1\<rparr>) rng ks)"

definition train :: "'o DQN \<Rightarrow> (nat \<Rightarrow> nat \<Rightarrow> nat) \<Rightarrow> error + 'o DQN" where
  "train self rng =
     train_loop (self\<lparr>train_calls := train_calls self + 1\<rparr>) rng
       [0..<nat (epoch (config self))]"

text \<open>\<open>DQN.update(experience)\<close>.\<close>

definition update :: "'o DQN \<Rightarrow> 'o Experience \<Rightarrow> (nat \<Rightarrow> nat \<Rightarrow> nat) \<Rightarrow> error + 'o DQN" where
  "update self experience rng =
     (let self = self\<lparr>global_time_step := global_time_step self + 1\<rparr>
      in bind (add (replay_buffer self) experience) (\<lambda>buffer'.
           let self = self\<lparr>replay_buffer := buffer'\<rparr>
           in if can_sample (replay_buffer self)
              then bind (train self rng) (\<lambda>self. epsilon_decay self (global_time_step self))
              else Inr self))"

text \<open>
  The training loop of the notebook calls \<open>update\<close> once per environment step; \<open>run\<close>
  feeds a list of experiences, each with the generator of its update, and stops at the
  first error.
\<close>

fun run :: "'o DQN \<Rightarrow> ('o Experience \<times> (nat \<Rightarrow> nat \<Rightarrow> nat)) list \<Rightarrow> error + 'o DQN" where
  "run self [] = Inr self"
| "run self (x # xs) = bind (update self (fst x) (snd x)) (\<lambda>self'. run self' xs)"

section \<open>Notions used in the statements about the replay buffer\<close>

text \<open>
  The content of slot \<open>j\<close> of the five storage lists, and the content a slot has after
  row \<open>i\<close> of an experience was stored in it.
\<close>

definition slot :: "'o ReplayBuffer \<Rightarrow> nat \<Rightarrow> 'o option \<times> int option \<times> 'o option \<times> real option \<times> real option" where
  "slot b j = (obs b ! j, action b ! j, next_obs b ! j, reward b ! j, terminated b ! j)"

definition row :: "'o Experience \<Rightarrow> nat \<Rightarrow> 'o option \<times> int option \<times> 'o option \<times> real option \<times> real option" where
  "row e i = (Some (Experience.obs e ! i), Some (Experience.action e ! i),
              Some (Experience.next_obs e ! i), Some (Experience.reward e ! i),
              Some (Experience.terminated e ! i))"

text \<open>An experience whose five arrays have at least \<open>n\<close> rows.\<close>

definition has_rows :: "'o Experience \<Rightarrow> nat \<Rightarrow> bool" where
  "has_rows e n \<longleftrightarrow>
     n \<le> length (Experience.obs e) \<and> n \<le> length (Experience.action e) \<and>
     n \<le> length (Experience.next_obs e) \<and> n \<le> length (Experience.reward e) \<and>
     n \<le> length (Experience.terminated e)"

text \<open>The five storage lists have \<open>capacity\<close> slots, as \<open>reset\<close> leaves them.\<close>

definition storage_sized :: "'o ReplayBuffer \<Rightarrow> bool" where
  "storage_sized b \<longleftrightarrow>
     length (obs b) = nat (ReplayBuffer.capacity b) \<and>
     length (action b) = nat (ReplayBuffer.capacity b) \<and>
     length (next_obs b) = nat (ReplayBuffer.capacity b) \<and>
     length (reward b) = nat (ReplayBuffer.capacity b) \<and>
     length (terminated b) = nat (ReplayBuffer.capacity b)"

text \<open>Slot \<open>j\<close> exists and is filled in each of the five storage lists.\<close>

definition filled :: "'o ReplayBuffer \<Rightarrow> nat \<Rightarrow> bool" where
  "filled b j \<longleftrightarrow>
     j < length (obs b) \<and> obs b ! j \<noteq> None \<and>
     j < length (action b) \<and> action b ! j \<noteq> None \<and>
     j < length (next_obs b) \<and> next_obs b ! j \<noteq> None \<and>
     j < length (reward b) \<and> reward b ! j \<noteq> None \<and>
     j < length (terminated b) \<and> terminated b ! j \<noteq> None"

text \<open>
  The invariant of the buffer: \<open>0 \<le> count \<le> capacity\<close> and the slots \<open>0..count-1\<close> are
  filled.
\<close>

definition buffer_inv :: "'o ReplayBuffer \<Rightarrow> bool" where
  "buffer_inv b \<longleftrightarrow>
     0 \<le> count b \<and> count b \<le> ReplayBuffer.capacity b \<and>
     list_all (filled b) [0..<nat (count b)]"

text \<open>
  The states the operations of the buffer move between: the invariant together with the
  bookkeeping that makes it inductive. The storage has \<open>capacity\<close> slots, and while the
  buffer is not full the most recent index is the last filled slot.
\<close>

definition buffer_wf :: "'o ReplayBuffer \<Rightarrow> bool" where
  "buffer_wf b \<longleftrightarrow>
     storage_sized b \<and> buffer_inv b \<and>
     - 1 \<le> recent_idx b \<and> recent_idx b < max 1 (ReplayBuffer.capacity b) \<and>
     (if count b < ReplayBuffer.capacity b then recent_idx b = count b - 1 else True)"

text \<open>A batch without a \<open>None\<close> entry, and the entries of a batch in their order.\<close>

fun entries :: "'a batch \<Rightarrow> 'a list" where
  "entries (Item x) = [x]"
| "entries (Stack xs) = xs"

definition no_None :: "'a option batch \<Rightarrow> bool" where
  "no_None b \<longleftrightarrow> list_all (\<lambda>x. x \<noteq> None) (entries b)"

text \<open>Adding a list of experiences one after the other.\<close>

fun add_all :: "'o ReplayBuffer \<Rightarrow> 'o Experience list \<Rightarrow> error + 'o ReplayBuffer" where
  "add_all b [] = Inr b"
| "add_all b (e # es) = bind (add b e) (\<lambda>b'. add_all b' es)"

text \<open>
  The buffer after the loop body of \<open>add\<close> stored row \<open>i\<close> of an experience without an
  error: the write index advances cyclically, the count saturates at the capacity, and
  the row is written to the five storage lists at the write index.
\<close>

definition put_row :: "'o ReplayBuffer \<Rightarrow> 'o Experience \<Rightarrow> nat \<Rightarrow> 'o ReplayBuffer" where
  "put_row b e i =
     (let idx = (recent_idx b + 1) mod ReplayBuffer.capacity b
      in b\<lparr>recent_idx := idx,
           count := min (count b + 1) (ReplayBuffer.capacity b),
           obs := (obs b)[nat idx := Some (Experience.obs e ! i)],
           action := (action b)[nat idx := Some (Experience.action e ! i)],
           next_obs := (next_obs b)[nat idx := Some (Experience.next_obs e ! i)],
           reward := (reward b)[nat idx := Some (Experience.reward e ! i)],
           terminated := (terminated b)[nat idx := Some (Experience.terminated e ! i)]\<rparr>)"

text \<open>
  A one-environment experience over natural-number observations, for the concrete runs
  below: observation \<open>n\<close>, action 0, next observation \<open>n + 1\<close>, reward 1, not terminated.
\<close>

definition example_experience :: "nat \<Rightarrow> nat Experience" where
  "example_experience n =
     \<lparr>Experience.obs = [n], Experience.action = [0], Experience.next_obs = [n + 1],
      Experience.reward = [1], Experience.terminated = [0]\<rparr>"

text \<open>
  Configurations for the concrete runs below: training every 2 steps on a buffer of 2
  slots, with the batch size and the number of epochs as parameters; and one update step,
  an experience together with the generator whose \<open>j\<close>-th raw draw is \<open>j\<close>.
\<close>

definition example_config :: "int \<Rightarrow> int \<Rightarrow> DQNConfig" where
  "example_config batch_size' epoch' =
     \<lparr>DQNConfig.training_freq = 2, batch_size = batch_size', DQNConfig.capacity = 2,
      epoch = epoch', epsilon_linear_decay = (0, 10, 1, 0), gamma = 99 / 100\<rparr>"

definition example_step :: "nat Experience \<times> (nat \<Rightarrow> nat \<Rightarrow> nat)" where
  "example_step = (example_experience 0, \<lambda>k j. j)"

section \<open>Float values and the single-precision rounding\<close>

lemma pow2_pos: "0 < pow2 e"
  by (simp add: pow2_def)

lemma pow2_powr: "pow2 e = 2 powr (of_int e)"
  by (simp add: pow2_def powr_int)

lemma pow2_add: "pow2 (a + b) = pow2 a * pow2 b"
  by (simp add: pow2_powr powr_add)

lemma pow2_nat: "0 \<le> e \<Longrightarrow> pow2 e = of_int (2 ^ nat e)"
  by (simp add: pow2_def)

lemma floor_log2:
  assumes "pow2 e \<le> x" "x < pow2 (e + 1)"
  shows "\<lfloor>log 2 x\<rfloor> = e"
proof -
  have x: "0 < x" using assms(1) pow2_pos[of e] by linarith
  have "of_int e \<le> log 2 x"
    using assms(1) x by (simp add: le_log_iff pow2_powr)
  moreover have "log 2 x < of_int e + 1"
    using assms(2) x by (simp add: log_less_iff pow2_powr)
  ultimately show ?thesis by (simp add: floor_eq_iff)
qed

lemma rne_of_int: "rne (of_int k) = k"
  by (simp add: rne_def)

lemma float32_normal:
  assumes "pow2 e \<le> \<bar>x\<bar>" "\<bar>x\<bar> < pow2 (e + 1)" "- 126 \<le> e"
  shows "float32 x =
    (let y = of_int (rne (x / pow2 (e - 23))) * pow2 (e - 23)
     in if 2 ^ 128 \<le> \<bar>y\<bar> then (if 0 < x then PosInf else NegInf) else Fin y)"
proof -
  have "x \<noteq> 0" using assms(1) pow2_pos[of e] by auto
  moreover have "\<lfloor>log 2 \<bar>x\<bar>\<rfloor> = e" using assms(1,2) by (rule floor_log2)
  ultimately show ?thesis using assms(3) by (simp add: float32_def Let_def max_def)
qed

lemma pow2_mono: "a \<le> b \<Longrightarrow> pow2 a \<le> pow2 b"
  by (simp add: pow2_powr)

lemma pow2_less: "pow2 a < pow2 b \<longleftrightarrow> a < b"
  by (simp add: pow2_powr)

lemma pow2_diff: "pow2 a / pow2 b = pow2 (a - b)"
  by (simp add: pow2_powr powr_diff)

lemma pow2_numeral: "pow2 128 = 2 ^ 128" "pow2 24 = 2 ^ 24" "pow2 23 = 2 ^ 23"
  by (simp_all add: pow2_def)

lemma log2_bounds:
  assumes "0 < x"
  shows "pow2 \<lfloor>log 2 x\<rfloor> \<le> x" and "x < pow2 (\<lfloor>log 2 x\<rfloor> + 1)"
proof -
  have "of_int \<lfloor>log 2 x\<rfloor> \<le> log 2 x" by simp
  then show "pow2 \<lfloor>log 2 x\<rfloor> \<le> x"
    using assms by (simp add: pow2_powr le_log_iff del: of_int_floor_le)
  show "x < pow2 (\<lfloor>log 2 x\<rfloor> + 1)"
    using assms log_less_iff[of 2 x "real_of_int \<lfloor>log 2 x\<rfloor> + 1"]
    by (simp add: pow2_powr)
qed

lemma rne_bounds: "\<lfloor>z\<rfloor> \<le> rne z" "rne z \<le> \<lceil>z\<rceil>"
proof -
  show "\<lfloor>z\<rfloor> \<le> rne z" by (simp add: rne_def Let_def)
  have c: "rne z = \<lfloor>z\<rfloor> \<or> (rne z = \<lfloor>z\<rfloor> + 1 \<and> z \<noteq> of_int \<lfloor>z\<rfloor>)"
    by (auto simp add: rne_def Let_def)
  have "z \<noteq> of_int \<lfloor>z\<rfloor> \<Longrightarrow> \<lfloor>z\<rfloor> + 1 = \<lceil>z\<rceil>"
    by (simp add: ceiling_altdef)
  with c show "rne z \<le> \<lceil>z\<rceil>"
    using floor_le_ceiling[of z] by auto
qed

lemma rne_abs_le:
  assumes "\<bar>z\<bar> < of_int N"
  shows "\<bar>rne z\<bar> \<le> N"
proof -
  have "- of_int N < z" "z < of_int N" using assms by linarith+
  then have "- N \<le> \<lfloor>z\<rfloor>" "\<lceil>z\<rceil> \<le> N"
    by (simp_all add: le_floor_iff ceiling_le_iff)
  with rne_bounds[of z] show ?thesis by linarith
qed

lemma rne_abs_ge:
  assumes "of_int N \<le> \<bar>z\<bar>" "0 \<le> N"
  shows "N \<le> \<bar>rne z\<bar>"
proof (cases "0 \<le> z")
  case True
  then have "N \<le> \<lfloor>z\<rfloor>" using assms by (simp add: le_floor_iff)
  with rne_bounds(1)[of z] show ?thesis by linarith
next
  case False
  then have "z \<le> - of_int N" using assms by linarith
  then have "\<lceil>z\<rceil> \<le> - N" by (simp add: ceiling_le_iff)
  with rne_bounds(2)[of z] assms(2) show ?thesis by linarith
qed

text \<open>
  The single-precision rounding keeps the floats of the format, the values \<open>m * 2^e\<close>
  with \<open>|m| < 2^24\<close> and \<open>-149 \<le> e \<le> 104\<close>, and every finite value it returns is
  one of them: it is a rounding in the sense of \<open>rounding\<close>, as is the exact one.
\<close>

lemma float32_fixed:
  assumes y: "y = of_int m * pow2 e" and m: "\<bar>m\<bar> < 2 ^ 24" and e: "- 149 \<le> e" "e \<le> 104"
  shows "float32 y = Fin y"
proof (cases "y = 0")
  case True
  then show ?thesis by (simp add: float32_def)
next
  case False
  define L where "L = \<lfloor>log 2 \<bar>y\<bar>\<rfloor>"
  define E where "E = max L (- 126)"
  have ypos: "0 < \<bar>y\<bar>" using False by simp
  have "\<bar>y\<bar> = of_int \<bar>m\<bar> * pow2 e"
    using pow2_pos[of e] by (simp add: y abs_mult)
  also have "\<dots> < 2 ^ 24 * pow2 e"
  proof -
    have "real_of_int \<bar>m\<bar> < real_of_int (2 ^ 24)" using m by (simp only: of_int_less_iff)
    then show ?thesis using pow2_pos[of e] by simp
  qed
  also have "\<dots> = pow2 (24 + e)" by (simp add: pow2_add pow2_numeral)
  finally have ub: "\<bar>y\<bar> < pow2 (24 + e)" .
  have "pow2 L \<le> \<bar>y\<bar>" unfolding L_def using ypos by (rule log2_bounds)
  with ub have "pow2 L < pow2 (24 + e)" by linarith
  then have "L < 24 + e" by (simp add: pow2_less)
  then have Ee: "E - 23 \<le> e" using e(1) by (simp add: E_def)
  define d where "d = e - (E - 23)"
  have d0: "0 \<le> d" using Ee by (simp add: d_def)
  have "pow2 e = pow2 d * pow2 (E - 23)"
    by (simp add: d_def pow2_add[symmetric])
  then have q: "y / pow2 (E - 23) = of_int (m * 2 ^ nat d)"
    using pow2_pos[of "E - 23"] d0 by (simp add: y pow2_nat)
  have r: "of_int (rne (y / pow2 (E - 23))) * pow2 (E - 23) = y"
  proof -
    have "of_int (rne (y / pow2 (E - 23))) = y / pow2 (E - 23)"
      unfolding q rne_of_int ..
    then show ?thesis using pow2_pos[of "E - 23"] by simp
  qed
  have "pow2 (24 + e) \<le> pow2 128" using e(2) by (intro pow2_mono) simp
  with ub have lt: "\<bar>y\<bar> < 2 ^ 128" by (simp add: pow2_numeral)
  show ?thesis
    using False r lt by (simp add: float32_def Let_def L_def[symmetric] E_def[symmetric])
qed

lemma float32_range:
  assumes "float32 x = Fin y"
  shows "\<exists>m e. y = of_int m * pow2 e \<and> \<bar>m\<bar> < 2 ^ 24 \<and> - 149 \<le> e \<and> e \<le> 104"
proof (cases "x = 0")
  case True
  with assms have "y = 0" by (simp add: float32_def)
  then have "y = of_int 0 * pow2 0 \<and> \<bar>0::int\<bar> < 2 ^ 24 \<and> - 149 \<le> (0::int) \<and> (0::int) \<le> 104"
    by simp
  then show ?thesis by blast
next
  case False
  define L where "L = \<lfloor>log 2 \<bar>x\<bar>\<rfloor>"
  define E where "E = max L (- 126)"
  define u where "u = pow2 (E - 23)"
  define k where "k = rne (x / u)"
  have upos: "0 < u" by (simp add: u_def pow2_pos)
  have xpos: "0 < \<bar>x\<bar>" using False by simp
  have f: "float32 x = (if 2 ^ 128 \<le> \<bar>of_int k * u\<bar> then (if 0 < x then PosInf else NegInf)
                        else Fin (of_int k * u))"
    using False by (simp add: float32_def Let_def L_def E_def u_def k_def)
  from assms f have lt: "\<bar>of_int k * u\<bar> < 2 ^ 128" and yk: "y = of_int k * u"
    by (auto split: if_splits)
  have lb: "pow2 L \<le> \<bar>x\<bar>" and ub: "\<bar>x\<bar> < pow2 (L + 1)"
    unfolding L_def using xpos by (rule log2_bounds)+
  have "pow2 (L + 1) \<le> pow2 (E + 1)" by (intro pow2_mono) (simp add: E_def)
  with ub have "\<bar>x\<bar> < pow2 (E + 1)" by linarith
  then have "\<bar>x\<bar> / u < pow2 (E + 1) / u" using upos by (simp add: divide_strict_right_mono)
  also have "pow2 (E + 1) / u = 2 ^ 24" by (simp add: u_def pow2_diff pow2_numeral)
  finally have "\<bar>x / u\<bar> < real_of_int (2 ^ 24)" using upos by simp
  then have kle: "\<bar>k\<bar> \<le> 2 ^ 24" unfolding k_def by (rule rne_abs_le)
  have absy: "\<bar>of_int k * u\<bar> = of_int \<bar>k\<bar> * u" using upos by (simp add: abs_mult)
  show ?thesis
  proof (cases "\<bar>k\<bar> = 2 ^ 24")
    case True
    have "\<bar>of_int k * u\<bar> = 2 ^ 24 * pow2 (E - 23)"
      unfolding absy True by (simp add: u_def)
    also have "\<dots> = pow2 (E + 1)"
      using pow2_add[of 24 "E - 23"] by (simp add: pow2_numeral add.commute)
    finally have "pow2 (E + 1) < pow2 128" using lt by (simp add: pow2_numeral)
    then have E126: "E + 1 < 128" by (simp add: pow2_less)
    define m where "m = (if 0 \<le> k then (2::int) ^ 23 else - (2 ^ 23))"
    have km: "k = m * 2" using True by (auto simp add: m_def abs_if split: if_splits)
    have "pow2 (E - 22) = 2 * pow2 (E - 23)"
      using pow2_add[of 1 "E - 23"] by (simp add: pow2_def)
    then have "y = of_int m * pow2 (E - 22)" by (simp add: yk km u_def)
    moreover have "\<bar>m\<bar> < 2 ^ 24" by (simp add: m_def)
    moreover have "- 149 \<le> E - 22" by (simp add: E_def)
    moreover have "E - 22 \<le> 104" using E126 by simp
    ultimately show ?thesis by blast
  next
    case False
    with kle have klt: "\<bar>k\<bar> < 2 ^ 24" by simp
    have E127: "E \<le> 127"
    proof (rule ccontr)
      assume "\<not> E \<le> 127"
      then have E128: "128 \<le> E" by simp
      then have EL: "E = L" by (simp add: E_def max_def split: if_splits)
      have "pow2 L / u = 2 ^ 23" by (simp add: u_def EL pow2_diff pow2_numeral)
      moreover have "pow2 L / u \<le> \<bar>x\<bar> / u" using lb upos by (simp add: divide_right_mono)
      ultimately have "real_of_int (2 ^ 23) \<le> \<bar>x / u\<bar>" using upos by simp
      then have "2 ^ 23 \<le> \<bar>k\<bar>" unfolding k_def by (rule rne_abs_ge) simp
      then have "real_of_int (2 ^ 23) \<le> real_of_int \<bar>k\<bar>" by (simp only: of_int_le_iff)
      then have "2 ^ 23 * u \<le> of_int \<bar>k\<bar> * u" using upos by simp
      moreover have "2 ^ 23 * u = pow2 E"
        using pow2_add[of 23 "E - 23"] by (simp add: u_def pow2_numeral)
      moreover have "pow2 128 \<le> pow2 E" using E128 by (rule pow2_mono)
      ultimately have "2 ^ 128 \<le> \<bar>of_int k * u\<bar>" by (simp add: absy pow2_numeral)
      with lt show False by simp
    qed
    have "y = of_int k * pow2 (E - 23)" by (simp add: yk u_def)
    moreover have "- 149 \<le> E - 23" by (simp add: E_def)
    moreover have "E - 23 \<le> 104" using E127 by simp
    ultimately show ?thesis using klt by blast
  qed
qed

lemma rounding_float32: "rounding float32"
proof -
  have "float32 0 = Fin 0" by (simp add: float32_def)
  moreover have "\<forall>x y. float32 x = Fin y \<longrightarrow> float32 y = Fin y"
  proof (intro allI impI)
    fix x y assume "float32 x = Fin y"
    then obtain m e where "y = of_int m * pow2 e" "\<bar>m\<bar> < 2 ^ 24" "- 149 \<le> e" "e \<le> 104"
      using float32_range by blast
    then show "float32 y = Fin y" by (rule float32_fixed)
  qed
  ultimately show ?thesis by (simp add: rounding_def)
qed

lemma rounding_exact: "rounding exact"
  by (simp add: rounding_def exact_def)

lemma float32_0: "float32 0 = Fin 0"
  by (simp add: float32_def)

lemma float32_1: "float32 1 = Fin 1"
  by (rule float32_fixed[of 1 1 0]) (simp_all add: pow2_def)

lemma float32_2p127: "float32 (2 ^ 127) = Fin (2 ^ 127)"
  by (rule float32_fixed[of _ "2 ^ 23" 104]) (simp_all add: pow2_def)

lemma float32_2p128: "float32 (2 ^ 128) = PosInf"
  by (subst float32_normal[of 128]) (simp_all add: pow2_def rne_def Let_def)

lemma float32_m1: "float32 (- 1) = Fin (- 1)"
  by (rule float32_fixed[of _ "- 1" 0]) (simp_all add: pow2_def)

lemma float32_2: "float32 2 = Fin 2"
  by (rule float32_fixed[of _ 2 0]) (simp_all add: pow2_def)

lemma float32_4: "float32 4 = Fin 4"
  by (rule float32_fixed[of _ 4 0]) (simp_all add: pow2_def)

lemma float32_half: "float32 (1 / 2) = Fin (1 / 2)"
  by (rule float32_fixed[of _ 1 "- 1"]) (simp_all add: pow2_def)

lemma float32_2p24: "float32 16777216 = Fin 16777216"
  by (rule float32_fixed[of _ 8388608 1]) (simp_all add: pow2_def)

lemma float32_2p24_2: "float32 16777218 = Fin 16777218"
  by (rule float32_fixed[of _ 8388609 1]) (simp_all add: pow2_def)

lemma float32_2p25_2: "float32 33554434 = Fin 33554432"
  by (subst float32_normal[of 25]) (simp_all add: pow2_def rne_def Let_def)

lemma float32_m2: "float32 (- 2) = Fin (- 2)"
  by (rule float32_fixed[of _ "- 2" 0]) (simp_all add: pow2_def)

lemma float32_3: "float32 3 = Fin 3"
  by (rule float32_fixed[of _ 3 0]) (simp_all add: pow2_def)

lemma float32_5: "float32 5 = Fin 5"
  by (rule float32_fixed[of _ 5 0]) (simp_all add: pow2_def)

lemma float32_quarter: "float32 (1 / 4) = Fin (1 / 4)"
  by (rule float32_fixed[of _ 1 "- 2"]) (simp_all add: pow2_def)

lemma float32_m_quarter: "float32 (- (1 / 4)) = Fin (- (1 / 4))"
  by (rule float32_fixed[of _ "- 1" "- 2"]) (simp_all add: pow2_def)

lemma float32_3_4: "float32 (3 / 4) = Fin (3 / 4)"
  by (rule float32_fixed[of _ 3 "- 2"]) (simp_all add: pow2_def)

lemma float32_1_8: "float32 (1 / 8) = Fin (1 / 8)"
  by (rule float32_fixed[of _ 1 "- 3"]) (simp_all add: pow2_def)

lemma float32_9_8: "float32 (9 / 8) = Fin (9 / 8)"
  by (rule float32_fixed[of _ 9 "- 3"]) (simp_all add: pow2_def)

lemma float32_3_2: "float32 (3 / 2) = Fin (3 / 2)"
  by (rule float32_fixed[of _ 3 "- 1"]) (simp_all add: pow2_def)

lemma float32_5_2: "float32 (5 / 2) = Fin (5 / 2)"
  by (rule float32_fixed[of _ 5 "- 1"]) (simp_all add: pow2_def)

lemma float32_9_2: "float32 (9 / 2) = Fin (9 / 2)"
  by (rule float32_fixed[of _ 9 "- 1"]) (simp_all add: pow2_def)

lemma float32_21_2: "float32 (21 / 2) = Fin (21 / 2)"
  by (rule float32_fixed[of _ 21 "- 1"]) (simp_all add: pow2_def)

lemma float32_7_4: "float32 (7 / 4) = Fin (7 / 4)"
  by (rule float32_fixed[of _ 7 "- 2"]) (simp_all add: pow2_def)

lemmas float32_eval = float32_0 float32_1 float32_m1 float32_2 float32_m2 float32_3 float32_4
  float32_5 float32_half float32_quarter float32_m_quarter float32_3_4 float32_1_8 float32_9_8
  float32_3_2 float32_5_2 float32_9_2 float32_21_2 float32_7_4
  float32_2p24 float32_2p24_2 float32_2p25_2

lemma fmul_zero: "rnd 0 = Fin 0 \<Longrightarrow> is_finite b \<Longrightarrow> fmul rnd (Fin 0) b = Fin 0"
  by (cases b) simp_all

lemma fadd_zero: "representable rnd a \<Longrightarrow> fadd rnd a (Fin 0) = a"
  by (cases a) simp_all

lemma representable_fadd: "rounding rnd \<Longrightarrow> representable rnd (fadd rnd a b)"
proof -
  assume r: "rounding rnd"
  have "\<And>x. representable rnd (rnd x)"
  proof -
    fix x show "representable rnd (rnd x)"
      using r by (cases "rnd x") (simp_all add: rounding_def)
  qed
  then show ?thesis by (cases a; cases b) simp_all
qed

lemma representable_fsub: "rounding rnd \<Longrightarrow> representable rnd (fsub rnd a b)"
  unfolding fsub_def by (rule representable_fadd)

section \<open>Properties of the advantage and return computations\<close>

lemma gae_loop_unfold:
  "k \<le> length delta \<Longrightarrow> k \<le> length nt \<Longrightarrow> k \<le> length gae \<Longrightarrow>
   \<exists>g. gae_loop rnd delta nt df k dg (FloatVec gae) = Inr (FloatVec g) \<and> length g = length gae \<and>
       (\<forall>i. k \<le> i \<longrightarrow> i < length gae \<longrightarrow> g ! i = gae ! i) \<and>
       (0 < k \<longrightarrow> g ! (k - 1) =
          fadd rnd (delta ! (k - 1)) (fmul rnd (fmul rnd (nt ! (k - 1)) df) dg)) \<and>
       (\<forall>t. t + 1 < k \<longrightarrow> g ! t =
          fadd rnd (delta ! t) (fmul rnd (fmul rnd (nt ! t) df) (g ! (t + 1))))"
proof (induction k arbitrary: dg gae)
  case 0
  then show ?case by simp
next
  case (Suc k)
  define dg' where "dg' = fadd rnd (delta ! k) (fmul rnd (fmul rnd (nt ! k) df) dg)"
  define gae' where "gae' = gae[k := dg']"
  have len: "length gae' = length gae" by (simp add: gae'_def)
  from Suc.prems have kk: "k \<le> length delta" "k \<le> length nt" "k \<le> length gae'"
    by (simp_all add: len)
  from Suc.IH[OF kk, of dg'] obtain g where
    G: "gae_loop rnd delta nt df k dg' (FloatVec gae') = Inr (FloatVec g) \<and>
       length g = length gae' \<and>
       (\<forall>i. k \<le> i \<longrightarrow> i < length gae' \<longrightarrow> g ! i = gae' ! i) \<and>
       (0 < k \<longrightarrow> g ! (k - 1) =
          fadd rnd (delta ! (k - 1)) (fmul rnd (fmul rnd (nt ! (k - 1)) df) dg')) \<and>
       (\<forall>t. t + 1 < k \<longrightarrow> g ! t =
          fadd rnd (delta ! t) (fmul rnd (fmul rnd (nt ! t) df) (g ! (t + 1))))" ..
  note g = conjunct1[OF G] conjunct1[OF conjunct2[OF G]]
    conjunct1[OF conjunct2[OF conjunct2[OF G]]]
    conjunct1[OF conjunct2[OF conjunct2[OF conjunct2[OF G]]]]
    conjunct2[OF conjunct2[OF conjunct2[OF conjunct2[OF G]]]]
  have step: "gae_loop rnd delta nt df (Suc k) dg (FloatVec gae) = Inr (FloatVec g)"
    using Suc.prems g(1) by (simp add: dg'_def gae'_def Let_def)
  have gk: "g ! k = dg'"
    using g(3) Suc.prems(3) by (simp add: gae'_def len)
  have keep: "\<forall>i. Suc k \<le> i \<longrightarrow> i < length gae \<longrightarrow> g ! i = gae ! i"
    using g(3) by (simp add: gae'_def)
  have rec: "\<forall>t. t + 1 < Suc k \<longrightarrow> g ! t =
          fadd rnd (delta ! t) (fmul rnd (fmul rnd (nt ! t) df) (g ! (t + 1)))"
  proof (intro allI impI)
    fix t assume t: "t + 1 < Suc k"
    show "g ! t = fadd rnd (delta ! t) (fmul rnd (fmul rnd (nt ! t) df) (g ! (t + 1)))"
    proof (cases "t + 1 < k")
      case True
      then show ?thesis using g(5) by blast
    next
      case False
      with t have tk: "t + 1 = k" by simp
      then have "0 < k" by simp
      from g(4) \<open>0 < k\<close> have "g ! (k - 1) =
          fadd rnd (delta ! (k - 1)) (fmul rnd (fmul rnd (nt ! (k - 1)) df) dg')" by blast
      moreover have "k - 1 = t" using tk by simp
      ultimately show ?thesis using gk tk by simp
    qed
  qed
  have last: "g ! (Suc k - 1) =
          fadd rnd (delta ! (Suc k - 1)) (fmul rnd (fmul rnd (nt ! (Suc k - 1)) df) dg)"
    using gk by (simp add: dg'_def)
  have lg: "length g = length gae" using g(2) len by simp
  show ?case
    apply (rule exI[of _ g])
    apply (intro conjI)
        apply (rule step)
       apply (rule lg)
      apply (rule keep)
     apply (rule impI, rule last)
    apply (rule rec)
    done
qed

lemma compute_gae_unfold:
  assumes "length sv = n + 1" "length r = n" "length d = n"
  shows "\<exists>g. compute_gae rnd sv (FloatVec r) d \<gamma> lam = Inr (FloatVec g) \<and> length g = n \<and>
       (0 < n \<longrightarrow> g ! (n - 1) = gae_step rnd sv r d \<gamma> lam (n - 1) (Fin 0)) \<and>
       (\<forall>t. t + 1 < n \<longrightarrow> g ! t = gae_step rnd sv r d \<gamma> lam t (g ! (t + 1)))"
proof -
  define nt where "nt = map (\<lambda>x. fsub rnd (Fin 1) x) d"
  define delta where
    "delta = map2 (fsub rnd) (map2 (fadd rnd) r
               (map2 (fmul rnd) (map (\<lambda>x. fmul rnd x (rnd \<gamma>)) nt) (drop 1 sv))) (butlast sv)"
  define df where "df = rnd (\<gamma> * lam)"
  have ld: "length delta = n" and lnt: "length nt = n"
    using assms by (simp_all add: delta_def nt_def)
  have cg: "compute_gae rnd sv (FloatVec r) d \<gamma> lam =
              gae_loop rnd delta nt df n (Fin 0) (FloatVec (replicate n (Fin 0)))"
    using assms by (simp add: compute_gae_def broadcast2_def delta_def nt_def df_def Let_def)
  have st: "\<And>t x. t < n \<Longrightarrow>
              fadd rnd (delta ! t) (fmul rnd (fmul rnd (nt ! t) df) x) =
              gae_step rnd sv r d \<gamma> lam t x"
    using assms by (simp add: delta_def nt_def df_def gae_step_def nth_butlast)
  have "n \<le> length delta" "n \<le> length nt" "n \<le> length (replicate n (Fin 0))"
    using ld lnt by simp_all
  from gae_loop_unfold[OF this, of rnd df "Fin 0"] obtain g where
    G: "gae_loop rnd delta nt df n (Fin 0) (FloatVec (replicate n (Fin 0))) = Inr (FloatVec g) \<and>
        length g = length (replicate n (Fin 0)) \<and>
        (\<forall>i. n \<le> i \<longrightarrow> i < length (replicate n (Fin 0)) \<longrightarrow> g ! i = replicate n (Fin 0) ! i) \<and>
        (0 < n \<longrightarrow> g ! (n - 1) =
           fadd rnd (delta ! (n - 1)) (fmul rnd (fmul rnd (nt ! (n - 1)) df) (Fin 0))) \<and>
        (\<forall>t. t + 1 < n \<longrightarrow> g ! t =
           fadd rnd (delta ! t) (fmul rnd (fmul rnd (nt ! t) df) (g ! (t + 1))))" ..
  have g1: "compute_gae rnd sv (FloatVec r) d \<gamma> lam = Inr (FloatVec g)"
    using conjunct1[OF G] cg by simp
  have g2: "length g = n" using conjunct1[OF conjunct2[OF G]] by simp
  have g3: "0 < n \<longrightarrow> g ! (n - 1) = gae_step rnd sv r d \<gamma> lam (n - 1) (Fin 0)"
    using conjunct1[OF conjunct2[OF conjunct2[OF conjunct2[OF G]]]] st[of "n - 1" "Fin 0"]
    by simp
  have g4: "\<forall>t. t + 1 < n \<longrightarrow> g ! t = gae_step rnd sv r d \<gamma> lam t (g ! (t + 1))"
  proof (intro allI impI)
    fix t assume t: "t + 1 < n"
    then have "g ! t = fadd rnd (delta ! t) (fmul rnd (fmul rnd (nt ! t) df) (g ! (t + 1)))"
      using conjunct2[OF conjunct2[OF conjunct2[OF conjunct2[OF G]]]] by blast
    then show "g ! t = gae_step rnd sv r d \<gamma> lam t (g ! (t + 1))"
      using st[of t "g ! (t + 1)"] t by simp
  qed
  show ?thesis
    apply (rule exI[of _ g])
    apply (intro conjI)
       apply (rule g1)
      apply (rule g2)
     apply (rule g3)
    apply (rule g4)
    done
qed

lemma backward_finite:
  fixes g :: "float list" and F :: "nat \<Rightarrow> real \<Rightarrow> real"
  assumes len: "length g = n"
    and base: "0 < n \<Longrightarrow> g ! (n - 1) = Fin (F (n - 1) 0)"
    and step: "\<And>t x. t + 1 < n \<Longrightarrow> g ! (t + 1) = Fin x \<Longrightarrow> g ! t = Fin (F t x)"
  shows "\<exists>G. g = map Fin G \<and> length G = n \<and> (0 < n \<longrightarrow> G ! (n - 1) = F (n - 1) 0) \<and>
             (\<forall>t. t + 1 < n \<longrightarrow> G ! t = F t (G ! (t + 1)))"
proof -
  have fin: "\<And>t. t < n \<Longrightarrow> \<exists>x. g ! t = Fin x"
  proof -
    fix t show "t < n \<Longrightarrow> \<exists>x. g ! t = Fin x"
    proof (induction "n - 1 - t" arbitrary: t)
      case 0
      then have "t = n - 1" "0 < n" by simp_all
      with base show ?case by blast
    next
      case (Suc k)
      then have t1: "t + 1 < n" and k: "k = n - 1 - (t + 1)" by simp_all
      from Suc.hyps(1)[OF k] t1 obtain x where "g ! (t + 1) = Fin x" by auto
      with step[OF t1] show ?case by blast
    qed
  qed
  define val where "val = (\<lambda>a. case a of Fin x \<Rightarrow> x | _ \<Rightarrow> 0)"
  define G where "G = map val g"
  have gv: "\<And>t. t < n \<Longrightarrow> g ! t = Fin (G ! t)"
  proof -
    fix t assume t: "t < n"
    then obtain x where "g ! t = Fin x" using fin by blast
    then show "g ! t = Fin (G ! t)" using t len by (simp add: G_def val_def)
  qed
  have a: "g = map Fin G"
    using len gv by (intro nth_equalityI) (simp_all add: G_def)
  have b: "length G = n" using len by (simp add: G_def)
  have c: "0 < n \<longrightarrow> G ! (n - 1) = F (n - 1) 0"
  proof
    assume n: "0 < n"
    then have "Fin (G ! (n - 1)) = Fin (F (n - 1) 0)" using gv[of "n - 1"] base by simp
    then show "G ! (n - 1) = F (n - 1) 0" by simp
  qed
  have d: "\<forall>t. t + 1 < n \<longrightarrow> G ! t = F t (G ! (t + 1))"
  proof (intro allI impI)
    fix t assume t: "t + 1 < n"
    have "g ! (t + 1) = Fin (G ! (t + 1))" using gv t by simp
    from step[OF t this] have "Fin (G ! t) = Fin (F t (G ! (t + 1)))"
      using gv[of t] t by simp
    then show "G ! t = F t (G ! (t + 1))" by simp
  qed
  show ?thesis
    apply (rule exI[of _ G])
    apply (intro conjI)
       apply (rule a)
      apply (rule b)
     apply (rule c)
    apply (rule d)
    done
qed

lemma gae_step_exact:
  assumes "t < length r" "t < length d" "t + 1 < length sv"
  shows "gae_step exact (map Fin sv) (map Fin r) (map Fin d) \<gamma> lam t (Fin x) =
           Fin (td_delta sv r d \<gamma> t + (1 - d ! t) * (\<gamma> * lam) * x)"
  using assms by (simp add: gae_step_def td_delta_def fsub_def exact_def)

lemma compute_gae_exact:
  assumes "length sv = n + 1" "length r = n" "length d = n"
  shows "\<exists>g. compute_gae exact (map Fin sv) (FloatVec (map Fin r)) (map Fin d) \<gamma> lam =
                Inr (FloatVec (map Fin g)) \<and> length g = n \<and>
       (0 < n \<longrightarrow> g ! (n - 1) = td_delta sv r d \<gamma> (n - 1)) \<and>
       (\<forall>t. t + 1 < n \<longrightarrow>
          g ! t = td_delta sv r d \<gamma> t + (1 - d ! t) * (\<gamma> * lam) * g ! (t + 1))"
proof -
  have l: "length (map Fin sv) = n + 1" "length (map Fin r) = n" "length (map Fin d) = n"
    using assms by simp_all
  from compute_gae_unfold[OF l, of exact \<gamma> lam] obtain fg where
    FG: "compute_gae exact (map Fin sv) (FloatVec (map Fin r)) (map Fin d) \<gamma> lam =
           Inr (FloatVec fg) \<and> length fg = n \<and>
       (0 < n \<longrightarrow> fg ! (n - 1) =
          gae_step exact (map Fin sv) (map Fin r) (map Fin d) \<gamma> lam (n - 1) (Fin 0)) \<and>
       (\<forall>t. t + 1 < n \<longrightarrow> fg ! t =
          gae_step exact (map Fin sv) (map Fin r) (map Fin d) \<gamma> lam t (fg ! (t + 1)))" ..
  note f1 = conjunct1[OF FG] and f2 = conjunct1[OF conjunct2[OF FG]]
    and f3 = conjunct1[OF conjunct2[OF conjunct2[OF FG]]]
    and f4 = conjunct2[OF conjunct2[OF conjunct2[OF FG]]]
  define F where "F = (\<lambda>t x. td_delta sv r d \<gamma> t + (1 - d ! t) * (\<gamma> * lam) * x)"
  have base: "0 < n \<Longrightarrow> fg ! (n - 1) = Fin (F (n - 1) 0)"
  proof -
    assume n: "0 < n"
    then have "fg ! (n - 1) =
          gae_step exact (map Fin sv) (map Fin r) (map Fin d) \<gamma> lam (n - 1) (Fin 0)"
      using f3 by blast
    also have "\<dots> = Fin (F (n - 1) 0)"
      unfolding F_def using assms n by (intro gae_step_exact) simp_all
    finally show ?thesis .
  qed
  have step: "\<And>t x. t + 1 < n \<Longrightarrow> fg ! (t + 1) = Fin x \<Longrightarrow> fg ! t = Fin (F t x)"
  proof -
    fix t x assume t: "t + 1 < n" and x: "fg ! (t + 1) = Fin x"
    from t have "fg ! t =
          gae_step exact (map Fin sv) (map Fin r) (map Fin d) \<gamma> lam t (fg ! (t + 1))"
      using f4 by blast
    also have "\<dots> = Fin (F t x)"
      unfolding F_def x using assms t by (intro gae_step_exact) simp_all
    finally show "fg ! t = Fin (F t x)" .
  qed
  from backward_finite[of fg n F, OF f2 base step] obtain G where
    G: "fg = map Fin G \<and> length G = n \<and> (0 < n \<longrightarrow> G ! (n - 1) = F (n - 1) 0) \<and>
             (\<forall>t. t + 1 < n \<longrightarrow> G ! t = F t (G ! (t + 1)))" by blast
  have g1: "compute_gae exact (map Fin sv) (FloatVec (map Fin r)) (map Fin d) \<gamma> lam =
                Inr (FloatVec (map Fin G))"
    using f1 conjunct1[OF G] by simp
  have g3: "0 < n \<longrightarrow> G ! (n - 1) = td_delta sv r d \<gamma> (n - 1)"
    using conjunct1[OF conjunct2[OF conjunct2[OF G]]] by (simp add: F_def)
  have g4: "\<forall>t. t + 1 < n \<longrightarrow>
          G ! t = td_delta sv r d \<gamma> t + (1 - d ! t) * (\<gamma> * lam) * G ! (t + 1)"
    using conjunct2[OF conjunct2[OF conjunct2[OF G]]] unfolding F_def .
  show ?thesis
    apply (rule exI[of _ G])
    apply (intro conjI)
       apply (rule g1)
      apply (rule conjunct1[OF conjunct2[OF G]])
     apply (rule g3)
    apply (rule g4)
    done
qed

lemma backward_sum:
  fixes G D :: "nat \<Rightarrow> real"
  assumes base: "0 < n \<Longrightarrow> G (n - 1) = D (n - 1)"
    and step: "\<And>t. t + 1 < n \<Longrightarrow> G t = D t + c * G (t + 1)"
    and t: "t < n"
  shows "G t = (\<Sum>l = 0..n - 1 - t. c ^ l * D (t + l))"
  using t
proof (induction "n - 1 - t" arbitrary: t)
  case 0
  then have "t = n - 1" by simp
  with base 0 show ?case by simp
next
  case (Suc d)
  then have t1: "t + 1 < n" and d: "d = n - 1 - (t + 1)" by simp_all
  have "G (t + 1) = (\<Sum>l = 0..n - 1 - (t + 1). c ^ l * D (t + 1 + l))"
    using Suc.hyps(1)[OF d] t1 by simp
  then have "G t = D t + c * (\<Sum>l = 0..d. c ^ l * D (t + 1 + l))"
    using step[OF t1] d by simp
  also have "\<dots> = D t + (\<Sum>l = 0..d. c ^ Suc l * D (t + Suc l))"
    by (simp add: sum_distrib_left mult.assoc)
  also have "\<dots> = (\<Sum>l = 0..Suc d. c ^ l * D (t + l))"
    by (subst sum.atLeast0_atMost_Suc_shift) simp
  finally show ?case using Suc.hyps(2) by simp
qed

lemmas gae_eval = compute_gae_def broadcast2_def fsub_def exact_def Let_def upt_rec ceiling_def
  float32_eval

text \<open>
  Claim C1 as it is stated, for every reward vector, fails on a reward tensor of dtype
  int64: \<open>gae = torch.empty_like(reward)\<close> is an int64 tensor then, and every advantage is
  truncated toward zero when it is stored. On the rewards \<open>[1, 1, 1]\<close> with state values
  \<open>[1, 2, 3, 4]\<close>, flags \<open>[0, 1, 0]\<close> and \<open>gamma = lam = 1/2\<close> the result is \<open>[0, -1, 0]\<close>,
  in single precision as in exact arithmetic (no operation rounds on this input), while
  the recurrence asks for \<open>gae[0] = delta[0] + (1 - 0) * gamma * lam * gae[1] = 3/4\<close>.
\<close>

theorem compute_gae_int_reward_counterexample:
  "compute_gae float32 (map Fin [1, 2, 3, 4]) (IntVec [1, 1, 1]) (map Fin [0, 1, 0]) (1 / 2) (1 / 2)
     = Inr (IntVec [0, - 1, 0]) \<and>
   compute_gae exact (map Fin [1, 2, 3, 4]) (IntVec [1, 1, 1]) (map Fin [0, 1, 0]) (1 / 2) (1 / 2)
     = Inr (IntVec [0, - 1, 0]) \<and>
   td_delta [1, 2, 3, 4] [1, 1, 1] [0, 1, 0] (1 / 2) 0 +
     (1 - [0, 1, 0] ! 0) * (1 / 2) * (1 / 2) * (- 1) = 3 / 4"
  by (simp add: gae_eval td_delta_def numeral_3_eq_3)

text \<open>
  Claim C1, for a reward tensor of a float dtype, in exact arithmetic. For every
  \<open>n \<ge> 1\<close>, every state-value tensor of length \<open>n + 1\<close> and every float reward and
  terminated tensor of length \<open>n\<close> with flags in \<open>{0, 1}\<close> (all entries finite),
  \<open>compute_gae\<close> returns a float tensor \<open>gae\<close> of length \<open>n\<close> with \<open>gae[n-1] = delta[n-1]\<close>
  and, for every \<open>t < n - 1\<close>,
  \<open>gae[t] = delta[t] + (1 - terminated[t]) * gamma * lam * gae[t+1]\<close>, where
  \<open>delta[t] = reward[t] + (1 - terminated[t]) * gamma * state_value[t+1] - state_value[t]\<close>.
\<close>

theorem compute_gae_recurrence:
  assumes "1 \<le> n" and "length state_value = n + 1"
    and "length rewards = n" and "length terminateds = n"
    and "\<forall>x\<in>set terminateds. x = 0 \<or> x = 1"
  shows "\<exists>gae. compute_gae exact (map Fin state_value) (FloatVec (map Fin rewards))
                  (map Fin terminateds) \<gamma> lam = Inr (FloatVec (map Fin gae)) \<and>
           length gae = n \<and>
           gae ! (n - 1) = td_delta state_value rewards terminateds \<gamma> (n - 1) \<and>
           (\<forall>t<n - 1. gae ! t = td_delta state_value rewards terminateds \<gamma> t +
                          (1 - terminateds ! t) * \<gamma> * lam * gae ! (t + 1))"
proof -
  from compute_gae_exact[OF assms(2,3,4), of \<gamma> lam] obtain g where
    G: "compute_gae exact (map Fin state_value) (FloatVec (map Fin rewards))
          (map Fin terminateds) \<gamma> lam = Inr (FloatVec (map Fin g)) \<and> length g = n \<and>
       (0 < n \<longrightarrow> g ! (n - 1) = td_delta state_value rewards terminateds \<gamma> (n - 1)) \<and>
       (\<forall>t. t + 1 < n \<longrightarrow>
          g ! t = td_delta state_value rewards terminateds \<gamma> t +
                  (1 - terminateds ! t) * (\<gamma> * lam) * g ! (t + 1))" ..
  have g3: "g ! (n - 1) = td_delta state_value rewards terminateds \<gamma> (n - 1)"
    using conjunct1[OF conjunct2[OF conjunct2[OF G]]] assms(1) by simp
  have g4: "\<forall>t<n - 1. g ! t = td_delta state_value rewards terminateds \<gamma> t +
                          (1 - terminateds ! t) * \<gamma> * lam * g ! (t + 1)"
  proof (intro allI impI)
    fix t assume "t < n - 1"
    then have "t + 1 < n" by simp
    then have "g ! t = td_delta state_value rewards terminateds \<gamma> t +
                  (1 - terminateds ! t) * (\<gamma> * lam) * g ! (t + 1)"
      using conjunct2[OF conjunct2[OF conjunct2[OF G]]] by blast
    then show "g ! t = td_delta state_value rewards terminateds \<gamma> t +
                          (1 - terminateds ! t) * \<gamma> * lam * g ! (t + 1)"
      by (simp add: mult.assoc)
  qed
  show ?thesis
    apply (rule exI[of _ g])
    apply (intro conjI)
       apply (rule conjunct1[OF G])
      apply (rule conjunct1[OF conjunct2[OF G]])
     apply (rule g3)
    apply (rule g4)
    done
qed

text \<open>
  The recurrence on a horizon of three steps with a terminal flag in the middle.
\<close>

theorem compute_gae_recurrence_witness:
  "\<exists>gae. compute_gae exact (map Fin [1, 2, 3, 4]) (FloatVec (map Fin [1, 1, 1]))
            (map Fin [0, 1, 0]) (1 / 2) (1 / 2) = Inr (FloatVec (map Fin gae)) \<and>
         length gae = 3 \<and> gae ! 2 = 0 \<and> gae ! 1 = - 1 \<and> gae ! 0 = 3 / 4"
proof -
  have "\<exists>gae. compute_gae exact (map Fin [1, 2, 3, 4]) (FloatVec (map Fin [1, 1, 1]))
            (map Fin [0, 1, 0]) (1 / 2) (1 / 2) = Inr (FloatVec (map Fin gae)) \<and>
           length gae = 3 \<and>
           gae ! (3 - 1) = td_delta [1, 2, 3, 4] [1, 1, 1] [0, 1, 0] (1 / 2) (3 - 1) \<and>
           (\<forall>t<3 - 1. gae ! t = td_delta [1, 2, 3, 4] [1, 1, 1] [0, 1, 0] (1 / 2) t +
                          (1 - [0, 1, 0] ! t) * (1 / 2) * (1 / 2) * gae ! (t + 1))"
    by (rule compute_gae_recurrence) simp_all
  then obtain gae where
    a: "compute_gae exact (map Fin [1, 2, 3, 4]) (FloatVec (map Fin [1, 1, 1]))
            (map Fin [0, 1, 0]) (1 / 2) (1 / 2) = Inr (FloatVec (map Fin gae))"
    and b: "length gae = 3"
    and c: "gae ! (3 - 1) = td_delta [1, 2, 3, 4] [1, 1, 1] [0, 1, 0] (1 / 2) (3 - 1)"
    and d: "\<forall>t<3 - 1. gae ! t = td_delta [1, 2, 3, 4] [1, 1, 1] [0, 1, 0] (1 / 2) t +
                          (1 - [0, 1, (0::real)] ! t) * (1 / 2) * (1 / 2) * gae ! (t + 1)"
    by blast
  have g2: "gae ! 2 = 0" using c by (simp add: td_delta_def)
  have "gae ! 1 = td_delta [1, 2, 3, 4] [1, 1, 1] [0, 1, 0] (1 / 2) 1 +
                          (1 - [0, 1, (0::real)] ! 1) * (1 / 2) * (1 / 2) * gae ! (1 + 1)"
    using d by simp
  then have g1: "gae ! 1 = - 1" by (simp add: td_delta_def)
  have "gae ! 0 = td_delta [1, 2, 3, 4] [1, 1, 1] [0, 1, 0] (1 / 2) 0 +
                          (1 - [0, 1, (0::real)] ! 0) * (1 / 2) * (1 / 2) * gae ! (0 + 1)"
    using d by simp
  then have g0: "gae ! 0 = 3 / 4" using g1 by (simp add: td_delta_def)
  show ?thesis using a b g2 g1 g0 by blast
qed

lemma gae_step_masked:
  assumes z: "rnd 0 = Fin 0" and dt: "d ! t = Fin 1"
    and fg: "is_finite (rnd \<gamma>)" "is_finite (rnd (\<gamma> * lam))"
    and fs: "is_finite (sv ! (t + 1))" and fx: "is_finite x"
  shows "gae_step rnd sv r d \<gamma> lam t x =
           fadd rnd (fsub rnd (fadd rnd (r ! t) (Fin 0)) (sv ! t)) (Fin 0)"
proof -
  have nt: "fsub rnd (Fin 1) (d ! t) = Fin 0" using z dt by (simp add: fsub_def)
  have a: "fmul rnd (Fin 0) (rnd \<gamma>) = Fin 0" using z fg(1) by (rule fmul_zero)
  have b: "fmul rnd (Fin 0) (sv ! (t + 1)) = Fin 0" using z fs by (rule fmul_zero)
  have c: "fmul rnd (Fin 0) (rnd (\<gamma> * lam)) = Fin 0" using z fg(2) by (rule fmul_zero)
  have e: "fmul rnd (Fin 0) x = Fin 0" using z fx by (rule fmul_zero)
  show ?thesis by (simp only: gae_step_def nt a b c e)
qed

lemma masked_value:
  assumes "rounding rnd" "representable rnd a"
  shows "fadd rnd (fsub rnd (fadd rnd a (Fin 0)) b) (Fin 0) = fsub rnd a b"
  using assms by (simp add: fadd_zero representable_fsub)

lemma gae_masked:
  assumes g3: "0 < n \<longrightarrow> g ! (n - 1) = gae_step rnd sv r d \<gamma> lam (n - 1) (Fin 0)"
    and g4: "\<forall>t. t + 1 < n \<longrightarrow> g ! t = gae_step rnd sv r d \<gamma> lam t (g ! (t + 1))"
    and r: "rounding rnd" and fg: "is_finite (rnd \<gamma>)" "is_finite (rnd (\<gamma> * lam))"
    and t: "t < n" and dt: "d ! t = Fin 1" and rp: "representable rnd (r ! t)"
    and fs: "is_finite (sv ! (t + 1))" and fn: "t + 1 < n \<longrightarrow> is_finite (g ! (t + 1))"
  shows "g ! t = fsub rnd (r ! t) (sv ! t)"
proof -
  have z: "rnd 0 = Fin 0" using r by (simp add: rounding_def)
  have "\<exists>x. is_finite x \<and> g ! t = gae_step rnd sv r d \<gamma> lam t x"
  proof (cases "t + 1 < n")
    case True
    with g4 fn show ?thesis by blast
  next
    case False
    with t have "t = n - 1" "0 < n" by simp_all
    with g3 have "g ! t = gae_step rnd sv r d \<gamma> lam t (Fin 0)" by simp
    moreover have "is_finite (Fin 0)" by simp
    ultimately show ?thesis by blast
  qed
  then obtain x where x: "is_finite x" "g ! t = gae_step rnd sv r d \<gamma> lam t x" by blast
  have "g ! t = fadd rnd (fsub rnd (fadd rnd (r ! t) (Fin 0)) (sv ! t)) (Fin 0)"
    unfolding x(2) using z dt fg fs x(1) by (rule gae_step_masked)
  then show ?thesis using r rp by (simp add: masked_value)
qed

lemma gae_mask_agree:
  assumes g4: "\<forall>t. t + 1 < n \<longrightarrow> g ! t = gae_step rnd sv r d \<gamma> lam t (g ! (t + 1))"
    and h4: "\<forall>t. t + 1 < m \<longrightarrow> h ! t = gae_step rnd sv' r' d' \<gamma> lam t (h ! (t + 1))"
    and t: "t < n" "t < m"
    and agree: "\<forall>i\<le>t. r ! i = r' ! i \<and> d ! i = d' ! i \<and> sv ! i = sv' ! i"
    and top: "g ! t = h ! t"
    and i: "i \<le> t"
  shows "g ! i = h ! i"
  using i
proof (induction "t - i" arbitrary: i)
  case 0
  then have "i = t" by simp
  with top show ?case by simp
next
  case (Suc k)
  then have lt: "i < t" and k: "k = t - (i + 1)" and le: "i + 1 \<le> t" by simp_all
  have ih: "g ! (i + 1) = h ! (i + 1)"
    using Suc.hyps(1)[OF k le] .
  from lt t have b: "i + 1 < n" "i + 1 < m" by simp_all
  have e1: "g ! i = gae_step rnd sv r d \<gamma> lam i (g ! (i + 1))"
    using g4 b(1) by blast
  have e2: "h ! i = gae_step rnd sv' r' d' \<gamma> lam i (h ! (i + 1))"
    using h4 b(2) by blast
  have a1: "r ! i = r' ! i" "d ! i = d' ! i" "sv ! i = sv' ! i"
    using agree lt by simp_all
  have a2: "sv ! (i + 1) = sv' ! (i + 1)"
    using agree le by blast
  show ?case unfolding e1 e2 by (simp only: gae_step_def a1 a2 ih)
qed

text \<open>
  Claim C4 as it is stated fails in float arithmetic, where the mask is a multiplication
  by 0 and \<open>0 * inf\<close> is nan. In single precision, with \<open>gamma = lam = 1\<close>, the rollout
  with state values \<open>[0, 0, 2^127]\<close>, rewards \<open>[1, 2^127]\<close> and flags \<open>[1, 0]\<close> is terminal
  at step 0, and all its entries are finite; the temporal-difference error of step 1
  overflows to \<open>inf\<close>, so the advantage of step 1 is \<open>inf\<close> and the masked product at
  step 0 is nan: the result is \<open>[nan, inf]\<close>. The advantage of the terminal step is not
  \<open>reward[0] - state_value[0] = 1\<close>, and it differs from that of the rollout with state
  values \<open>[0, 0, 0]\<close> and rewards \<open>[1, 0]\<close>, which agrees with the first at step 0.
\<close>

theorem compute_gae_overflow_counterexample:
  "compute_gae float32 [Fin 0, Fin 0, Fin (2 ^ 127)] (FloatVec [Fin 1, Fin (2 ^ 127)])
     [Fin 1, Fin 0] 1 1 = Inr (FloatVec [NotANumber, PosInf]) \<and>
   compute_gae float32 [Fin 0, Fin 0, Fin 0] (FloatVec [Fin 1, Fin 0])
     [Fin 1, Fin 0] 1 1 = Inr (FloatVec [Fin 1, Fin 0]) \<and>
   fsub float32 (Fin 1) (Fin 0) = Fin 1"
  by (simp add: compute_gae_def broadcast2_def fsub_def Let_def numeral_2_eq_2
      float32_0 float32_1 float32_2p127[simplified] float32_2p128[simplified])

text \<open>
  The claim fails on a reward tensor of dtype int64 as well, where the stored advantage of
  a terminal step is the truncated difference: with reward 1 and state value \<open>1/4\<close> at a
  terminal step it is 0, not \<open>3/4\<close>.
\<close>

lemma compute_gae_int_reward_masked:
  "compute_gae float32 [Fin (1 / 4), Fin 0] (IntVec [1]) [Fin 1] (1 / 2) (1 / 2) = Inr (IntVec [0])"
  by (simp add: gae_eval)

text \<open>
  Claim C4, for a reward tensor of a float dtype and finite values behind the boundary.
  Let \<open>rnd\<close> be a rounding in which \<open>gamma\<close> and \<open>gamma * lam\<close> are finite, and let two
  inputs (of any two horizons) agree on reward, terminated and state value at all indices
  up to \<open>t\<close> and be terminal at \<open>t\<close>, with a representable \<open>reward[t]\<close>. If
  \<open>state_value[t+1]\<close> and, when \<open>t + 1 < n\<close>, the returned \<open>gae[t+1]\<close> are finite, then
  \<open>gae[t]\<close> is the float difference \<open>reward[t] - state_value[t]\<close>; and if this holds of both
  inputs, their advantages at the indices \<open>0..t\<close> are the same: nothing finite after a
  terminal step reaches that step or an earlier one.
\<close>

theorem compute_gae_masks_episode_boundary:
  assumes "rounding rnd" and "is_finite (rnd \<gamma>)" and "is_finite (rnd (\<gamma> * lam))"
    and "length state_value = n + 1" and "length rewards = n" and "length terminateds = n"
    and "length state_value' = m + 1" and "length rewards' = m" and "length terminateds' = m"
    and "t < n" and "t < m"
    and "terminateds ! t = Fin 1" and "terminateds' ! t = Fin 1"
    and "\<forall>i\<le>t. rewards ! i = rewards' ! i \<and> terminateds ! i = terminateds' ! i \<and>
                state_value ! i = state_value' ! i"
    and "representable rnd (rewards ! t)"
  shows "\<exists>gae gae'.
           compute_gae rnd state_value (FloatVec rewards) terminateds \<gamma> lam = Inr (FloatVec gae) \<and>
           compute_gae rnd state_value' (FloatVec rewards') terminateds' \<gamma> lam = Inr (FloatVec gae') \<and>
           length gae = n \<and> length gae' = m \<and>
           (is_finite (state_value ! (t + 1)) \<and> (t + 1 < n \<longrightarrow> is_finite (gae ! (t + 1))) \<longrightarrow>
              gae ! t = fsub rnd (rewards ! t) (state_value ! t)) \<and>
           (is_finite (state_value ! (t + 1)) \<and> (t + 1 < n \<longrightarrow> is_finite (gae ! (t + 1))) \<and>
            is_finite (state_value' ! (t + 1)) \<and> (t + 1 < m \<longrightarrow> is_finite (gae' ! (t + 1))) \<longrightarrow>
              (\<forall>i\<le>t. gae ! i = gae' ! i))"
proof -
  from compute_gae_unfold[OF assms(4,5,6), of rnd \<gamma> lam] obtain g where
    G: "compute_gae rnd state_value (FloatVec rewards) terminateds \<gamma> lam = Inr (FloatVec g) \<and>
       length g = n \<and>
       (0 < n \<longrightarrow> g ! (n - 1) = gae_step rnd state_value rewards terminateds \<gamma> lam (n - 1) (Fin 0)) \<and>
       (\<forall>t. t + 1 < n \<longrightarrow>
          g ! t = gae_step rnd state_value rewards terminateds \<gamma> lam t (g ! (t + 1)))" ..
  from compute_gae_unfold[OF assms(7,8,9), of rnd \<gamma> lam] obtain h where
    H: "compute_gae rnd state_value' (FloatVec rewards') terminateds' \<gamma> lam = Inr (FloatVec h) \<and>
       length h = m \<and>
       (0 < m \<longrightarrow> h ! (m - 1) = gae_step rnd state_value' rewards' terminateds' \<gamma> lam (m - 1) (Fin 0)) \<and>
       (\<forall>t. t + 1 < m \<longrightarrow>
          h ! t = gae_step rnd state_value' rewards' terminateds' \<gamma> lam t (h ! (t + 1)))" ..
  note g3 = conjunct1[OF conjunct2[OF conjunct2[OF G]]]
  note g4 = conjunct2[OF conjunct2[OF conjunct2[OF G]]]
  note h3 = conjunct1[OF conjunct2[OF conjunct2[OF H]]]
  note h4 = conjunct2[OF conjunct2[OF conjunct2[OF H]]]
  have rp': "representable rnd (rewards' ! t)" using assms(14,15) by simp
  have v: "is_finite (state_value ! (t + 1)) \<and> (t + 1 < n \<longrightarrow> is_finite (g ! (t + 1))) \<longrightarrow>
              g ! t = fsub rnd (rewards ! t) (state_value ! t)"
  proof
    assume f: "is_finite (state_value ! (t + 1)) \<and> (t + 1 < n \<longrightarrow> is_finite (g ! (t + 1)))"
    show "g ! t = fsub rnd (rewards ! t) (state_value ! t)"
      using g3 g4 assms(1,2,3,10,12,15) conjunct1[OF f] conjunct2[OF f] by (rule gae_masked)
  qed
  have e: "is_finite (state_value ! (t + 1)) \<and> (t + 1 < n \<longrightarrow> is_finite (g ! (t + 1))) \<and>
            is_finite (state_value' ! (t + 1)) \<and> (t + 1 < m \<longrightarrow> is_finite (h ! (t + 1))) \<longrightarrow>
              (\<forall>i\<le>t. g ! i = h ! i)"
  proof (rule impI)
    assume f: "is_finite (state_value ! (t + 1)) \<and> (t + 1 < n \<longrightarrow> is_finite (g ! (t + 1))) \<and>
            is_finite (state_value' ! (t + 1)) \<and> (t + 1 < m \<longrightarrow> is_finite (h ! (t + 1)))"
    note f1 = conjunct1[OF f] and f2 = conjunct1[OF conjunct2[OF f]]
      and f3 = conjunct1[OF conjunct2[OF conjunct2[OF f]]]
      and f4 = conjunct2[OF conjunct2[OF conjunct2[OF f]]]
    have vg: "g ! t = fsub rnd (rewards ! t) (state_value ! t)"
      using g3 g4 assms(1,2,3,10,12,15) f1 f2 by (rule gae_masked)
    have vh: "h ! t = fsub rnd (rewards' ! t) (state_value' ! t)"
      using h3 h4 assms(1,2,3,11,13) rp' f3 f4 by (rule gae_masked)
    have top: "g ! t = h ! t" using vg vh assms(14) by simp
    show "\<forall>i\<le>t. g ! i = h ! i"
    proof (intro allI impI)
      fix i assume "i \<le> t"
      with g4 h4 assms(10,11,14) top show "g ! i = h ! i"
        by (rule gae_mask_agree)
    qed
  qed
  show ?thesis
    apply (rule exI[of _ g])
    apply (rule exI[of _ h])
    apply (intro conjI)
         apply (rule conjunct1[OF G])
        apply (rule conjunct1[OF H])
       apply (rule conjunct1[OF conjunct2[OF G]])
      apply (rule conjunct1[OF conjunct2[OF H]])
     apply (rule v)
    apply (rule e)
    done
qed

text \<open>
  Two rollouts of different horizons in single precision that share their first two
  steps, the second of them terminal, and differ in everything after it.
\<close>

theorem compute_gae_masks_episode_boundary_witness:
  "\<exists>gae gae'.
     compute_gae float32 (map Fin [1, 2, 3, 4]) (FloatVec (map Fin [1, 1, 1]))
       (map Fin [0, 1, 0]) (1 / 2) (1 / 2) = Inr (FloatVec gae) \<and>
     compute_gae float32 (map Fin [1, 2, 7, 8, 9]) (FloatVec (map Fin [1, 1, 5, 6]))
       (map Fin [0, 1, 1, 0]) (1 / 2) (1 / 2) = Inr (FloatVec gae') \<and>
     length gae = 3 \<and> length gae' = 4 \<and>
     gae ! 1 = Fin (- 1) \<and> gae ! 0 = gae' ! 0 \<and> gae ! 1 = gae' ! 1"
proof -
  let ?sv = "map Fin [1, 2, 3, 4]" and ?r = "map Fin [1, 1, 1]" and ?d = "map Fin [0, 1, 0]"
  let ?sv' = "map Fin [1, 2, 7, 8, 9]" and ?r' = "map Fin [1, 1, 5, 6]"
  let ?d' = "map Fin [0, 1, 1, 0]"
  have "\<exists>gae gae'.
           compute_gae float32 ?sv (FloatVec ?r) ?d (1 / 2) (1 / 2) = Inr (FloatVec gae) \<and>
           compute_gae float32 ?sv' (FloatVec ?r') ?d' (1 / 2) (1 / 2) = Inr (FloatVec gae') \<and>
           length gae = 3 \<and> length gae' = 4 \<and>
           (is_finite (?sv ! (1 + 1)) \<and> (1 + 1 < (3::nat) \<longrightarrow> is_finite (gae ! (1 + 1))) \<longrightarrow>
              gae ! 1 = fsub float32 (?r ! 1) (?sv ! 1)) \<and>
           (is_finite (?sv ! (1 + 1)) \<and> (1 + 1 < (3::nat) \<longrightarrow> is_finite (gae ! (1 + 1))) \<and>
            is_finite (?sv' ! (1 + 1)) \<and> (1 + 1 < (4::nat) \<longrightarrow> is_finite (gae' ! (1 + 1))) \<longrightarrow>
              (\<forall>i\<le>1. gae ! i = gae' ! i))"
    by (rule compute_gae_masks_episode_boundary)
      (simp_all add: rounding_float32 nth_Cons' le_Suc_eq float32_eval)
  then obtain gae gae' where
    a: "compute_gae float32 ?sv (FloatVec ?r) ?d (1 / 2) (1 / 2) = Inr (FloatVec gae)"
    and b: "compute_gae float32 ?sv' (FloatVec ?r') ?d' (1 / 2) (1 / 2) = Inr (FloatVec gae')"
    and c: "length gae = 3" "length gae' = 4"
    and d: "is_finite (?sv ! (1 + 1)) \<and> (1 + 1 < (3::nat) \<longrightarrow> is_finite (gae ! (1 + 1))) \<longrightarrow>
              gae ! 1 = fsub float32 (?r ! 1) (?sv ! 1)"
    and e: "is_finite (?sv ! (1 + 1)) \<and> (1 + 1 < (3::nat) \<longrightarrow> is_finite (gae ! (1 + 1))) \<and>
            is_finite (?sv' ! (1 + 1)) \<and> (1 + 1 < (4::nat) \<longrightarrow> is_finite (gae' ! (1 + 1))) \<longrightarrow>
              (\<forall>i\<le>1. gae ! i = gae' ! i)"
    by blast
  have "compute_gae float32 ?sv (FloatVec ?r) ?d (1 / 2) (1 / 2) =
          Inr (FloatVec [Fin (3 / 4), Fin (- 1), Fin 0])"
    by (simp add: gae_eval numeral_3_eq_3)
  with a have ga: "gae = [Fin (3 / 4), Fin (- 1), Fin 0]" by simp
  have "compute_gae float32 ?sv' (FloatVec ?r') ?d' (1 / 2) (1 / 2) =
          Inr (FloatVec [Fin (3 / 4), Fin (- 1), Fin (- 2), Fin (5 / 2)])"
    by (simp add: gae_eval eval_nat_numeral)
  with b have gb: "gae' = [Fin (3 / 4), Fin (- 1), Fin (- 2), Fin (5 / 2)]" by simp
  have f1: "is_finite (?sv ! (1 + 1)) \<and> (1 + 1 < (3::nat) \<longrightarrow> is_finite (gae ! (1 + 1)))"
    by (simp add: ga)
  have f2: "is_finite (?sv' ! (1 + 1)) \<and> (1 + 1 < (4::nat) \<longrightarrow> is_finite (gae' ! (1 + 1)))"
    by (simp add: gb)
  from d f1 have "gae ! 1 = fsub float32 (?r ! 1) (?sv ! 1)" by blast
  then have d': "gae ! 1 = Fin (- 1)" by (simp add: fsub_def float32_eval)
  from e f1 f2 have "\<forall>i\<le>1. gae ! i = gae' ! i" by blast
  then have e0: "gae ! 0 = gae' ! 0" and e1: "gae ! 1 = gae' ! 1" by simp_all
  show ?thesis using a b c d' e0 e1 by blast
qed

text \<open>
  Claim C5 as it is stated fails on a reward tensor of dtype int64, where the stored
  advantages are truncated: on the rewards \<open>[1, 1, 1]\<close> with state values \<open>[1, 2, 3, 4]\<close>,
  no terminal flag and \<open>gamma = lam = 1/2\<close> the result is \<open>[1, 0, 0]\<close>, in single
  precision as in exact arithmetic, while the closed form gives \<open>[9/8, 1/2, 0]\<close>.
\<close>

theorem compute_gae_closed_form_counterexample:
  "compute_gae float32 (map Fin [1, 2, 3, 4]) (IntVec [1, 1, 1]) (map Fin [0, 0, 0]) (1 / 2) (1 / 2)
     = Inr (IntVec [1, 0, 0]) \<and>
   compute_gae exact (map Fin [1, 2, 3, 4]) (IntVec [1, 1, 1]) (map Fin [0, 0, 0]) (1 / 2) (1 / 2)
     = Inr (IntVec [1, 0, 0]) \<and>
   map (gae_closed_form [1, 2, 3, 4] [1, 1, 1] (1 / 2) (1 / 2) 3) [0, 1, 2] = [9 / 8, 1 / 2, 0]"
  by (simp add: gae_eval gae_closed_form_def numeral_3_eq_3 atLeast0_atMost_Suc eval_nat_numeral)

text \<open>
  Claim C5, for a reward tensor of a float dtype, in exact arithmetic. When every
  terminated flag is 0 (and all entries are finite), the reverse iteration of
  \<open>compute_gae\<close> equals the closed form: for every \<open>t < n\<close>,
  \<open>gae[t] = sum over l from 0 to n-1-t of (gamma * lam)^l * delta[t+l]\<close> with
  \<open>delta[t] = reward[t] + gamma * state_value[t+1] - state_value[t]\<close>.
\<close>

theorem compute_gae_closed_form:
  assumes "length state_value = n + 1" and "length rewards = n" and "length terminateds = n"
    and "\<forall>x\<in>set terminateds. x = 0"
  shows "compute_gae exact (map Fin state_value) (FloatVec (map Fin rewards))
           (map Fin terminateds) \<gamma> lam =
           Inr (FloatVec (map (\<lambda>t. Fin (gae_closed_form state_value rewards \<gamma> lam n t)) [0..<n]))"
proof -
  from compute_gae_exact[OF assms(1,2,3), of \<gamma> lam] obtain g where
    G: "compute_gae exact (map Fin state_value) (FloatVec (map Fin rewards))
          (map Fin terminateds) \<gamma> lam = Inr (FloatVec (map Fin g)) \<and> length g = n \<and>
       (0 < n \<longrightarrow> g ! (n - 1) = td_delta state_value rewards terminateds \<gamma> (n - 1)) \<and>
       (\<forall>t. t + 1 < n \<longrightarrow>
          g ! t = td_delta state_value rewards terminateds \<gamma> t +
                  (1 - terminateds ! t) * (\<gamma> * lam) * g ! (t + 1))" ..
  note g3 = conjunct1[OF conjunct2[OF conjunct2[OF G]]]
  note g4 = conjunct2[OF conjunct2[OF conjunct2[OF G]]]
  define D where "D = (\<lambda>t. rewards ! t + \<gamma> * state_value ! (t + 1) - state_value ! t)"
  have z: "\<And>t. t < n \<Longrightarrow> terminateds ! t = 0"
    using assms(3,4) by (simp add: all_set_conv_all_nth)
  have td: "\<And>t. t < n \<Longrightarrow> td_delta state_value rewards terminateds \<gamma> t = D t"
    using z by (simp add: td_delta_def D_def)
  have base: "0 < n \<Longrightarrow> g ! (n - 1) = D (n - 1)"
    using g3 td[of "n - 1"] by simp
  have step: "\<And>t. t + 1 < n \<Longrightarrow> g ! t = D t + (\<gamma> * lam) * g ! (t + 1)"
  proof -
    fix t assume t: "t + 1 < n"
    then have "g ! t = td_delta state_value rewards terminateds \<gamma> t +
                  (1 - terminateds ! t) * (\<gamma> * lam) * g ! (t + 1)"
      using g4 by blast
    then show "g ! t = D t + (\<gamma> * lam) * g ! (t + 1)"
      using td[of t] z[of t] t by simp
  qed
  have "\<And>t. t < n \<Longrightarrow> g ! t = gae_closed_form state_value rewards \<gamma> lam n t"
    unfolding gae_closed_form_def
    using backward_sum[of n "\<lambda>t. g ! t" D "\<gamma> * lam", OF base step]
    by (simp add: D_def add.assoc)
  then have "g = map (gae_closed_form state_value rewards \<gamma> lam n) [0..<n]"
    using conjunct1[OF conjunct2[OF G]] by (intro nth_equalityI) simp_all
  then have "map Fin g = map (\<lambda>t. Fin (gae_closed_form state_value rewards \<gamma> lam n t)) [0..<n]"
    by simp
  then show ?thesis using conjunct1[OF G] by simp
qed

text \<open>
  The closed form on a horizon of three steps without a terminal flag.
\<close>

theorem compute_gae_closed_form_witness:
  "compute_gae exact (map Fin [1, 2, 3, 4]) (FloatVec (map Fin [1, 1, 1])) (map Fin [0, 0, 0])
     (1 / 2) (1 / 2) = Inr (FloatVec [Fin (9 / 8), Fin (1 / 2), Fin 0])"
proof -
  have "compute_gae exact (map Fin [1, 2, 3, 4]) (FloatVec (map Fin [1, 1, 1])) (map Fin [0, 0, 0])
          (1 / 2) (1 / 2) =
          Inr (FloatVec (map (\<lambda>t. Fin (gae_closed_form [1, 2, 3, 4] [1, 1, 1] (1 / 2) (1 / 2) 3 t)) [0..<3]))"
    by (rule compute_gae_closed_form) simp_all
  also have "[0..<3] = [0, 1, 2]" by (simp add: upt_rec)
  finally show ?thesis
    by (simp add: gae_closed_form_def atLeast0_atMost_Suc numeral_2_eq_2 eval_nat_numeral)
qed

lemma return_loop_unfold:
  "k \<le> length xs \<Longrightarrow>
   \<exists>g. return_loop rnd \<gamma> rs k G (FloatVec xs) = FloatVec g \<and> length g = length xs \<and>
       (\<forall>i. k \<le> i \<longrightarrow> i < length xs \<longrightarrow> g ! i = xs ! i) \<and>
       (0 < k \<longrightarrow> g ! (k - 1) = fadd rnd (rs ! (k - 1)) (fmul rnd (rnd \<gamma>) G)) \<and>
       (\<forall>t. t + 1 < k \<longrightarrow> g ! t = fadd rnd (rs ! t) (fmul rnd (rnd \<gamma>) (g ! (t + 1))))"
proof (induction k arbitrary: G xs)
  case 0
  then show ?case by simp
next
  case (Suc k)
  define G' where "G' = fadd rnd (rs ! k) (fmul rnd (rnd \<gamma>) G)"
  define xs' where "xs' = xs[k := G']"
  have len: "length xs' = length xs" by (simp add: xs'_def)
  from Suc.prems have kk: "k \<le> length xs'" by (simp add: len)
  from Suc.IH[OF kk, of G'] obtain g where
    H: "return_loop rnd \<gamma> rs k G' (FloatVec xs') = FloatVec g \<and> length g = length xs' \<and>
       (\<forall>i. k \<le> i \<longrightarrow> i < length xs' \<longrightarrow> g ! i = xs' ! i) \<and>
       (0 < k \<longrightarrow> g ! (k - 1) = fadd rnd (rs ! (k - 1)) (fmul rnd (rnd \<gamma>) G')) \<and>
       (\<forall>t. t + 1 < k \<longrightarrow> g ! t = fadd rnd (rs ! t) (fmul rnd (rnd \<gamma>) (g ! (t + 1))))" ..
  note g = conjunct1[OF H] conjunct1[OF conjunct2[OF H]]
    conjunct1[OF conjunct2[OF conjunct2[OF H]]]
    conjunct1[OF conjunct2[OF conjunct2[OF conjunct2[OF H]]]]
    conjunct2[OF conjunct2[OF conjunct2[OF conjunct2[OF H]]]]
  have step: "return_loop rnd \<gamma> rs (Suc k) G (FloatVec xs) = FloatVec g"
    using g(1) by (simp add: G'_def xs'_def Let_def)
  have gk: "g ! k = G'"
    using g(3) Suc.prems by (simp add: xs'_def len)
  have keep: "\<forall>i. Suc k \<le> i \<longrightarrow> i < length xs \<longrightarrow> g ! i = xs ! i"
    using g(3) by (simp add: xs'_def)
  have rec: "\<forall>t. t + 1 < Suc k \<longrightarrow>
               g ! t = fadd rnd (rs ! t) (fmul rnd (rnd \<gamma>) (g ! (t + 1)))"
  proof (intro allI impI)
    fix t assume t: "t + 1 < Suc k"
    show "g ! t = fadd rnd (rs ! t) (fmul rnd (rnd \<gamma>) (g ! (t + 1)))"
    proof (cases "t + 1 < k")
      case True
      then show ?thesis using g(5) by blast
    next
      case False
      with t have tk: "t + 1 = k" by simp
      then have "0 < k" by simp
      from g(4) \<open>0 < k\<close> have "g ! (k - 1) = fadd rnd (rs ! (k - 1)) (fmul rnd (rnd \<gamma>) G')"
        by blast
      moreover have "k - 1 = t" using tk by simp
      ultimately show ?thesis using gk tk by simp
    qed
  qed
  have last: "g ! (Suc k - 1) = fadd rnd (rs ! (Suc k - 1)) (fmul rnd (rnd \<gamma>) G)"
    using gk by (simp add: G'_def)
  have lg: "length g = length xs" using g(2) len by simp
  show ?case
    apply (rule exI[of _ g])
    apply (intro conjI)
        apply (rule step)
       apply (rule lg)
      apply (rule keep)
     apply (rule impI, rule last)
    apply (rule rec)
    done
qed

lemma compute_return_exact:
  "\<exists>g. compute_return exact \<gamma> (FloatVec (map Fin rs)) = FloatVec (map Fin g) \<and>
       length g = length rs \<and>
       (0 < length rs \<longrightarrow> g ! (length rs - 1) = rs ! (length rs - 1)) \<and>
       (\<forall>t. t + 1 < length rs \<longrightarrow> g ! t = rs ! t + \<gamma> * g ! (t + 1))"
proof -
  define T where "T = length rs"
  have "T \<le> length (replicate T (Fin 0))" by simp
  from return_loop_unfold[OF this, of exact \<gamma> "map Fin rs" "Fin 0"] obtain fg where
    FG: "return_loop exact \<gamma> (map Fin rs) T (Fin 0) (FloatVec (replicate T (Fin 0))) = FloatVec fg \<and>
       length fg = length (replicate T (Fin 0)) \<and>
       (\<forall>i. T \<le> i \<longrightarrow> i < length (replicate T (Fin 0)) \<longrightarrow> fg ! i = replicate T (Fin 0) ! i) \<and>
       (0 < T \<longrightarrow> fg ! (T - 1) = fadd exact (map Fin rs ! (T - 1)) (fmul exact (exact \<gamma>) (Fin 0))) \<and>
       (\<forall>t. t + 1 < T \<longrightarrow>
          fg ! t = fadd exact (map Fin rs ! t) (fmul exact (exact \<gamma>) (fg ! (t + 1))))" ..
  note f1 = conjunct1[OF FG] and f2 = conjunct1[OF conjunct2[OF FG]]
    and f4 = conjunct1[OF conjunct2[OF conjunct2[OF conjunct2[OF FG]]]]
    and f5 = conjunct2[OF conjunct2[OF conjunct2[OF conjunct2[OF FG]]]]
  have cr: "compute_return exact \<gamma> (FloatVec (map Fin rs)) = FloatVec fg"
    using f1 by (simp add: compute_return_def T_def Let_def)
  have len: "length fg = T" using f2 by simp
  define F where "F = (\<lambda>t x. rs ! t + \<gamma> * x)"
  have base: "0 < T \<Longrightarrow> fg ! (T - 1) = Fin (F (T - 1) 0)"
    using f4 by (simp add: F_def T_def exact_def)
  have step: "\<And>t x. t + 1 < T \<Longrightarrow> fg ! (t + 1) = Fin x \<Longrightarrow> fg ! t = Fin (F t x)"
  proof -
    fix t x assume t: "t + 1 < T" and x: "fg ! (t + 1) = Fin x"
    from t have "fg ! t = fadd exact (map Fin rs ! t) (fmul exact (exact \<gamma>) (fg ! (t + 1)))"
      using f5 by blast
    then show "fg ! t = Fin (F t x)"
      unfolding x using t by (simp add: F_def T_def exact_def)
  qed
  from backward_finite[of fg T F, OF len base step] obtain g where
    G: "fg = map Fin g \<and> length g = T \<and> (0 < T \<longrightarrow> g ! (T - 1) = F (T - 1) 0) \<and>
             (\<forall>t. t + 1 < T \<longrightarrow> g ! t = F t (g ! (t + 1)))" by blast
  have g1: "compute_return exact \<gamma> (FloatVec (map Fin rs)) = FloatVec (map Fin g)"
    using cr conjunct1[OF G] by simp
  have g2: "length g = length rs" using conjunct1[OF conjunct2[OF G]] by (simp add: T_def)
  have g3: "0 < length rs \<longrightarrow> g ! (length rs - 1) = rs ! (length rs - 1)"
    using conjunct1[OF conjunct2[OF conjunct2[OF G]]] by (simp add: F_def T_def)
  have g4: "\<forall>t. t + 1 < length rs \<longrightarrow> g ! t = rs ! t + \<gamma> * g ! (t + 1)"
    using conjunct2[OF conjunct2[OF conjunct2[OF G]]] unfolding F_def T_def .
  show ?thesis
    apply (rule exI[of _ g])
    apply (intro conjI)
       apply (rule g1)
      apply (rule g2)
     apply (rule g3)
    apply (rule g4)
    done
qed

text \<open>
  Claim C8 as it is stated, for every reward vector, fails on a reward tensor of dtype
  int64: \<open>returns = torch.empty_like(reward)\<close> is an int64 tensor then, and every return
  is truncated toward zero when it is stored, while the running value \<open>G\<close> stays a float.
  On the rewards \<open>[1, 1, 1]\<close> with \<open>gamma = 1/2\<close> the result is \<open>[1, 1, 1]\<close>, in single
  precision as in exact arithmetic, while the discounted returns are \<open>[7/4, 3/2, 1]\<close>.
\<close>

theorem compute_return_int_reward_counterexample:
  "compute_return float32 (1 / 2) (IntVec [1, 1, 1]) = IntVec [1, 1, 1] \<and>
   compute_return exact (1 / 2) (IntVec [1, 1, 1]) = IntVec [1, 1, 1] \<and>
   map (discounted_return (1 / 2) [1, 1, 1]) [0, 1, 2] = [7 / 4, 3 / 2, 1]"
  by (simp add: compute_return_def exact_def Let_def numeral_3_eq_3 discounted_return_def
      atLeast0_atMost_Suc eval_nat_numeral float32_eval)

text \<open>
  Claim C8, for a reward tensor of a float dtype, in exact arithmetic.
  \<open>REINFORCE.compute_return\<close> returns the discounted returns of the (finite) rewards: for
  every \<open>t\<close>, \<open>returns[t] = sum over k from 0 to T-1-t of gamma^k * reward[t+k]\<close>, and they
  obey the backward recurrence \<open>G = reward[t] + gamma * G\<close> started from \<open>G = 0\<close>. The
  statement holds for the empty reward tensor as well.
\<close>

theorem compute_return_discounted:
  "\<exists>returns. compute_return exact \<gamma> (FloatVec (map Fin rs)) = FloatVec (map Fin returns) \<and>
     returns = map (discounted_return \<gamma> rs) [0..<length rs] \<and>
     (\<forall>t<length rs. returns ! t =
        rs ! t + \<gamma> * (if t + 1 < length rs then returns ! (t + 1) else 0))"
proof -
  define T where "T = length rs"
  from compute_return_exact[of \<gamma> rs] obtain g where
    G: "compute_return exact \<gamma> (FloatVec (map Fin rs)) = FloatVec (map Fin g) \<and>
       length g = T \<and>
       (0 < T \<longrightarrow> g ! (T - 1) = rs ! (T - 1)) \<and>
       (\<forall>t. t + 1 < T \<longrightarrow> g ! t = rs ! t + \<gamma> * g ! (t + 1))"
    unfolding T_def ..
  have lg: "length g = T" using conjunct1[OF conjunct2[OF G]] .
  have base: "0 < T \<Longrightarrow> g ! (T - 1) = rs ! (T - 1)"
    using conjunct1[OF conjunct2[OF conjunct2[OF G]]] by blast
  have step: "\<And>t. t + 1 < T \<Longrightarrow> g ! t = rs ! t + \<gamma> * g ! (t + 1)"
    using conjunct2[OF conjunct2[OF conjunct2[OF G]]] by blast
  have "\<And>t. t < T \<Longrightarrow> g ! t = discounted_return \<gamma> rs t"
    unfolding discounted_return_def T_def[symmetric]
    by (rule backward_sum[of T "\<lambda>t. g ! t" "\<lambda>t. rs ! t" \<gamma>, OF base step])
  then have eq: "g = map (discounted_return \<gamma> rs) [0..<T]"
    using lg by (intro nth_equalityI) simp_all
  have rec: "\<forall>t<T. g ! t = rs ! t + \<gamma> * (if t + 1 < T then g ! (t + 1) else 0)"
  proof (intro allI impI)
    fix t assume t: "t < T"
    show "g ! t = rs ! t + \<gamma> * (if t + 1 < T then g ! (t + 1) else 0)"
    proof (cases "t + 1 < T")
      case True
      then show ?thesis using step by simp
    next
      case False
      with t have "t = T - 1" "0 < T" by simp_all
      with base False show ?thesis by simp
    qed
  qed
  show ?thesis
    apply (rule exI[of _ g])
    apply (intro conjI)
      apply (rule conjunct1[OF G])
     apply (rule eq[unfolded T_def])
    apply (rule rec[unfolded T_def])
    done
qed

text \<open>
  The returns of an episode of three steps with discount factor one half.
\<close>

theorem compute_return_discounted_witness:
  "compute_return exact (1 / 2) (FloatVec (map Fin [1, 2, 4])) = FloatVec (map Fin [3, 4, 4])"
proof -
  have "\<exists>returns. compute_return exact (1 / 2) (FloatVec (map Fin [1, 2, 4])) =
            FloatVec (map Fin returns) \<and>
     returns = map (discounted_return (1 / 2) [1, 2, 4]) [0..<length [1, 2, 4::real]] \<and>
     (\<forall>t<length [1, 2, 4::real]. returns ! t =
        [1, 2, 4] ! t + (1 / 2) * (if t + 1 < length [1, 2, 4::real] then returns ! (t + 1) else 0))"
    by (rule compute_return_discounted)
  then obtain returns where
    a: "compute_return exact (1 / 2) (FloatVec (map Fin [1, 2, 4])) = FloatVec (map Fin returns)"
    and b: "returns = map (discounted_return (1 / 2) [1, 2, 4]) [0..<length [1, 2, 4::real]]"
    by blast
  have "[0..<length [1, 2, 4::real]] = [0, 1, 2]" by (simp add: upt_rec)
  with b have "returns = [3, 4, 4]"
    by (simp add: discounted_return_def atLeast0_atMost_Suc eval_nat_numeral)
  with a show ?thesis by simp
qed

lemma fsum_exact: "foldl (fadd exact) (Fin a) (map Fin xs) = Fin (a + sum_list xs)"
  by (induction xs arbitrary: a) (simp_all add: exact_def add.assoc)

lemma fmean_exact:
  "xs \<noteq> [] \<Longrightarrow> fmean exact (map Fin xs) = Fin (sum_list xs / real (length xs))"
  by (simp add: fmean_def fsum_def fsum_exact exact_def)

lemma reinforce_loss_exact:
  assumes "length rs = length lp" and "rs \<noteq> []"
  shows "compute_reinforce_loss exact (FloatVec (map Fin rs)) (map Fin lp) =
           Inr (Fin (- (sum_list (map2 (*) (map (\<lambda>x. x - sum_list rs / real (length rs)) rs) lp)
                   / real (length rs))))"
proof -
  define m where "m = sum_list rs / real (length rs)"
  have c: "map (\<lambda>x. fsub exact x (fmean exact (map Fin rs))) (map Fin rs) =
           map Fin (map (\<lambda>x. x - m) rs)"
    using assms(2) by (simp add: fmean_exact m_def fsub_def exact_def)
  have p: "map2 (fmul exact) (map Fin (map (\<lambda>x. x - m) rs)) (map Fin lp) =
           map Fin (map2 (*) (map (\<lambda>x. x - m) rs) lp)"
    by (simp add: zip_map1 zip_map2 exact_def split_def)
  have br: "broadcast2 (fmul exact) (map Fin (map (\<lambda>x. x - m) rs)) (map Fin lp) =
            Inr (map Fin (map2 (*) (map (\<lambda>x. x - m) rs) lp))"
    unfolding broadcast2_def using assms(1) by (simp only: length_map if_True p refl)
  have ne: "map2 (*) (map (\<lambda>x. x - m) rs) lp \<noteq> []" using assms by auto
  have l: "length (map2 (*) (map (\<lambda>x. x - m) rs) lp) = length rs" using assms by simp
  show ?thesis
    unfolding m_def[symmetric] compute_reinforce_loss_def
    by (simp only: vec.case Let_def c br sum.case fmean_exact[OF ne] fneg.simps l)
qed

text \<open>
  Claim C10 as it is stated, an equality of two losses for every returns vector and every
  constant, fails in float arithmetic, where the mean of the shifted returns is rounded.
  In single precision the returns \<open>[0, 2]\<close> with \<open>log_pi = [1, 2]\<close> have the loss \<open>-1/2\<close>.
  Shifted by \<open>c = 2^24 = 16777216\<close> they are \<open>[16777216, 16777218]\<close>, both floats; their
  sum \<open>33554434\<close> is not a float and is rounded to \<open>33554432\<close>, so the mean is
  \<open>16777216\<close> instead of \<open>16777217\<close>, the centred returns are \<open>[0, 2]\<close> instead of
  \<open>[-1, 1]\<close>, and the loss is \<open>-2\<close>.
\<close>

theorem reinforce_loss_rounding_counterexample:
  "compute_reinforce_loss float32 (FloatVec [Fin 0, Fin 2]) [Fin 1, Fin 2] = Inr (Fin (- (1 / 2))) \<and>
   compute_reinforce_loss float32
     (FloatVec (map (\<lambda>x. fadd float32 x (Fin 16777216)) [Fin 0, Fin 2])) [Fin 1, Fin 2] =
     Inr (Fin (- 2))"
  by (simp add: compute_reinforce_loss_def fmean_def fsum_def fsub_def broadcast2_def Let_def
      float32_eval)

text \<open>
  On a returns tensor of an integer dtype there is no loss at all: \<open>returns.mean()\<close>
  raises.
\<close>

lemma reinforce_loss_int_returns: "compute_reinforce_loss rnd (IntVec xs) log_pi = Inl RuntimeError"
  by (simp add: compute_reinforce_loss_def)

text \<open>
  Claim C10, for a returns tensor of a float dtype, in exact arithmetic.
  \<open>REINFORCE.compute_reinforce_loss\<close> is invariant under a uniform shift of the returns:
  for finite returns and \<open>log_pi\<close> of equal non-zero length and every constant \<open>c\<close>, the
  loss of \<open>returns + c\<close> is the loss of \<open>returns\<close>, because the mean of the returns is
  subtracted before they weight \<open>log_pi\<close>; the loss is the negated mean of the centred
  returns times \<open>log_pi\<close>.
\<close>

theorem reinforce_loss_shift_invariant:
  assumes "length returns = length log_pi" and "returns \<noteq> []"
  shows "compute_reinforce_loss exact (FloatVec (map Fin (map (\<lambda>x. x + c) returns))) (map Fin log_pi) =
           compute_reinforce_loss exact (FloatVec (map Fin returns)) (map Fin log_pi) \<and>
         compute_reinforce_loss exact (FloatVec (map Fin returns)) (map Fin log_pi) =
           Inr (Fin (- (sum_list (map2 (*) (map (\<lambda>x. x - sum_list returns / real (length returns)) returns) log_pi)
                   / real (length returns))))"
proof -
  have s: "sum_list (map (\<lambda>x. x + c) returns) = sum_list returns + real (length returns) * c"
    by (simp add: sum_list_addf sum_list_triv)
  have cen: "map (\<lambda>x. x - sum_list (map (\<lambda>x. x + c) returns) / real (length (map (\<lambda>x. x + c) returns)))
               (map (\<lambda>x. x + c) returns) =
             map (\<lambda>x. x - sum_list returns / real (length returns)) returns"
    using assms(2) by (simp add: s add_divide_distrib)
  have b: "compute_reinforce_loss exact (FloatVec (map Fin returns)) (map Fin log_pi) =
           Inr (Fin (- (sum_list (map2 (*) (map (\<lambda>x. x - sum_list returns / real (length returns)) returns) log_pi)
                   / real (length returns))))"
    using assms by (rule reinforce_loss_exact)
  have "compute_reinforce_loss exact (FloatVec (map Fin (map (\<lambda>x. x + c) returns))) (map Fin log_pi) =
           Inr (Fin (- (sum_list (map2 (*) (map (\<lambda>x. x - sum_list (map (\<lambda>x. x + c) returns) / real (length (map (\<lambda>x. x + c) returns))) (map (\<lambda>x. x + c) returns)) log_pi)
                   / real (length (map (\<lambda>x. x + c) returns)))))"
    using assms by (intro reinforce_loss_exact) simp_all
  then have a: "compute_reinforce_loss exact (FloatVec (map Fin (map (\<lambda>x. x + c) returns))) (map Fin log_pi) =
           compute_reinforce_loss exact (FloatVec (map Fin returns)) (map Fin log_pi)"
    unfolding cen b by simp
  show ?thesis using a b by blast
qed

text \<open>
  Shifting the returns of a three-step episode by 10 leaves the loss at -1.
\<close>

theorem reinforce_loss_shift_invariant_witness:
  "compute_reinforce_loss exact (FloatVec (map Fin (map (\<lambda>x. x + 10) [1, 2, 3]))) (map Fin [1, 2, 4]) =
     compute_reinforce_loss exact (FloatVec (map Fin [1, 2, 3])) (map Fin [1, 2, 4]) \<and>
   compute_reinforce_loss exact (FloatVec (map Fin [1, 2, 3])) (map Fin [1, 2, 4]) = Inr (Fin (- 1))"
  using reinforce_loss_shift_invariant[of "[1, 2, 3]" "[1, 2, 4]" 10] by simp

section \<open>The temporal-difference loss\<close>

lemma sum_list_map_upt: "sum_list (map f [0..<n]) = (\<Sum>i<n. f i)"
  by (simp add: interv_sum_list_conv_sum_set_nat atLeast0LessThan)

lemma gather_network:
  assumes "length acts = B" and "length os = B"
    and "\<forall>i<B. 0 \<le> acts ! i \<and> acts ! i < int (length (Q (os ! i)))"
  shows "gather (network Q trainable True os) acts =
           Inr (Tensor (map (\<lambda>i. Q (os ! i) ! nat (acts ! i)) [0..<B]) trainable)"
proof -
  have c: "list_all (\<lambda>(row, a). 0 \<le> a \<and> a < int (length row)) (zip (map Q os) acts)"
    using assms by (simp add: list_all_length)
  have "map2 (\<lambda>row a. row ! nat a) (map Q os) acts =
          map (\<lambda>i. Q (os ! i) ! nat (acts ! i)) [0..<B]"
    using assms(1,2) by (intro nth_equalityI) simp_all
  with c assms(1,2) show ?thesis by (simp add: gather_def network_def)
qed

lemma max_dim1_network:
  assumes "length nos = B" and "\<forall>i<B. Q (nos ! i) \<noteq> []"
  shows "max_dim1 (network Q trainable False nos) =
           Inr (Tensor (map (\<lambda>i. Max (set (Q (nos ! i)))) [0..<B]) False)"
proof -
  have c: "list_all (\<lambda>row. row \<noteq> []) (map Q nos)"
    using assms by (simp add: list_all_length)
  have "map (\<lambda>row. Max (set row)) (map Q nos) = map (\<lambda>i. Max (set (Q (nos ! i)))) [0..<B]"
    using assms(1) by (intro nth_equalityI) simp_all
  with c show ?thesis by (simp add: max_dim1_def network_def)
qed

lemma q_target_value:
  assumes "length nos = B" and "length rs = B" and "length ds = B"
    and "\<forall>i<B. Q (nos ! i) \<noteq> []"
  shows "q_target Q trainable \<gamma> nos rs ds =
           Inr (Tensor (map (\<lambda>i. rs ! i + (1 - ds ! i) * \<gamma> * Max (set (Q (nos ! i)))) [0..<B]) False)"
proof -
  have "map2 (+) rs (map2 (*) (map (\<lambda>v. v * \<gamma>) (map (\<lambda>v. 1 - v) ds))
            (map (\<lambda>i. Max (set (Q (nos ! i)))) [0..<B])) =
        map (\<lambda>i. rs ! i + (1 - ds ! i) * \<gamma> * Max (set (Q (nos ! i)))) [0..<B]"
    using assms(1,2,3) by (intro nth_equalityI) simp_all
  then show ?thesis
    using assms(2,3)
    by (simp add: q_target_def max_dim1_network[OF assms(1,4)] rsub_def mul_scalar_def
        elementwise_def broadcast2_def Let_def)
qed

lemma mse_loss_value:
  assumes "0 < B"
  shows "mse_loss (Tensor (map f [0..<B]) False) (Tensor (map g [0..<B]) trainable) =
           Inr ((\<Sum>i<B. (f i - g i)\<^sup>2) / real B, trainable)"
proof -
  have "map2 (\<lambda>a b. (a - b)\<^sup>2) (map f [0..<B]) (map g [0..<B]) = map (\<lambda>i. (f i - g i)\<^sup>2) [0..<B]"
    by (intro nth_equalityI) simp_all
  then show ?thesis
    using assms
    by (simp add: mse_loss_def elementwise_def broadcast2_def mean_def sum_list_map_upt)
qed

text \<open>
  Claim C6. For every batch \<open>(obs, action, next_obs, reward, terminated)\<close> of \<open>B > 0\<close>
  transitions with terminated flags in \<open>{0, 1}\<close>, valid action indices and a network with at
  least one action, \<open>DQN.compute_td_loss\<close> returns the mean over the batch of
  \<open>(reward + (1 - terminated) * gamma * max\<^sub>a Q(next_obs, a) - Q(obs, action))\<^sup>2\<close>. The Q
  target is exactly \<open>reward + (1 - terminated) * gamma * max\<^sub>a Q(next_obs, a)\<close> and is not
  tracked for differentiation, whatever the parameters of the network: the next-state Q
  values contribute no gradient, and the loss is tracked exactly when the parameters are.
\<close>

theorem compute_td_loss_is_mse:
  assumes "0 < B" and "length os = B" and "length acts = B" and "length nos = B"
    and "length rs = B" and "length ds = B"
    and "\<forall>x\<in>set ds. x = 0 \<or> x = 1"
    and "\<forall>i<B. 0 \<le> acts ! i \<and> acts ! i < int (length (Q (os ! i)))"
    and "\<forall>i<B. Q (nos ! i) \<noteq> []"
  shows "compute_td_loss Q trainable \<gamma> os acts nos rs ds =
           Inr (td_loss_spec Q \<gamma> os acts nos rs ds, trainable) \<and>
         q_target Q trainable \<gamma> nos rs ds =
           Inr (Tensor (map (\<lambda>i. rs ! i + (1 - ds ! i) * \<gamma> * Max (set (Q (nos ! i)))) [0..<B])
                  False)"
proof -
  note g = gather_network[OF assms(3,2,8), of trainable]
  note t = q_target_value[OF assms(4,5,6,9), of trainable \<gamma>]
  have "compute_td_loss Q trainable \<gamma> os acts nos rs ds =
          Inr ((\<Sum>i<B. (rs ! i + (1 - ds ! i) * \<gamma> * Max (set (Q (nos ! i)))
                        - Q (os ! i) ! nat (acts ! i))\<^sup>2) / real B, trainable)"
    unfolding compute_td_loss_def Let_def g t
    by (simp add: mse_loss_value[OF assms(1)])
  then have "compute_td_loss Q trainable \<gamma> os acts nos rs ds =
           Inr (td_loss_spec Q \<gamma> os acts nos rs ds, trainable)"
    using assms(2) by (simp add: td_loss_spec_def)
  with t show ?thesis by blast
qed

text \<open>
  A batch of two transitions, the second terminal, for a network with three actions.
\<close>

theorem compute_td_loss_is_mse_witness:
  "compute_td_loss (\<lambda>x::real. [x, 2 * x, 1]) True (1 / 2) [1, 2] [0, 1] [3, 4] [1, 1] [0, 1] =
     Inr (9, True) \<and>
   q_target (\<lambda>x::real. [x, 2 * x, 1]) True (1 / 2) [3, 4] [1, 1] [0, 1] =
     Inr (Tensor [4, 1] False)"
proof -
  have "compute_td_loss (\<lambda>x::real. [x, 2 * x, 1]) True (1 / 2) [1, 2] [0, 1] [3, 4] [1, 1] [0, 1] =
           Inr (td_loss_spec (\<lambda>x::real. [x, 2 * x, 1]) (1 / 2) [1, 2] [0, 1] [3, 4] [1, 1] [0, 1], True) \<and>
         q_target (\<lambda>x::real. [x, 2 * x, 1]) True (1 / 2) [3, 4] [1, 1] [0, 1] =
           Inr (Tensor (map (\<lambda>i. [1, 1] ! i + (1 - [0, 1] ! i) * (1 / 2) *
                                  Max (set ((\<lambda>x::real. [x, 2 * x, 1]) ([3, 4] ! i)))) [0..<2])
                  False)"
    by (rule compute_td_loss_is_mse) (simp_all add: nth_Cons' less_Suc_eq numeral_2_eq_2)
  moreover have "[0..<2] = [0, 1]" by (simp add: upt_rec)
  moreover have "{..<2::nat} = {0, 1}" by auto
  ultimately show ?thesis
    by (simp add: td_loss_spec_def)
qed

section \<open>The replay buffer: circular overwrite\<close>

lemma bind_Inr [simp]: "bind (Inr x) f = f x"
  by (simp add: bind_def)

lemma bind_Inl [simp]: "bind (Inl e) f = Inl e"
  by (simp add: bind_def)

lemma bind_eq_Inr: "bind m f = Inr y \<longleftrightarrow> (\<exists>x. m = Inr x \<and> f x = Inr y)"
  by (cases m) simp_all

lemma py_getitem_nat:
  "py_getitem xs (int i) = (if i < length xs then Inr (xs ! i) else Inl IndexError)"
  by (simp add: py_getitem_def Let_def)

lemma py_setitem_nonneg:
  "0 \<le> i \<Longrightarrow> py_setitem xs i v =
     (if i < int (length xs) then Inr (xs[nat i := v]) else Inl IndexError)"
  by (simp add: py_setitem_def Let_def)

lemma store_eq:
  "0 \<le> idx \<Longrightarrow> idx < int (length items) \<Longrightarrow>
   store items idx arr i =
     (if i < length arr then Inr (items[nat idx := Some (arr ! i)]) else Inl IndexError)"
  by (simp add: store_def py_getitem_nat py_setitem_nonneg)

lemma add_row_eq:
  assumes cap: "1 \<le> ReplayBuffer.capacity b" and sz: "storage_sized b"
  shows "add_row b e i = (if has_rows e (Suc i) then Inr (put_row b e i) else Inl IndexError)"
proof -
  define idx where "idx = (recent_idx b + 1) mod ReplayBuffer.capacity b"
  have i0: "0 \<le> idx" and i1: "idx < ReplayBuffer.capacity b"
    using cap by (simp_all add: idx_def)
  have len: "idx < int (length (obs b))" "idx < int (length (action b))"
    "idx < int (length (next_obs b))" "idx < int (length (reward b))"
    "idx < int (length (terminated b))"
    using sz i1 cap by (simp_all add: storage_sized_def)
  have ne: "ReplayBuffer.capacity b \<noteq> 0" using cap by simp
  show ?thesis
    unfolding add_row_def Let_def
    using ne
    by (simp add: idx_def[symmetric] store_eq[OF i0] len has_rows_def put_row_def Let_def
        Suc_le_eq)
qed

lemma put_row_fields [simp]:
  "ReplayBuffer.capacity (put_row b e i) = ReplayBuffer.capacity b"
  "ReplayBuffer.num_envs (put_row b e i) = ReplayBuffer.num_envs b"
  "ReplayBuffer.training_freq (put_row b e i) = ReplayBuffer.training_freq b"
  "sampled_batch_size (put_row b e i) = sampled_batch_size b"
  "n_step (put_row b e i) = n_step b"
  "recent_idx (put_row b e i) = (recent_idx b + 1) mod ReplayBuffer.capacity b"
  "count (put_row b e i) = min (count b + 1) (ReplayBuffer.capacity b)"
  by (simp_all add: put_row_def Let_def)

lemma put_row_sized: "storage_sized b \<Longrightarrow> storage_sized (put_row b e i)"
  by (simp add: storage_sized_def put_row_def Let_def)

lemma put_row_slot:
  assumes "storage_sized b" and "j < nat (ReplayBuffer.capacity b)"
  shows "slot (put_row b e i) j =
     (if j = nat ((recent_idx b + 1) mod ReplayBuffer.capacity b) then row e i else slot b j)"
  using assms by (simp add: slot_def row_def put_row_def Let_def storage_sized_def)

lemma put_row_filled:
  assumes "storage_sized b" and "j < nat (ReplayBuffer.capacity b)"
  shows "filled (put_row b e i) j \<longleftrightarrow>
     j = nat ((recent_idx b + 1) mod ReplayBuffer.capacity b) \<or> filled b j"
  using assms by (auto simp add: filled_def put_row_def Let_def storage_sized_def nth_list_update)

lemma storage_sized_n_step [simp]: "storage_sized (b\<lparr>n_step := x\<rparr>) = storage_sized b"
  by (simp add: storage_sized_def)

lemma slot_n_step [simp]: "slot (b\<lparr>n_step := x\<rparr>) j = slot b j"
  by (simp add: slot_def)

lemma add_single:
  assumes cap: "1 \<le> ReplayBuffer.capacity b" and ne: "ReplayBuffer.num_envs b = 1"
    and sz: "storage_sized b"
  shows "add b e = (if has_rows e 1 then Inr (put_row (b\<lparr>n_step := n_step b + 1\<rparr>) e 0)
                    else Inl IndexError)"
proof -
  have "add_row (b\<lparr>n_step := n_step b + 1\<rparr>) e 0 =
          (if has_rows e (Suc 0) then Inr (put_row (b\<lparr>n_step := n_step b + 1\<rparr>) e 0)
           else Inl IndexError)"
    using cap sz by (intro add_row_eq) simp_all
  then show ?thesis using ne by (simp add: add_def)
qed

lemma add_all_append: "add_all b (es @ [e]) = bind (add_all b es) (\<lambda>b'. add b' e)"
proof (induction es arbitrary: b)
  case Nil
  show ?case by (cases "add b e") simp_all
next
  case (Cons a es)
  then show ?case by (cases "add b a") simp_all
qed

lemma mod_window_distinct:
  fixes i k c :: nat
  assumes "i < k" and "k - i < c"
  shows "i mod c \<noteq> k mod c"
proof
  assume "i mod c = k mod c"
  then have "k mod c = i mod c" by simp
  then have "c dvd k - i" using assms(1) by (simp add: mod_eq_dvd_iff_nat)
  moreover have "0 < k - i" using assms(1) by simp
  ultimately have "c \<le> k - i" by (simp add: dvd_imp_le)
  with assms(2) show False by simp
qed

lemma add_all_run:
  assumes cap: "1 \<le> ReplayBuffer.capacity b" and ne: "ReplayBuffer.num_envs b = 1"
  shows "\<forall>x\<in>set es. has_rows x 1 \<Longrightarrow>
         \<exists>b1. add_all (reset b) es = Inr b1 \<and> storage_sized b1 \<and>
           ReplayBuffer.capacity b1 = ReplayBuffer.capacity b \<and>
           ReplayBuffer.num_envs b1 = 1 \<and>
           count b1 = min (int (length es)) (ReplayBuffer.capacity b) \<and>
           (recent_idx b1 + 1) mod ReplayBuffer.capacity b = int (length es) mod ReplayBuffer.capacity b \<and>
           (\<forall>i<length es. length es - i \<le> nat (ReplayBuffer.capacity b) \<longrightarrow>
               slot b1 (i mod nat (ReplayBuffer.capacity b)) = row (es ! i) 0)"
proof (induction es rule: rev_induct)
  case Nil
  show ?case using cap ne by (simp add: reset_def storage_sized_def)
next
  case (snoc e es)
  define C where "C = ReplayBuffer.capacity b"
  define c where "c = nat C"
  define k where "k = length es"
  have C: "C = int c" and c1: "1 \<le> c" using cap by (simp_all add: c_def C_def)
  from snoc.prems have rows: "\<forall>x\<in>set es. has_rows x 1" and re: "has_rows e 1" by simp_all
  from snoc.IH[OF rows] obtain b1 where
    run: "add_all (reset b) es = Inr b1" and sz: "storage_sized b1"
    and cp: "ReplayBuffer.capacity b1 = C" and nv: "ReplayBuffer.num_envs b1 = 1"
    and ct: "count b1 = min (int k) C"
    and rc: "(recent_idx b1 + 1) mod C = int k mod C"
    and sl: "\<forall>i<k. k - i \<le> c \<longrightarrow> slot b1 (i mod c) = row (es ! i) 0"
    unfolding C_def[symmetric] c_def[symmetric] k_def[symmetric] by blast
  define b2 where "b2 = put_row (b1\<lparr>n_step := n_step b1 + 1\<rparr>) e 0"
  have cap1: "1 \<le> ReplayBuffer.capacity b1" using cp cap by (simp add: C_def)
  have a: "add b1 e = Inr b2"
    using add_single[OF cap1 nv sz, of e] re by (simp add: b2_def)
  have run2: "add_all (reset b) (es @ [e]) = Inr b2"
    by (simp add: add_all_append run a)
  have sz2: "storage_sized b2" by (simp add: b2_def put_row_sized sz)
  have cp2: "ReplayBuffer.capacity b2 = C" and nv2: "ReplayBuffer.num_envs b2 = 1"
    by (simp_all add: b2_def cp nv)
  have ct2: "count b2 = min (int (Suc k)) C"
    using ct by (simp add: b2_def cp)
  have ri2: "recent_idx b2 = int k mod C" using rc by (simp add: b2_def cp)
  have rc2: "(recent_idx b2 + 1) mod C = int (Suc k) mod C"
  proof -
    have "(int k mod C + 1) mod C = (int k + 1) mod C" by (rule mod_add_left_eq)
    then show ?thesis unfolding ri2 by (simp add: add.commute)
  qed
  have widx: "nat ((recent_idx (b1\<lparr>n_step := n_step b1 + 1\<rparr>) + 1)
                 mod ReplayBuffer.capacity (b1\<lparr>n_step := n_step b1 + 1\<rparr>)) = k mod c"
    using rc by (simp add: cp C nat_mod_distrib)
  have slot2: "\<And>j. j < c \<Longrightarrow> slot b2 j = (if j = k mod c then row e 0 else slot b1 j)"
  proof -
    fix j assume "j < c"
    then have "j < nat (ReplayBuffer.capacity (b1\<lparr>n_step := n_step b1 + 1\<rparr>))"
      by (simp add: cp c_def)
    from put_row_slot[of "b1\<lparr>n_step := n_step b1 + 1\<rparr>" j e 0, OF _ this] sz
    show "slot b2 j = (if j = k mod c then row e 0 else slot b1 j)"
      unfolding b2_def widx by simp
  qed
  have cpos: "0 < c" using c1 by simp
  have sl2: "\<forall>i<Suc k. Suc k - i \<le> c \<longrightarrow> slot b2 (i mod c) = row ((es @ [e]) ! i) 0"
  proof (intro allI impI)
    fix i assume i: "i < Suc k" and w: "Suc k - i \<le> c"
    have jc: "i mod c < c" using cpos by simp
    show "slot b2 (i mod c) = row ((es @ [e]) ! i) 0"
    proof (cases "i = k")
      case True
      then show ?thesis using slot2[OF jc] by (simp add: k_def)
    next
      case False
      with i have ik: "i < k" by simp
      with w have "k - i < c" by simp
      with ik have "i mod c \<noteq> k mod c" by (rule mod_window_distinct)
      moreover from w ik have "k - i \<le> c" by simp
      with sl ik have "slot b1 (i mod c) = row (es ! i) 0" by blast
      ultimately show ?thesis using slot2[OF jc] ik by (simp add: nth_append k_def)
    qed
  qed
  show ?case
    unfolding C_def[symmetric] c_def[symmetric]
    using run2 sz2 cp2 nv2 ct2 rc2 sl2 by (simp add: k_def)
qed

text \<open>
  Claim C2. For a replay buffer with capacity \<open>C \<ge> 1\<close> and one environment, \<open>add\<close> stores
  the experience at the index \<open>(recent_idx + 1) mod C\<close>, leaves every other slot as it was
  and sets \<open>count\<close> to \<open>min (count + 1) C\<close>, so that \<open>count\<close> never exceeds \<open>C\<close>. After the
  experiences \<open>es\<close> were added to the reset buffer, \<open>count\<close> is \<open>min (length es) C\<close>; once
  at least \<open>C\<close> of them were added, the buffer holds the last \<open>C\<close> experiences, experience
  number \<open>i\<close> in slot \<open>i mod C\<close>, and a further \<open>add\<close> writes to the slot of the oldest of
  them, experience number \<open>length es - C\<close>.
\<close>

theorem add_circular_overwrite:
  assumes "1 \<le> ReplayBuffer.capacity b" and "ReplayBuffer.num_envs b = 1"
    and "storage_sized b" and "has_rows e 1" and "\<forall>x\<in>set es. has_rows x 1"
  shows "(\<exists>b'. add b e = Inr b' \<and>
            recent_idx b' = (recent_idx b + 1) mod ReplayBuffer.capacity b \<and>
            count b' = min (count b + 1) (ReplayBuffer.capacity b) \<and>
            count b' \<le> ReplayBuffer.capacity b \<and>
            slot b' (nat (recent_idx b')) = row e 0 \<and>
            (\<forall>j<nat (ReplayBuffer.capacity b). j \<noteq> nat (recent_idx b') \<longrightarrow> slot b' j = slot b j)) \<and>
         (\<exists>b1. add_all (reset b) es = Inr b1 \<and>
            count b1 = min (int (length es)) (ReplayBuffer.capacity b) \<and>
            count b1 \<le> ReplayBuffer.capacity b \<and>
            (nat (ReplayBuffer.capacity b) \<le> length es \<longrightarrow>
               (\<forall>i<length es. length es - nat (ReplayBuffer.capacity b) \<le> i \<longrightarrow>
                   slot b1 (i mod nat (ReplayBuffer.capacity b)) = row (es ! i) 0) \<and>
               (\<exists>b2. add b1 e = Inr b2 \<and>
                   nat (recent_idx b2) =
                     (length es - nat (ReplayBuffer.capacity b)) mod nat (ReplayBuffer.capacity b) \<and>
                   slot b2 (nat (recent_idx b2)) = row e 0)))"
proof (rule conjI)
  define C where "C = ReplayBuffer.capacity b"
  define b' where "b' = put_row (b\<lparr>n_step := n_step b + 1\<rparr>) e 0"
  have a: "add b e = Inr b'"
    using add_single[OF assms(1,2,3), of e] assms(4) by (simp add: b'_def)
  have r: "recent_idx b' = (recent_idx b + 1) mod C" by (simp add: b'_def C_def)
  have i0: "0 \<le> recent_idx b'" and i1: "recent_idx b' < C"
    using assms(1) by (simp_all add: r C_def)
  have c: "count b' = min (count b + 1) C" by (simp add: b'_def C_def)
  have sl: "\<And>j. j < nat C \<Longrightarrow> slot b' j = (if j = nat (recent_idx b') then row e 0 else slot b j)"
  proof -
    fix j assume "j < nat C"
    then have "j < nat (ReplayBuffer.capacity (b\<lparr>n_step := n_step b + 1\<rparr>))" by (simp add: C_def)
    from put_row_slot[of "b\<lparr>n_step := n_step b + 1\<rparr>" j e 0, OF _ this] assms(3)
    show "slot b' j = (if j = nat (recent_idx b') then row e 0 else slot b j)"
      by (simp add: b'_def)
  qed
  have "nat (recent_idx b') < nat C" using i0 i1 by simp
  then have s1: "slot b' (nat (recent_idx b')) = row e 0" using sl by simp
  have s2: "\<forall>j<nat C. j \<noteq> nat (recent_idx b') \<longrightarrow> slot b' j = slot b j" using sl by simp
  show "\<exists>b'. add b e = Inr b' \<and>
            recent_idx b' = (recent_idx b + 1) mod ReplayBuffer.capacity b \<and>
            count b' = min (count b + 1) (ReplayBuffer.capacity b) \<and>
            count b' \<le> ReplayBuffer.capacity b \<and>
            slot b' (nat (recent_idx b')) = row e 0 \<and>
            (\<forall>j<nat (ReplayBuffer.capacity b). j \<noteq> nat (recent_idx b') \<longrightarrow> slot b' j = slot b j)"
    unfolding C_def[symmetric]
    using a r c s1 s2 by (intro exI[of _ b']) simp
next
  define C where "C = ReplayBuffer.capacity b"
  define c where "c = nat C"
  define k where "k = length es"
  have C: "C = int c" and cpos: "0 < c" using assms(1) by (simp_all add: c_def C_def)
  from add_all_run[OF assms(1,2,5)] obtain b1 where
    run: "add_all (reset b) es = Inr b1" and sz: "storage_sized b1"
    and cp: "ReplayBuffer.capacity b1 = C" and nv: "ReplayBuffer.num_envs b1 = 1"
    and ct: "count b1 = min (int k) C"
    and rc: "(recent_idx b1 + 1) mod C = int k mod C"
    and sl: "\<forall>i<k. k - i \<le> c \<longrightarrow> slot b1 (i mod c) = row (es ! i) 0"
    unfolding C_def[symmetric] c_def[symmetric] k_def[symmetric] by blast
  have full: "(\<forall>i<k. k - c \<le> i \<longrightarrow> slot b1 (i mod c) = row (es ! i) 0) \<and>
              (\<exists>b2. add b1 e = Inr b2 \<and> nat (recent_idx b2) = (k - c) mod c \<and>
                    slot b2 (nat (recent_idx b2)) = row e 0)"
    if ck: "c \<le> k"
  proof (rule conjI)
    show "\<forall>i<k. k - c \<le> i \<longrightarrow> slot b1 (i mod c) = row (es ! i) 0"
    proof (intro allI impI)
      fix i assume "i < k" and "k - c \<le> i"
      then have "k - i \<le> c" by simp
      with sl \<open>i < k\<close> show "slot b1 (i mod c) = row (es ! i) 0" by blast
    qed
  next
    define b2 where "b2 = put_row (b1\<lparr>n_step := n_step b1 + 1\<rparr>) e 0"
    have cap1: "1 \<le> ReplayBuffer.capacity b1" using cp assms(1) by (simp add: C_def)
    have a: "add b1 e = Inr b2"
      using add_single[OF cap1 nv sz, of e] assms(4) by (simp add: b2_def)
    have ri: "recent_idx b2 = int k mod C" using rc by (simp add: b2_def cp)
    then have "nat (recent_idx b2) = k mod c" by (simp add: C nat_mod_distrib)
    also have "\<dots> = (k - c) mod c" using ck by (rule le_mod_geq)
    finally have w: "nat (recent_idx b2) = (k - c) mod c" .
    have jc: "nat (recent_idx b2) < nat (ReplayBuffer.capacity (b1\<lparr>n_step := n_step b1 + 1\<rparr>))"
      using w cpos by (simp add: cp c_def)
    from put_row_slot[of "b1\<lparr>n_step := n_step b1 + 1\<rparr>" "nat (recent_idx b2)" e 0, OF _ jc] sz
    have "slot b2 (nat (recent_idx b2)) = row e 0"
      by (simp add: b2_def)
    with a w show "\<exists>b2. add b1 e = Inr b2 \<and> nat (recent_idx b2) = (k - c) mod c \<and>
                    slot b2 (nat (recent_idx b2)) = row e 0"
      by blast
  qed
  have le: "count b1 \<le> C" using ct by simp
  show "\<exists>b1. add_all (reset b) es = Inr b1 \<and>
            count b1 = min (int (length es)) (ReplayBuffer.capacity b) \<and>
            count b1 \<le> ReplayBuffer.capacity b \<and>
            (nat (ReplayBuffer.capacity b) \<le> length es \<longrightarrow>
               (\<forall>i<length es. length es - nat (ReplayBuffer.capacity b) \<le> i \<longrightarrow>
                   slot b1 (i mod nat (ReplayBuffer.capacity b)) = row (es ! i) 0) \<and>
               (\<exists>b2. add b1 e = Inr b2 \<and>
                   nat (recent_idx b2) =
                     (length es - nat (ReplayBuffer.capacity b)) mod nat (ReplayBuffer.capacity b) \<and>
                   slot b2 (nat (recent_idx b2)) = row e 0))"
    unfolding C_def[symmetric] c_def[symmetric] k_def[symmetric]
    using run ct le full by (intro exI[of _ b1]) blast
qed

text \<open>
  A buffer of two slots: three experiences are added, the second and the third remain, and
  the fourth goes to slot 1, over the second.
\<close>

theorem add_circular_overwrite_witness:
  "(\<exists>b'. add (ReplayBuffer_init 1 1 2 1) (example_experience 4) = Inr b' \<and>
         recent_idx b' = 0 \<and> count b' = 1 \<and> slot b' 0 = row (example_experience 4) 0) \<and>
   (\<exists>b1. add_all (reset (ReplayBuffer_init 1 1 2 1))
            [example_experience 1, example_experience 2, example_experience 3] = Inr b1 \<and>
         count b1 = 2 \<and>
         slot b1 1 = row (example_experience 2) 0 \<and>
         slot b1 0 = row (example_experience 3) 0 \<and>
         (\<exists>b2. add b1 (example_experience 4) = Inr b2 \<and> nat (recent_idx b2) = 1 \<and>
               slot b2 1 = row (example_experience 4) 0))"
proof -
  let ?b = "ReplayBuffer_init 1 1 2 1 :: nat ReplayBuffer"
  let ?es = "[example_experience 1, example_experience 2, example_experience 3]"
  let ?e = "example_experience 4"
  have cap: "ReplayBuffer.capacity ?b = 2" and ri: "recent_idx ?b = - 1" and ct: "count ?b = 0"
    by (simp_all add: ReplayBuffer_init_def reset_def)
  have h1: "1 \<le> ReplayBuffer.capacity ?b" by (simp add: cap)
  have h2: "ReplayBuffer.num_envs ?b = 1" by (simp add: ReplayBuffer_init_def reset_def)
  have h3: "storage_sized ?b" by (simp add: ReplayBuffer_init_def reset_def storage_sized_def)
  have h4: "has_rows ?e 1" by (simp add: has_rows_def example_experience_def)
  have h5: "\<forall>x\<in>set ?es. has_rows x 1" by (simp add: has_rows_def example_experience_def)
  note T = add_circular_overwrite[OF h1 h2 h3 h4 h5]
  from conjunct1[OF T] obtain b' where
    A: "add ?b ?e = Inr b' \<and>
        recent_idx b' = (recent_idx ?b + 1) mod ReplayBuffer.capacity ?b \<and>
        count b' = min (count ?b + 1) (ReplayBuffer.capacity ?b) \<and>
        count b' \<le> ReplayBuffer.capacity ?b \<and>
        slot b' (nat (recent_idx b')) = row ?e 0 \<and>
        (\<forall>j<nat (ReplayBuffer.capacity ?b). j \<noteq> nat (recent_idx b') \<longrightarrow> slot b' j = slot ?b j)" ..
  have a1: "add ?b ?e = Inr b'" using A by (rule conjunct1)
  have a2: "recent_idx b' = 0" using conjunct1[OF conjunct2[OF A]] by (simp add: cap ri)
  have a3: "count b' = 1" using conjunct1[OF conjunct2[OF conjunct2[OF A]]] by (simp add: cap ct)
  have a4: "slot b' 0 = row ?e 0"
    using conjunct1[OF conjunct2[OF conjunct2[OF conjunct2[OF conjunct2[OF A]]]]] by (simp add: a2)
  have P1: "\<exists>b'. add ?b ?e = Inr b' \<and> recent_idx b' = 0 \<and> count b' = 1 \<and> slot b' 0 = row ?e 0"
    using a1 a2 a3 a4 by blast
  from conjunct2[OF T] obtain b1 where
    B: "add_all (reset ?b) ?es = Inr b1 \<and>
        count b1 = min (int (length ?es)) (ReplayBuffer.capacity ?b) \<and>
        count b1 \<le> ReplayBuffer.capacity ?b \<and>
        (nat (ReplayBuffer.capacity ?b) \<le> length ?es \<longrightarrow>
           (\<forall>i<length ?es. length ?es - nat (ReplayBuffer.capacity ?b) \<le> i \<longrightarrow>
               slot b1 (i mod nat (ReplayBuffer.capacity ?b)) = row (?es ! i) 0) \<and>
           (\<exists>b2. add b1 ?e = Inr b2 \<and>
               nat (recent_idx b2) =
                 (length ?es - nat (ReplayBuffer.capacity ?b)) mod nat (ReplayBuffer.capacity ?b) \<and>
               slot b2 (nat (recent_idx b2)) = row ?e 0))" ..
  have b1: "add_all (reset ?b) ?es = Inr b1" using B by (rule conjunct1)
  have b2: "count b1 = 2" using conjunct1[OF conjunct2[OF B]] by (simp add: cap)
  have W: "(\<forall>i<3. 1 \<le> i \<longrightarrow> slot b1 (i mod 2) = row (?es ! i) 0) \<and>
           (\<exists>b2. add b1 ?e = Inr b2 \<and> nat (recent_idx b2) = 1 \<and>
               slot b2 (nat (recent_idx b2)) = row ?e 0)"
    using conjunct2[OF conjunct2[OF conjunct2[OF B]]] by (simp add: cap)
  have b3: "slot b1 1 = row (example_experience 2) 0"
    using spec[OF conjunct1[OF W], of "1::nat"] by simp
  have b4: "slot b1 0 = row (example_experience 3) 0"
    using spec[OF conjunct1[OF W], of "2::nat"] by simp
  from conjunct2[OF W] obtain c2 where
    c: "add b1 ?e = Inr c2" "nat (recent_idx c2) = 1" "slot c2 (nat (recent_idx c2)) = row ?e 0"
    by blast
  from c(2,3) have c3: "slot c2 1 = row ?e 0" by simp
  have P2: "\<exists>b1. add_all (reset ?b) ?es = Inr b1 \<and> count b1 = 2 \<and>
         slot b1 1 = row (example_experience 2) 0 \<and>
         slot b1 0 = row (example_experience 3) 0 \<and>
         (\<exists>b2. add b1 ?e = Inr b2 \<and> nat (recent_idx b2) = 1 \<and> slot b2 1 = row ?e 0)"
    using b1 b2 b3 b4 c(1,2) c3 by blast
  show ?thesis using P1 P2 by (rule conjI)
qed

section \<open>The replay buffer: invariant and sampling\<close>

lemma list_all_upt: "list_all P [0..<n] \<longleftrightarrow> (\<forall>j<n. P j)"
  by (auto simp add: list_all_iff)

lemma filled_n_step [simp]: "filled (b\<lparr>n_step := x\<rparr>) = filled b"
  by (rule ext) (simp add: filled_def)

lemma buffer_wf_n_step [simp]: "buffer_wf (b\<lparr>n_step := x\<rparr>) = buffer_wf b"
  by (simp add: buffer_wf_def buffer_inv_def storage_sized_def)

lemma buffer_wf_reset:
  assumes "0 \<le> ReplayBuffer.capacity b"
  shows "buffer_wf (reset b)"
  using assms
  by (simp add: buffer_wf_def buffer_inv_def storage_sized_def reset_def)

lemma buffer_wf_init:
  assumes "0 \<le> c"
  shows "buffer_wf (ReplayBuffer_init tf sbs c ne)"
  unfolding ReplayBuffer_init_def using assms by (intro buffer_wf_reset) simp

lemma buffer_wf_capacity: "buffer_wf b \<Longrightarrow> 0 \<le> ReplayBuffer.capacity b"
  by (simp add: buffer_wf_def buffer_inv_def)

lemma put_row_wf:
  assumes wf: "buffer_wf b" and cap: "1 \<le> ReplayBuffer.capacity b"
  shows "buffer_wf (put_row b e i)"
proof -
  define C where "C = ReplayBuffer.capacity b"
  define idx where "idx = (recent_idx b + 1) mod C"
  have sz: "storage_sized b" and c0: "0 \<le> count b" and c1: "count b \<le> C"
    and fl: "\<And>j. j < nat (count b) \<Longrightarrow> filled b j"
    and rc: "count b < C \<Longrightarrow> recent_idx b = count b - 1"
    using wf by (simp_all add: buffer_wf_def buffer_inv_def list_all_upt C_def split: if_splits)
  have i0: "0 \<le> idx" and i1: "idx < C" using cap by (simp_all add: idx_def C_def)
  have idx_count: "count b < C \<Longrightarrow> idx = count b"
    using rc c0 by (simp add: idx_def)
  have fl': "filled (put_row b e i) j" if j: "j < nat (min (count b + 1) C)" for j
  proof -
    have jc: "j < nat C" using j by simp
    have pf: "filled (put_row b e i) j \<longleftrightarrow> j = nat idx \<or> filled b j"
      using put_row_filled[OF sz, of j e i] jc by (simp add: C_def idx_def)
    show ?thesis
    proof (cases "count b < C")
      case True
      then have "idx = count b" by (rule idx_count)
      moreover from True j c0 have "j < nat (count b) \<or> j = nat (count b)" by auto
      ultimately show ?thesis using pf fl by auto
    next
      case False
      with c1 j have "j < nat (count b)" by simp
      then show ?thesis using pf fl by simp
    qed
  qed
  have inv: "buffer_inv (put_row b e i)"
    using c0 cap fl' by (simp add: buffer_inv_def list_all_upt C_def)
  have r0: "- 1 \<le> recent_idx (put_row b e i)"
    using i0 by (simp add: C_def idx_def)
  have r1: "recent_idx (put_row b e i) < max 1 (ReplayBuffer.capacity (put_row b e i))"
    using i1 by (simp add: C_def idx_def)
  have rec: "if count (put_row b e i) < ReplayBuffer.capacity (put_row b e i)
             then recent_idx (put_row b e i) = count (put_row b e i) - 1 else True"
  proof (cases "count b + 1 < C")
    case True
    then have "idx = count b" using idx_count by simp
    with True show ?thesis by (simp add: C_def idx_def)
  next
    case False
    then show ?thesis by (simp add: C_def)
  qed
  show ?thesis
    unfolding buffer_wf_def
    using put_row_sized[OF sz, of e i] inv r0 r1 rec by (intro conjI)
qed

lemma add_row_wf:
  assumes "buffer_wf b" and "add_row b e i = Inr b'"
  shows "buffer_wf b'"
proof (cases "ReplayBuffer.capacity b = 0")
  case True
  with assms(2) show ?thesis by (simp add: add_row_def)
next
  case False
  with buffer_wf_capacity[OF assms(1)] have cap: "1 \<le> ReplayBuffer.capacity b" by simp
  have sz: "storage_sized b" using assms(1) by (simp add: buffer_wf_def)
  from assms(2) have "b' = put_row b e i"
    by (simp add: add_row_eq[OF cap sz] split: if_splits)
  with put_row_wf[OF assms(1) cap] show ?thesis by simp
qed

lemma add_loop_wf:
  "buffer_wf b \<Longrightarrow> add_loop b e is = Inr b' \<Longrightarrow> buffer_wf b'"
proof (induction "is" arbitrary: b)
  case Nil
  then show ?case by simp
next
  case (Cons i "is")
  from Cons.prems(2) obtain b1 where
    a: "add_row b e i = Inr b1" and l: "add_loop b1 e is = Inr b'"
    by (auto simp add: bind_eq_Inr)
  from add_row_wf[OF Cons.prems(1) a] l show ?case by (rule Cons.IH)
qed

lemma add_wf: "buffer_wf b \<Longrightarrow> add b e = Inr b' \<Longrightarrow> buffer_wf b'"
  using add_loop_wf[of "b\<lparr>n_step := n_step b + 1\<rparr>" e _ b'] by (simp add: add_def)

lemma sample_idxs_n_step [simp]: "sample_idxs (b\<lparr>n_step := x\<rparr>) rng = sample_idxs b rng"
  by (simp add: sample_idxs_def)

lemma sample_idxs_range:
  assumes "sample_idxs b rng = Inr idxs" and "i \<in> set idxs"
  shows "0 \<le> i \<and> i < count b"
proof -
  from assms have pos: "0 < count b"
    and idxs: "idxs = map (\<lambda>k. int (rng k mod nat (count b))) [0..<nat (sampled_batch_size b)]"
    by (auto simp add: sample_idxs_def split: if_splits)
  from assms(2) idxs obtain k where "i = int (rng k mod nat (count b))" by auto
  moreover have "rng k mod nat (count b) < nat (count b)" using pos by simp
  then have "int (rng k mod nat (count b)) < int (nat (count b))" by (simp only: of_nat_less_iff)
  moreover have "int (nat (count b)) = count b" using pos by simp
  ultimately show ?thesis by simp
qed

lemma py_getitem_nonneg:
  "0 \<le> i \<Longrightarrow> py_getitem xs i =
     (if i < int (length xs) then Inr (xs ! nat i) else Inl IndexError)"
  by (simp add: py_getitem_def Let_def)

lemma get_items_eq:
  "\<forall>i\<in>set idxs. 0 \<le> i \<and> i < int (length items) \<Longrightarrow>
   get_items items idxs = Inr (map (\<lambda>i. items ! nat i) idxs)"
  by (induction idxs) (simp_all add: py_getitem_nonneg)

lemma get_batch_tensor_entries:
  assumes "\<forall>i\<in>set idxs. 0 \<le> i \<and> i < int (length items)" and "idxs \<noteq> []"
  shows "\<exists>r. get_batch_tensor items idxs = Inr r \<and> entries r = map (\<lambda>i. items ! nat i) idxs"
proof (cases idxs)
  case Nil
  with assms(2) show ?thesis by simp
next
  case (Cons i rest)
  show ?thesis
  proof (cases rest)
    case Nil
    with Cons assms(1) show ?thesis
      by (simp add: get_batch_tensor_def py_getitem_nonneg)
  next
    case (Cons j rest')
    with \<open>idxs = i # rest\<close> have "get_batch_tensor items idxs =
        bind (get_items items idxs) (\<lambda>xs. Inr (Stack xs))"
      by (simp add: get_batch_tensor_def)
    with get_items_eq[OF assms(1)] show ?thesis by simp
  qed
qed

lemma get_batch_tensor_Nil [simp]: "get_batch_tensor items [] = Inl TypeError"
  by (simp add: get_batch_tensor_def)

lemma no_None_entries:
  "entries r = map (\<lambda>i. items ! nat i) idxs \<Longrightarrow>
   \<forall>i\<in>set idxs. items ! nat i \<noteq> None \<Longrightarrow> no_None r"
  by (simp add: no_None_def list_all_iff)

lemma wf_drawn_filled:
  assumes wf: "buffer_wf b" and s: "sample_idxs b rng = Inr idxs" and i: "i \<in> set idxs"
  shows "0 \<le> i \<and> i < count b \<and> filled b (nat i)"
proof -
  from sample_idxs_range[OF s i] have r: "0 \<le> i" "i < count b" by simp_all
  then have "nat i < nat (count b)" by simp
  moreover from wf have "\<forall>j<nat (count b). filled b j"
    by (simp add: buffer_wf_def buffer_inv_def list_all_upt)
  ultimately show ?thesis using r by simp
qed

text \<open>
  What \<open>sample\<close> returns, given the indices the generator delivered: the stored rows at
  those indices, in the order of the indices, for each of the five storage lists, and none
  of them is \<open>None\<close>. With a single index the result is the row itself, without a batch
  axis. How the indices are distributed is not part of the model.
\<close>

lemma sample_returns_drawn:
  assumes wf: "buffer_wf b" and s: "sample_idxs b rng = Inr idxs" and ne: "idxs \<noteq> []"
  shows "\<exists>ob ac nob rw tm.
           sample b rng = Inr ((ob, ac, nob, rw, tm), b\<lparr>n_step := 0\<rparr>) \<and>
           entries ob = map (\<lambda>i. obs b ! nat i) idxs \<and>
           entries ac = map (\<lambda>i. action b ! nat i) idxs \<and>
           entries nob = map (\<lambda>i. next_obs b ! nat i) idxs \<and>
           entries rw = map (\<lambda>i. reward b ! nat i) idxs \<and>
           entries tm = map (\<lambda>i. terminated b ! nat i) idxs \<and>
           no_None ob \<and> no_None ac \<and> no_None nob \<and> no_None rw \<and> no_None tm"
proof -
  have f: "\<And>i. i \<in> set idxs \<Longrightarrow> 0 \<le> i \<and> filled b (nat i)"
    using wf_drawn_filled[OF wf s] by simp
  have fb: "\<And>i. i \<in> set idxs \<Longrightarrow>
      0 \<le> i \<and> i < int (length (obs b)) \<and> i < int (length (action b)) \<and>
      i < int (length (next_obs b)) \<and> i < int (length (reward b)) \<and>
      i < int (length (terminated b)) \<and>
      obs b ! nat i \<noteq> None \<and> action b ! nat i \<noteq> None \<and> next_obs b ! nat i \<noteq> None \<and>
      reward b ! nat i \<noteq> None \<and> terminated b ! nat i \<noteq> None"
  proof -
    fix i assume "i \<in> set idxs"
    then have "0 \<le> i" and "filled b (nat i)" using f by simp_all
    then show "0 \<le> i \<and> i < int (length (obs b)) \<and> i < int (length (action b)) \<and>
      i < int (length (next_obs b)) \<and> i < int (length (reward b)) \<and>
      i < int (length (terminated b)) \<and>
      obs b ! nat i \<noteq> None \<and> action b ! nat i \<noteq> None \<and> next_obs b ! nat i \<noteq> None \<and>
      reward b ! nat i \<noteq> None \<and> terminated b ! nat i \<noteq> None"
      by (simp add: filled_def nat_less_iff)
  qed
  have v1: "\<forall>i\<in>set idxs. 0 \<le> i \<and> i < int (length (obs b))"
    and v2: "\<forall>i\<in>set idxs. 0 \<le> i \<and> i < int (length (action b))"
    and v3: "\<forall>i\<in>set idxs. 0 \<le> i \<and> i < int (length (next_obs b))"
    and v4: "\<forall>i\<in>set idxs. 0 \<le> i \<and> i < int (length (reward b))"
    and v5: "\<forall>i\<in>set idxs. 0 \<le> i \<and> i < int (length (terminated b))"
    using fb by blast+
  have n1: "\<forall>i\<in>set idxs. obs b ! nat i \<noteq> None"
    and n2: "\<forall>i\<in>set idxs. action b ! nat i \<noteq> None"
    and n3: "\<forall>i\<in>set idxs. next_obs b ! nat i \<noteq> None"
    and n4: "\<forall>i\<in>set idxs. reward b ! nat i \<noteq> None"
    and n5: "\<forall>i\<in>set idxs. terminated b ! nat i \<noteq> None"
    using fb by blast+
  from get_batch_tensor_entries[OF v1 ne] obtain ob where
    g1: "get_batch_tensor (obs b) idxs = Inr ob" and e1: "entries ob = map (\<lambda>i. obs b ! nat i) idxs"
    by blast
  from get_batch_tensor_entries[OF v2 ne] obtain ac where
    g2: "get_batch_tensor (action b) idxs = Inr ac" and e2: "entries ac = map (\<lambda>i. action b ! nat i) idxs"
    by blast
  from get_batch_tensor_entries[OF v3 ne] obtain nob where
    g3: "get_batch_tensor (next_obs b) idxs = Inr nob" and e3: "entries nob = map (\<lambda>i. next_obs b ! nat i) idxs"
    by blast
  from get_batch_tensor_entries[OF v4 ne] obtain rw where
    g4: "get_batch_tensor (reward b) idxs = Inr rw" and e4: "entries rw = map (\<lambda>i. reward b ! nat i) idxs"
    by blast
  from get_batch_tensor_entries[OF v5 ne] obtain tm where
    g5: "get_batch_tensor (terminated b) idxs = Inr tm" and e5: "entries tm = map (\<lambda>i. terminated b ! nat i) idxs"
    by blast
  have sm: "sample b rng = Inr ((ob, ac, nob, rw, tm), b\<lparr>n_step := 0\<rparr>)"
    by (simp add: sample_def Let_def s g1 g2 g3 g4 g5)
  show ?thesis
    using sm e1 e2 e3 e4 e5 no_None_entries[OF e1 n1] no_None_entries[OF e2 n2]
      no_None_entries[OF e3 n3] no_None_entries[OF e4 n4] no_None_entries[OF e5 n5]
    by blast
qed

lemma sample_Inr_idxs:
  assumes "sample b rng = Inr (r, b')"
  shows "\<exists>idxs. sample_idxs b rng = Inr idxs \<and> idxs \<noteq> []"
proof -
  from assms obtain idxs ob where
    a: "sample_idxs b rng = Inr idxs" and g: "get_batch_tensor (obs b) idxs = Inr ob"
    by (auto simp add: sample_def Let_def bind_eq_Inr)
  from g have "idxs \<noteq> []" by auto
  with a show ?thesis by blast
qed

lemma sample_idxs_total:
  assumes "1 \<le> count b" and "1 \<le> sampled_batch_size b"
  shows "\<exists>idxs. sample_idxs b rng = Inr idxs \<and> idxs \<noteq> []"
  using assms by (simp add: sample_idxs_def)

text \<open>
  Claim C9. The operations of the replay buffer keep the invariant \<open>0 \<le> count \<le> capacity\<close>
  with the slots \<open>0..count-1\<close> of the five storage lists filled. The invariant is carried by
  \<open>buffer_wf\<close>, which adds the bookkeeping that makes it inductive: a buffer built with a
  capacity of at least 0 satisfies it, \<open>reset\<close>, \<open>add\<close> and \<open>sample\<close> preserve it, and it
  implies the invariant. In such a buffer \<open>sample\<close> returns whenever \<open>count \<ge> 1\<close> and the
  batch size is at least 1, every index drawn by \<open>_sample_idxs\<close> is below \<open>count\<close> and refers
  to a filled slot, and no entry of the five batches is \<open>None\<close>.
\<close>

theorem replay_buffer_invariant:
  "(0 \<le> c \<longrightarrow> buffer_wf (ReplayBuffer_init tf sbs c ne :: 'o ReplayBuffer)) \<and>
   (buffer_wf (b :: 'o ReplayBuffer) \<longrightarrow>
      buffer_inv b \<and> buffer_wf (reset b) \<and>
      (\<forall>e b'. add b e = Inr b' \<longrightarrow> buffer_wf b') \<and>
      (\<forall>rng idxs. sample_idxs b rng = Inr idxs \<longrightarrow>
          (\<forall>i\<in>set idxs. 0 \<le> i \<and> i < count b \<and> filled b (nat i))) \<and>
      (\<forall>rng. 1 \<le> count b \<and> 1 \<le> sampled_batch_size b \<longrightarrow>
             (\<exists>r. sample b rng = Inr (r, b\<lparr>n_step := 0\<rparr>))) \<and>
      (\<forall>rng r b'. sample b rng = Inr (r, b') \<longrightarrow>
          buffer_wf b' \<and>
          (case r of (ob, ac, nob, rw, tm) \<Rightarrow>
             no_None ob \<and> no_None ac \<and> no_None nob \<and> no_None rw \<and> no_None tm)))"
proof (intro conjI impI allI ballI)
  assume "0 \<le> c"
  then show "buffer_wf (ReplayBuffer_init tf sbs c ne :: 'o ReplayBuffer)"
    by (rule buffer_wf_init)
next
  assume "buffer_wf b"
  then show "buffer_inv b" by (simp add: buffer_wf_def)
next
  assume "buffer_wf b"
  then show "buffer_wf (reset b)" by (intro buffer_wf_reset buffer_wf_capacity)
next
  fix e b'
  assume "buffer_wf b" and "add b e = Inr b'"
  then show "buffer_wf b'" by (rule add_wf)
next
  fix rng idxs i
  assume "buffer_wf b" and "sample_idxs b rng = Inr idxs" and "i \<in> set idxs"
  then have "0 \<le> i \<and> i < count b \<and> filled b (nat i)" by (rule wf_drawn_filled)
  then show "0 \<le> i" and "i < count b" and "filled b (nat i)" by simp_all
next
  fix rng
  assume wf: "buffer_wf b" and c: "1 \<le> count b \<and> 1 \<le> sampled_batch_size b"
  then obtain idxs where s: "sample_idxs b rng = Inr idxs" and ne: "idxs \<noteq> []"
    using sample_idxs_total[of b rng] by blast
  from sample_returns_drawn[OF wf s ne]
  show "\<exists>r. sample b rng = Inr (r, b\<lparr>n_step := 0\<rparr>)" by blast
next
  fix rng r b'
  assume wf: "buffer_wf b" and sm: "sample b rng = Inr (r, b')"
  from sample_Inr_idxs[OF sm] obtain idxs where
    s: "sample_idxs b rng = Inr idxs" and ne: "idxs \<noteq> []" by blast
  from sample_returns_drawn[OF wf s ne] obtain ob ac nob rw tm where
    sm': "sample b rng = Inr ((ob, ac, nob, rw, tm), b\<lparr>n_step := 0\<rparr>)"
    and nn: "no_None ob" "no_None ac" "no_None nob" "no_None rw" "no_None tm"
    by blast
  from sm sm' have r: "r = (ob, ac, nob, rw, tm)" and b': "b' = b\<lparr>n_step := 0\<rparr>" by simp_all
  show "buffer_wf b'" using wf b' by simp
  show "case r of (ob, ac, nob, rw, tm) \<Rightarrow>
             no_None ob \<and> no_None ac \<and> no_None nob \<and> no_None rw \<and> no_None tm"
    using r nn by simp
qed

text \<open>
  A buffer of two slots holding one experience: it is well formed, stays so under
  \<open>reset\<close>, \<open>add\<close> and \<open>sample\<close>, and the batch of two draws has no \<open>None\<close> entry.
\<close>

theorem replay_buffer_invariant_witness:
  "buffer_wf (ReplayBuffer_init 1 2 2 1 :: nat ReplayBuffer) \<and>
   buffer_inv (put_row (ReplayBuffer_init 1 2 2 1) (example_experience 7) 0) \<and>
   buffer_wf (reset (put_row (ReplayBuffer_init 1 2 2 1) (example_experience 7) 0)) \<and>
   (\<exists>b'. add (put_row (ReplayBuffer_init 1 2 2 1) (example_experience 7) 0) (example_experience 8)
            = Inr b' \<and> buffer_wf b') \<and>
   (\<exists>idxs. sample_idxs (put_row (ReplayBuffer_init 1 2 2 1) (example_experience 7) 0) (\<lambda>k. k)
             = Inr idxs \<and> idxs \<noteq> [] \<and>
           list_all (\<lambda>i. filled (put_row (ReplayBuffer_init 1 2 2 1) (example_experience 7) 0)
                               (nat i)) idxs) \<and>
   (\<exists>ob ac nob rw tm b'.
      sample (put_row (ReplayBuffer_init 1 2 2 1) (example_experience 7) 0) (\<lambda>k. k)
        = Inr ((ob, ac, nob, rw, tm), b') \<and>
      buffer_wf b' \<and> no_None ob \<and> no_None ac \<and> no_None nob \<and> no_None rw \<and> no_None tm)"
proof -
  let ?fresh = "ReplayBuffer_init 1 2 2 1 :: nat ReplayBuffer"
  let ?b = "put_row ?fresh (example_experience 7) 0"
  have sz: "storage_sized ?b"
    by (simp add: storage_sized_def put_row_def ReplayBuffer_init_def reset_def Let_def)
  have wf0: "buffer_wf ?fresh" by (rule buffer_wf_init) simp
  have wf: "buffer_wf ?b"
    by (rule put_row_wf[OF wf0]) (simp add: ReplayBuffer_init_def reset_def)
  note T = replay_buffer_invariant[of 2 1 2 1 ?b]
  have t1: "buffer_wf ?fresh" using conjunct1[OF T] by simp
  note U = mp[OF conjunct2[OF T] wf]
  have t2: "buffer_inv ?b" using U by (rule conjunct1)
  have t3: "buffer_wf (reset ?b)" using conjunct1[OF conjunct2[OF U]] .
  have c1: "1 \<le> ReplayBuffer.capacity ?b" and c2: "ReplayBuffer.num_envs ?b = 1"
    and pre: "1 \<le> count ?b \<and> 1 \<le> sampled_batch_size ?b"
    by (simp_all add: ReplayBuffer_init_def reset_def)
  have hr: "has_rows (example_experience 8) 1"
    by (simp add: has_rows_def example_experience_def)
  have ad: "add ?b (example_experience 8) =
              Inr (put_row (?b\<lparr>n_step := n_step ?b + 1\<rparr>) (example_experience 8) 0)"
    using add_single[OF c1 c2 sz, of "example_experience 8"] hr by (simp only: if_True)
  from conjunct1[OF conjunct2[OF conjunct2[OF U]]] ad
  have t4: "\<exists>b'. add ?b (example_experience 8) = Inr b' \<and> buffer_wf b'" by blast
  from sample_idxs_total[of ?b "\<lambda>k. k"] pre obtain idxs where
    si: "sample_idxs ?b (\<lambda>k. k) = Inr idxs" and ne: "idxs \<noteq> []" by blast
  from conjunct1[OF conjunct2[OF conjunct2[OF conjunct2[OF U]]]] si
  have "\<forall>i\<in>set idxs. 0 \<le> i \<and> i < count ?b \<and> filled ?b (nat i)" by blast
  then have "list_all (\<lambda>i. filled ?b (nat i)) idxs" by (simp add: list_all_iff)
  with si ne have t6: "\<exists>idxs. sample_idxs ?b (\<lambda>k. k) = Inr idxs \<and> idxs \<noteq> [] \<and>
           list_all (\<lambda>i. filled ?b (nat i)) idxs" by blast
  from spec[OF conjunct1[OF conjunct2[OF conjunct2[OF conjunct2[OF conjunct2[OF U]]]]], of "\<lambda>k. k"] pre
  obtain r where sm: "sample ?b (\<lambda>k. k) = Inr (r, ?b\<lparr>n_step := 0\<rparr>)"
    by blast
  obtain ob ac nob rw tm where r: "r = (ob, ac, nob, rw, tm)" by (cases r) auto
  from conjunct2[OF conjunct2[OF conjunct2[OF conjunct2[OF conjunct2[OF U]]]]] sm
  have "buffer_wf (?b\<lparr>n_step := 0\<rparr>) \<and>
        (case r of (ob, ac, nob, rw, tm) \<Rightarrow>
             no_None ob \<and> no_None ac \<and> no_None nob \<and> no_None rw \<and> no_None tm)"
    by blast
  with sm r have t5: "\<exists>ob ac nob rw tm b'.
      sample ?b (\<lambda>k. k) = Inr ((ob, ac, nob, rw, tm), b') \<and>
      buffer_wf b' \<and> no_None ob \<and> no_None ac \<and> no_None nob \<and> no_None rw \<and> no_None tm"
    by auto
  show ?thesis using t1 t2 t3 t4 t6 t5 by (intro conjI)
qed

section \<open>The replay buffer: what sampling returns\<close>


lemma get_batch_tensor_Item:
  assumes "0 \<le> i" and "i < int (length items)"
  shows "get_batch_tensor items [i] = Inr (Item (items ! nat i))"
  using assms by (simp add: get_batch_tensor_def py_getitem_nonneg)






text \<open>
  With a batch size of 1 the five results are the stored rows themselves, without a batch
  axis.
\<close>

lemma sample_single_index:
  assumes "buffer_wf b" and "1 \<le> count b" and "sampled_batch_size b = 1"
  shows "\<exists>i. sample_idxs b rng = Inr [i] \<and>
             sample b rng = Inr ((Item (obs b ! nat i), Item (action b ! nat i),
               Item (next_obs b ! nat i), Item (reward b ! nat i), Item (terminated b ! nat i)),
               b\<lparr>n_step := 0\<rparr>)"
proof -
  define i where "i = int (rng 0 mod nat (count b))"
  have s: "sample_idxs b rng = Inr [i]"
    using assms(2,3) by (simp add: sample_idxs_def i_def)
  from wf_drawn_filled[OF assms(1) s, of i] have f: "0 \<le> i" "filled b (nat i)" by simp_all
  then have l: "i < int (length (obs b))" "i < int (length (action b))"
    "i < int (length (next_obs b))" "i < int (length (reward b))"
    "i < int (length (terminated b))"
    by (simp_all add: filled_def nat_less_iff)
  have "sample b rng = Inr ((Item (obs b ! nat i), Item (action b ! nat i),
               Item (next_obs b ! nat i), Item (reward b ! nat i), Item (terminated b ! nat i)),
               b\<lparr>n_step := 0\<rparr>)"
    using f(1) l by (simp add: sample_def Let_def s get_batch_tensor_Item)
  with s show ?thesis by blast
qed

section \<open>The training gate of the DQN agent\<close>

lemma add_row_static:
  assumes "add_row b e i = Inr b'"
  shows "n_step b' = n_step b \<and>
         ReplayBuffer.training_freq b' = ReplayBuffer.training_freq b \<and>
         sampled_batch_size b' = sampled_batch_size b"
  using assms
  by (auto simp add: add_row_def Let_def bind_eq_Inr split: if_splits)

lemma add_loop_static:
  "add_loop b e is = Inr b' \<Longrightarrow>
     n_step b' = n_step b \<and>
     ReplayBuffer.training_freq b' = ReplayBuffer.training_freq b \<and>
     sampled_batch_size b' = sampled_batch_size b"
proof (induction "is" arbitrary: b)
  case Nil
  then show ?case by simp
next
  case (Cons i "is")
  from Cons.prems obtain b1 where
    a: "add_row b e i = Inr b1" and l: "add_loop b1 e is = Inr b'"
    by (auto simp add: bind_eq_Inr)
  from Cons.IH[OF l] add_row_static[OF a] show ?case by simp
qed

lemma add_static:
  assumes "add b e = Inr b'"
  shows "n_step b' = n_step b + 1"
    and "ReplayBuffer.training_freq b' = ReplayBuffer.training_freq b"
    and "sampled_batch_size b' = sampled_batch_size b"
  using add_loop_static[of "b\<lparr>n_step := n_step b + 1\<rparr>" e _ b'] assms
  by (simp_all add: add_def)

lemma sample_buffer:
  assumes "sample b rng = Inr (r, b')"
  shows "b' = b\<lparr>n_step := 0\<rparr>"
  using assms by (auto simp add: sample_def Let_def bind_eq_Inr)

lemma train_loop_effect:
  "train_loop d rng ks = Inr d' \<Longrightarrow>
     train_calls d' = train_calls d \<and> config d' = config d \<and>
     global_time_step d' = global_time_step d \<and>
     ReplayBuffer.training_freq (replay_buffer d') = ReplayBuffer.training_freq (replay_buffer d) \<and>
     sampled_batch_size (replay_buffer d') = sampled_batch_size (replay_buffer d) \<and>
     count (replay_buffer d') = count (replay_buffer d) \<and>
     n_step (replay_buffer d') = (if ks = [] then n_step (replay_buffer d) else 0)"
proof (induction ks arbitrary: d)
  case Nil
  then show ?case by simp
next
  case (Cons k ks)
  from Cons.prems obtain r b1 where
    s: "sample (replay_buffer d) (rng k) = Inr (r, b1)"
    and l: "train_loop (d\<lparr>replay_buffer := b1, training_step := training_step d + 1,
                          num_losses := num_losses d + 1\<rparr>) rng ks = Inr d'"
    by (auto simp add: bind_eq_Inr)
  have b1: "b1 = (replay_buffer d)\<lparr>n_step := 0\<rparr>" using s by (rule sample_buffer)
  from Cons.IH[OF l] show ?case by (simp add: b1)
qed

lemma train_effect:
  assumes "train d rng = Inr d'"
  shows "train_calls d' = train_calls d + 1" and "config d' = config d"
    and "global_time_step d' = global_time_step d"
    and "ReplayBuffer.training_freq (replay_buffer d') = ReplayBuffer.training_freq (replay_buffer d)"
    and "sampled_batch_size (replay_buffer d') = sampled_batch_size (replay_buffer d)"
    and "count (replay_buffer d') = count (replay_buffer d)"
    and "n_step (replay_buffer d') =
           (if 1 \<le> epoch (config d) then 0 else n_step (replay_buffer d))"
  using train_loop_effect[of "d\<lparr>train_calls := train_calls d + 1\<rparr>" rng
      "[0..<nat (epoch (config d))]" d'] assms
  by (auto simp add: train_def)

lemma epsilon_decay_effect:
  assumes "epsilon_decay d t = Inr d'"
  shows "replay_buffer d' = replay_buffer d" and "train_calls d' = train_calls d"
    and "config d' = config d"
  using assms
  by (auto simp add: epsilon_decay_def Let_def split: prod.splits if_splits)

lemma update_effect:
  assumes "update d x rng = Inr d'"
  shows "\<exists>b. add (replay_buffer d) x = Inr b \<and> config d' = config d \<and>
           ReplayBuffer.training_freq (replay_buffer d') = ReplayBuffer.training_freq (replay_buffer d) \<and>
           sampled_batch_size (replay_buffer d') = sampled_batch_size (replay_buffer d) \<and>
           count (replay_buffer d') = count b \<and>
           (if can_sample b
            then train_calls d' = train_calls d + 1 \<and>
                 n_step (replay_buffer d') = (if 1 \<le> epoch (config d) then 0 else n_step b)
            else train_calls d' = train_calls d \<and> replay_buffer d' = b)"
proof -
  define d0 where "d0 = d\<lparr>global_time_step := global_time_step d + 1\<rparr>"
  from assms obtain b where
    a: "add (replay_buffer d) x = Inr b"
    and rest: "(if can_sample b
                then bind (train (d0\<lparr>replay_buffer := b\<rparr>) rng)
                       (\<lambda>self. epsilon_decay self (global_time_step self))
                else Inr (d0\<lparr>replay_buffer := b\<rparr>)) = Inr d'"
    unfolding d0_def by (auto simp add: update_def Let_def bind_eq_Inr)
  note st = add_static[OF a]
  show ?thesis
  proof (cases "can_sample b")
    case False
    with rest have "d' = d0\<lparr>replay_buffer := b\<rparr>" by simp
    with a st False show ?thesis by (simp add: d0_def)
  next
    case True
    with rest obtain d1 where
      t: "train (d0\<lparr>replay_buffer := b\<rparr>) rng = Inr d1"
      and e: "epsilon_decay d1 (global_time_step d1) = Inr d'"
      by (auto simp add: bind_eq_Inr)
    note te = train_effect[OF t]
    note ee = epsilon_decay_effect[OF e]
    from a st True te ee show ?thesis by (simp add: d0_def)
  qed
qed

lemma update_n_step:
  assumes "update d x rng = Inr d'" and "0 \<le> n_step (replay_buffer d)"
  shows "0 \<le> n_step (replay_buffer d') \<and>
         n_step (replay_buffer d') \<le> n_step (replay_buffer d) + 1 \<and>
         ReplayBuffer.training_freq (replay_buffer d') = ReplayBuffer.training_freq (replay_buffer d)"
proof -
  from update_effect[OF assms(1)] obtain b where
    a: "add (replay_buffer d) x = Inr b"
    and tf: "ReplayBuffer.training_freq (replay_buffer d') = ReplayBuffer.training_freq (replay_buffer d)"
    and c: "if can_sample b
            then train_calls d' = train_calls d + 1 \<and>
                 n_step (replay_buffer d') = (if 1 \<le> epoch (config d) then 0 else n_step b)
            else train_calls d' = train_calls d \<and> replay_buffer d' = b"
    by blast
  have nb: "n_step b = n_step (replay_buffer d) + 1" using add_static(1)[OF a] .
  have "n_step (replay_buffer d') = 0 \<or> n_step (replay_buffer d') = n_step b"
    using c by (auto split: if_splits)
  with nb assms(2) tf show ?thesis by auto
qed

lemma run_n_step:
  "run d xs = Inr d' \<Longrightarrow> 0 \<le> n_step (replay_buffer d) \<Longrightarrow>
     n_step (replay_buffer d') \<le> n_step (replay_buffer d) + int (length xs) \<and>
     ReplayBuffer.training_freq (replay_buffer d') = ReplayBuffer.training_freq (replay_buffer d)"
proof (induction xs arbitrary: d)
  case Nil
  then show ?case by simp
next
  case (Cons x xs)
  from Cons.prems(1) obtain d1 where
    u: "update d (fst x) (snd x) = Inr d1" and r: "run d1 xs = Inr d'"
    by (auto simp add: bind_eq_Inr)
  note s = update_n_step[OF u Cons.prems(2)]
  from s have "0 \<le> n_step (replay_buffer d1)" by simp
  from Cons.IH[OF r this] s show ?case by simp
qed

lemmas run_eval = update_def add_def add_row_def store_def
  py_getitem_def py_setitem_def bind_def can_sample_def train_def
  sample_def sample_idxs_def get_batch_tensor_def epsilon_decay_def
  DQN_init_def ReplayBuffer_init_def reset_def example_config_def example_step_def
  example_experience_def Let_def upt_rec

text \<open>
  Claim C7 as it is stated, without a condition on \<open>epoch\<close>, fails: with \<open>epoch = 0\<close> a
  call of \<open>train\<close> samples nothing, so \<open>n_step\<close> is not reset. For a training frequency of
  2 the second and the third update of a fresh agent both call \<open>train\<close>; no update lies
  between them, so a single experience is added from the one call to the other, fewer
  than \<open>training_freq\<close>.
\<close>

theorem training_gap_counterexample:
  "epoch (config (projr (run (DQN_init (example_config 1 0) 1) [example_step]))) = 0 \<and>
   update (projr (run (DQN_init (example_config 1 0) 1) [example_step]))
     (fst example_step) (snd example_step)
     = Inr (projr (run (DQN_init (example_config 1 0) 1) [example_step, example_step])) \<and>
   train_calls (projr (run (DQN_init (example_config 1 0) 1) [example_step, example_step]))
     \<noteq> train_calls (projr (run (DQN_init (example_config 1 0) 1) [example_step])) \<and>
   run (projr (run (DQN_init (example_config 1 0) 1) [example_step, example_step])) []
     = Inr (projr (run (DQN_init (example_config 1 0) 1) [example_step, example_step])) \<and>
   update (projr (run (DQN_init (example_config 1 0) 1) [example_step, example_step]))
     (fst example_step) (snd example_step)
     = Inr (projr (run (DQN_init (example_config 1 0) 1)
                     [example_step, example_step, example_step])) \<and>
   train_calls (projr (run (DQN_init (example_config 1 0) 1)
                        [example_step, example_step, example_step]))
     \<noteq> train_calls (projr (run (DQN_init (example_config 1 0) 1) [example_step, example_step])) \<and>
   \<not> ReplayBuffer.training_freq
         (replay_buffer (projr (run (DQN_init (example_config 1 0) 1) [example_step])))
       \<le> int (length ([] :: (nat Experience \<times> (nat \<Rightarrow> nat \<Rightarrow> nat)) list)) + 1"
  by (simp add: run_eval)

text \<open>
  Claim C7, for a configuration with \<open>epoch \<ge> 1\<close>. An update that calls \<open>train\<close> calls it
  once, after an \<open>add\<close> that left \<open>can_sample\<close> true, so at least \<open>sampled_batch_size\<close>
  experiences are stored then; \<open>can_sample\<close> holds exactly when
  \<open>count \<ge> sampled_batch_size\<close> and \<open>n_step \<ge> training_freq\<close>; \<open>sample\<close> resets \<open>n_step\<close>
  to 0; and when \<open>epoch \<ge> 1\<close>, between an update that trains and a later update that
  trains at least \<open>training_freq\<close> experiences are added: the \<open>length ys\<close> updates between
  them and the later one.
\<close>

theorem dqn_training_gate:
  "(update d x rng = Inr d1 \<and> train_calls d1 \<noteq> train_calls d \<longrightarrow>
      train_calls d1 = train_calls d + 1 \<and>
      (\<exists>b. add (replay_buffer d) x = Inr b \<and> can_sample b \<and>
           sampled_batch_size b \<le> count b \<and> count (replay_buffer d1) = count b)) \<and>
   (can_sample b \<longleftrightarrow>
      sampled_batch_size b \<le> count b \<and> ReplayBuffer.training_freq b \<le> n_step b) \<and>
   (sample b g = Inr (batch, b') \<longrightarrow> n_step b' = 0) \<and>
   (1 \<le> epoch (config d) \<and>
    update d x rng = Inr d1 \<and> train_calls d1 \<noteq> train_calls d \<and>
    run d1 ys = Inr d2 \<and>
    update d2 x' rng' = Inr d3 \<and> train_calls d3 \<noteq> train_calls d2 \<longrightarrow>
      ReplayBuffer.training_freq (replay_buffer d) \<le> int (length ys) + 1)"
proof (intro conjI impI)
  assume h: "update d x rng = Inr d1 \<and> train_calls d1 \<noteq> train_calls d"
  from update_effect[of d x rng d1] h obtain b where
    a: "add (replay_buffer d) x = Inr b" and c: "count (replay_buffer d1) = count b"
    and i: "if can_sample b
            then train_calls d1 = train_calls d + 1 \<and>
                 n_step (replay_buffer d1) = (if 1 \<le> epoch (config d) then 0 else n_step b)
            else train_calls d1 = train_calls d \<and> replay_buffer d1 = b"
    by blast
  from i h have cs: "can_sample b" by (auto split: if_splits)
  with i show "train_calls d1 = train_calls d + 1" by simp
  from cs have "sampled_batch_size b \<le> count b" by (simp add: can_sample_def)
  with a c cs show "\<exists>b. add (replay_buffer d) x = Inr b \<and> can_sample b \<and>
           sampled_batch_size b \<le> count b \<and> count (replay_buffer d1) = count b"
    by blast
next
  show "can_sample b \<longleftrightarrow>
      sampled_batch_size b \<le> count b \<and> ReplayBuffer.training_freq b \<le> n_step b"
    by (simp add: can_sample_def)
next
  assume "sample b g = Inr (batch, b')"
  then have "b' = b\<lparr>n_step := 0\<rparr>" by (rule sample_buffer)
  then show "n_step b' = 0" by simp
next
  assume h: "1 \<le> epoch (config d) \<and>
    update d x rng = Inr d1 \<and> train_calls d1 \<noteq> train_calls d \<and>
    run d1 ys = Inr d2 \<and>
    update d2 x' rng' = Inr d3 \<and> train_calls d3 \<noteq> train_calls d2"
  then have ep: "1 \<le> epoch (config d)" and u1: "update d x rng = Inr d1"
    and t1: "train_calls d1 \<noteq> train_calls d" and r: "run d1 ys = Inr d2"
    and u2: "update d2 x' rng' = Inr d3" and t2: "train_calls d3 \<noteq> train_calls d2"
    by simp_all
  from update_effect[OF u1] obtain b where
    tf1: "ReplayBuffer.training_freq (replay_buffer d1) = ReplayBuffer.training_freq (replay_buffer d)"
    and i1: "if can_sample b
            then train_calls d1 = train_calls d + 1 \<and>
                 n_step (replay_buffer d1) = (if 1 \<le> epoch (config d) then 0 else n_step b)
            else train_calls d1 = train_calls d \<and> replay_buffer d1 = b"
    by blast
  from i1 t1 ep have n1: "n_step (replay_buffer d1) = 0" by (auto split: if_splits)
  from run_n_step[OF r] n1 have
    n2: "n_step (replay_buffer d2) \<le> int (length ys)"
    and tf2: "ReplayBuffer.training_freq (replay_buffer d2) = ReplayBuffer.training_freq (replay_buffer d1)"
    by simp_all
  from update_effect[OF u2] obtain b2 where
    a2: "add (replay_buffer d2) x' = Inr b2"
    and i2: "if can_sample b2
            then train_calls d3 = train_calls d2 + 1 \<and>
                 n_step (replay_buffer d3) = (if 1 \<le> epoch (config d2) then 0 else n_step b2)
            else train_calls d3 = train_calls d2 \<and> replay_buffer d3 = b2"
    by blast
  from i2 t2 have "can_sample b2" by (auto split: if_splits)
  then have "ReplayBuffer.training_freq b2 \<le> n_step b2" by (simp add: can_sample_def)
  with add_static[OF a2] have
    "ReplayBuffer.training_freq (replay_buffer d2) \<le> n_step (replay_buffer d2) + 1" by simp
  with n2 tf2 tf1 show "ReplayBuffer.training_freq (replay_buffer d) \<le> int (length ys) + 1"
    by simp
qed

text \<open>
  With \<open>epoch = 1\<close>, a batch size of 2 and a training frequency of 2, four updates train at
  the second and at the fourth.
\<close>

theorem dqn_training_gate_witness:
  "train_calls (projr (run (DQN_init (example_config 2 1) 1) [example_step])) = 0 \<and>
   train_calls (projr (run (DQN_init (example_config 2 1) 1) [example_step, example_step])) = 1 \<and>
   train_calls (projr (run (DQN_init (example_config 2 1) 1)
                        [example_step, example_step, example_step])) = 1 \<and>
   train_calls (projr (run (DQN_init (example_config 2 1) 1)
                        [example_step, example_step, example_step, example_step])) = 2 \<and>
   ReplayBuffer.training_freq
     (replay_buffer (projr (run (DQN_init (example_config 2 1) 1) [example_step])))
     \<le> int (length [example_step]) + 1 \<and>
   (\<exists>b. add (replay_buffer (projr (run (DQN_init (example_config 2 1) 1) [example_step])))
           (fst example_step) = Inr b \<and> can_sample b)"
proof -
  let ?init = "DQN_init (example_config 2 1) 1 :: nat DQN"
  let ?d = "projr (run ?init [example_step])"
  let ?d1 = "projr (run ?init [example_step, example_step])"
  let ?d2 = "projr (run ?init [example_step, example_step, example_step])"
  let ?d3 = "projr (run ?init [example_step, example_step, example_step, example_step])"
  have c0: "train_calls ?d = 0" and c1: "train_calls ?d1 = 1"
    and c2: "train_calls ?d2 = 1" and c3: "train_calls ?d3 = 2"
    by (simp_all add: run_eval)
  have ep: "1 \<le> epoch (config ?d)" by (simp add: run_eval)
  have u1: "update ?d (fst example_step) (snd example_step) = Inr ?d1"
    by (simp add: run_eval)
  have r: "run ?d1 [example_step] = Inr ?d2"
    by (simp add: run_eval)
  have u2: "update ?d2 (fst example_step) (snd example_step) = Inr ?d3"
    by (simp add: run_eval)
  have t1: "train_calls ?d1 \<noteq> train_calls ?d" by (simp only: c0 c1)
  have t2: "train_calls ?d3 \<noteq> train_calls ?d2" by (simp only: c2 c3)
  note T = dqn_training_gate[of ?d "fst example_step" "snd example_step" ?d1 _ _ _ _
      "[example_step]" ?d2 "fst example_step" "snd example_step" ?d3]
  have g: "ReplayBuffer.training_freq (replay_buffer ?d) \<le> int (length [example_step]) + 1"
    using conjunct2[OF conjunct2[OF conjunct2[OF T]]] ep u1 t1 r u2 t2 by blast
  have a: "\<exists>b. add (replay_buffer ?d) (fst example_step) = Inr b \<and> can_sample b"
    using conjunct1[OF T] u1 t1 by blast
  show ?thesis using c0 c1 c2 c3 g a by (intro conjI)
qed

end
